(* ===== verification/Prelude.thy ===== *)
theory Prelude
  imports Main "HOL-Library.Word"
begin

text \<open>
  The shared vocabulary of the development: machine integers and instants, Go errors, the
  three ways a Go call can end (a value, a returned error, a panic), the state-passing
  programs built from them, and the few functions of Go's language and standard library
  that several components use (slicing, string search, decimal printing, iteration over a
  map). The lemmas at the end of each section are the ones the component proofs rest on;
  they are simplification rules or members of the collections \<open>prog_simps\<close> and
  \<open>prog_elims\<close>.
\<close>

named_theorems prog_simps \<open>unfolding of the program combinators\<close>
named_theorems prog_elims \<open>inversion of the program combinators\<close>

section \<open>Machine integers, addresses and instants\<close>

type_synonym u8 = "8 word"
type_synonym u16 = "16 word"
type_synonym u32 = "32 word"
type_synonym u64 = "64 word"

text \<open>
  An address of the process, and the bytes of its memory. Addresses are 64 bits wide; a
  32-bit process uses the low half of them.
\<close>

type_synonym addr = "64 word"
type_synonym memory = "addr \<Rightarrow> u8"

text \<open>
  \<open>time.Time\<close> is an instant, in nanoseconds since the Unix epoch; Go's zero time is the
  first of January of the year 1. A \<open>time.Duration\<close> counts nanoseconds.
\<close>

type_synonym Time = int
type_synonym Duration = int

definition zeroTime :: Time where
  "zeroTime = - 62135596800 * 10 ^ 9"

definition IsZero :: "Time \<Rightarrow> bool" where
  "IsZero t \<longleftrightarrow> t = zeroTime"

definition second :: Duration where
  "second = 10 ^ 9"

section \<open>Errors and outcomes\<close>

text \<open>
  \<open>ErrorsNew\<close> is \<open>errors.New\<close>; \<open>PdhError\<close> is the \<open>*pdhError\<close> of
  \<open>performance_query.go\<close>; \<open>Errorf\<close> is \<open>fmt.Errorf\<close>, kept as its format, its operands
  and the error its \<open>%w\<close> verb wraps, if it has one. An operand is a string, an
  integer, a floating-point number (its bits), a map, or an error whose text is printed.
\<close>

datatype go_error =
    ErrorsNew string
  | PdhError (errorCode: u32) (errorText: string)
  | Errorf string "fmt_arg list" "go_error option"
  and fmt_arg = AStr string | AInt int | AFloat u64 | AMap "(string \<times> fmt_arg) list" | AErr go_error

text \<open>\<open>errors.As\<close> with a \<open>*pdhError\<close> target: the code of the first one on the chain.\<close>

fun as_pdhError :: "go_error \<Rightarrow> u32 option" where
  "as_pdhError (ErrorsNew t) = None"
| "as_pdhError (PdhError c t) = Some c"
| "as_pdhError (Errorf f as None) = None"
| "as_pdhError (Errorf f as (Some e)) = as_pdhError e"

text \<open>How a Go call that may return an error ends: normally, with an error, or by a panic.\<close>

datatype 'a result = Ok 'a | Err go_error | Panic string

fun bindR :: "'a result \<Rightarrow> ('a \<Rightarrow> 'b result) \<Rightarrow> 'b result" where
  "bindR (Ok a) f = f a"
| "bindR (Err e) f = Err e"
| "bindR (Panic p) f = Panic p"

lemma bindR_eq_Ok [simp]: "bindR r f = Ok b \<longleftrightarrow> (\<exists>a. r = Ok a \<and> f a = Ok b)"
  by (cases r) auto

lemma bindR_eq_Panic [simp]:
  "bindR r f = Panic p \<longleftrightarrow> r = Panic p \<or> (\<exists>a. r = Ok a \<and> f a = Panic p)"
  by (cases r) auto

section \<open>Programs\<close>

text \<open>
  A program passes a state along and ends with an outcome; the state changes it made
  before an error or a panic stay. \<open>None\<close> is a program that never returns.
\<close>

type_synonym ('s, 'a) prog = "'s \<Rightarrow> ('a result \<times> 's) option"

definition retP :: "'a \<Rightarrow> ('s, 'a) prog" where
  "retP a = (\<lambda>s. Some (Ok a, s))"

definition failP :: "go_error \<Rightarrow> ('s, 'a) prog" where
  "failP e = (\<lambda>s. Some (Err e, s))"

definition panicP :: "string \<Rightarrow> ('s, 'a) prog" where
  "panicP p = (\<lambda>s. Some (Panic p, s))"

definition bindP :: "('s, 'a) prog \<Rightarrow> ('a \<Rightarrow> ('s, 'b) prog) \<Rightarrow> ('s, 'b) prog" where
  "bindP m f = (\<lambda>s. case m s of
      None \<Rightarrow> None
    | Some (Ok a, s') \<Rightarrow> f a s'
    | Some (Err e, s') \<Rightarrow> Some (Err e, s')
    | Some (Panic p, s') \<Rightarrow> Some (Panic p, s'))"

definition seqP :: "('s, 'a) prog \<Rightarrow> ('s, 'b) prog \<Rightarrow> ('s, 'b) prog" where
  "seqP m k = bindP m (\<lambda>_. k)"

text \<open>The caller looks at the returned error itself: \<open>Inl\<close> the error, \<open>Inr\<close> the value.\<close>

definition attemptP :: "('s, 'a) prog \<Rightarrow> ('s, go_error + 'a) prog" where
  "attemptP m = (\<lambda>s. case m s of
      None \<Rightarrow> None
    | Some (Ok a, s') \<Rightarrow> Some (Ok (Inr a), s')
    | Some (Err e, s') \<Rightarrow> Some (Ok (Inl e), s')
    | Some (Panic p, s') \<Rightarrow> Some (Panic p, s'))"

definition getP :: "('s \<Rightarrow> 'a) \<Rightarrow> ('s, 'a) prog" where
  "getP g = (\<lambda>s. Some (Ok (g s), s))"

definition modifyP :: "('s \<Rightarrow> 's) \<Rightarrow> ('s, unit) prog" where
  "modifyP h = (\<lambda>s. Some (Ok (), h s))"

text \<open>A \<open>for\<close> loop over a slice that stops at the first \<open>return err\<close> of its body.\<close>

primrec forP :: "'a list \<Rightarrow> ('a \<Rightarrow> ('s, unit) prog) \<Rightarrow> ('s, unit) prog" where
  "forP [] f = retP ()"
| "forP (x # xs) f = bindP (f x) (\<lambda>_. forP xs f)"

lemma retP_apply [prog_simps]: "retP a s = Some (Ok a, s)"
  by (simp add: retP_def)

lemma failP_apply [prog_simps]: "failP e s = Some (Err e, s)"
  by (simp add: failP_def)

lemma panicP_apply [prog_simps]: "panicP p s = Some (Panic p, s)"
  by (simp add: panicP_def)

lemma getP_apply [prog_simps]: "getP g s = Some (Ok (g s), s)"
  by (simp add: getP_def)

lemma modifyP_apply [prog_simps]: "modifyP h s = Some (Ok (), h s)"
  by (simp add: modifyP_def)

lemma seqP_apply [prog_simps]: "seqP m k s = bindP m (\<lambda>_. k) s"
  by (simp add: seqP_def)

lemma bindP_apply [prog_simps]: "bindP m f s = (case m s of
      None \<Rightarrow> None
    | Some (Ok a, s') \<Rightarrow> f a s'
    | Some (Err e, s') \<Rightarrow> Some (Err e, s')
    | Some (Panic p, s') \<Rightarrow> Some (Panic p, s'))"
  by (simp add: bindP_def)

lemma attemptP_apply [prog_simps]: "attemptP m s = (case m s of
      None \<Rightarrow> None
    | Some (Ok a, s') \<Rightarrow> Some (Ok (Inr a), s')
    | Some (Err e, s') \<Rightarrow> Some (Ok (Inl e), s')
    | Some (Panic p, s') \<Rightarrow> Some (Panic p, s'))"
  by (simp add: attemptP_def)

lemma bindP_eq_Ok [prog_elims]:
  "bindP m f s = Some (Ok b, t) \<longleftrightarrow> (\<exists>a u. m s = Some (Ok a, u) \<and> f a u = Some (Ok b, t))"
  by (auto simp: bindP_def split: option.splits result.splits)

text \<open>The monad laws, and the distribution of a bind over a conditional.\<close>

lemma bindP_assoc: "bindP (bindP m f) g = bindP m (\<lambda>a. bindP (f a) g)"
  by (rule ext) (simp add: bindP_def split: option.split prod.split result.split)

lemma bindP_retP: "bindP (retP a) f = f a"
  by (rule ext) (simp add: bindP_def retP_def)

lemma bindP_if: "bindP (if c then m else k) f = (if c then bindP m f else bindP k f)"
  by simp

lemmas bindP_laws = bindP_assoc bindP_retP bindP_if

lemma attemptP_never_Err: "attemptP m s \<noteq> Some (Err e, t)"
  by (auto simp: attemptP_def split: option.splits result.splits)

subsection \<open>Termination and invariants of programs\<close>

text \<open>
  \<open>keeps J m\<close>: from every state that satisfies \<open>J\<close> the program returns, and however it ends,
  by a value, an error or a panic, \<open>J\<close> holds again. It follows the structure of a program.
\<close>

definition keeps :: "('s \<Rightarrow> bool) \<Rightarrow> ('s, 'a) prog \<Rightarrow> bool" where
  "keeps J m \<longleftrightarrow> (\<forall>s. J s \<longrightarrow> (\<exists>r t. m s = Some (r, t) \<and> J t))"

named_theorems keeps_rules \<open>structural rules for kept invariants\<close>

lemma keepsI: "(\<And>s. J s \<Longrightarrow> \<exists>r t. m s = Some (r, t) \<and> J t) \<Longrightarrow> keeps J m"
  unfolding keeps_def by blast

lemma keepsE:
  assumes "keeps J m" and "J s"
  obtains r t where "m s = Some (r, t)" and "J t"
  using assms unfolding keeps_def by blast

lemma keepsD: "keeps J m \<Longrightarrow> J s \<Longrightarrow> m s = Some (r, t) \<Longrightarrow> J t"
  unfolding keeps_def by fastforce

lemma keeps_retP [keeps_rules]: "keeps J (retP a)"
  by (simp add: keeps_def retP_def)

lemma keeps_failP [keeps_rules]: "keeps J (failP a)"
  by (simp add: keeps_def failP_def)

lemma keeps_panicP [keeps_rules]: "keeps J (panicP a)"
  by (simp add: keeps_def panicP_def)

lemma keeps_getP [keeps_rules]: "keeps J (getP g)"
  by (simp add: keeps_def getP_def)

lemma keeps_modifyP [keeps_rules]: "(\<And>s. J s \<Longrightarrow> J (h s)) \<Longrightarrow> keeps J (modifyP h)"
  by (simp add: keeps_def modifyP_def)

lemma keeps_bindP [keeps_rules]:
  assumes "keeps J m" and "\<And>a. keeps J (f a)"
  shows "keeps J (bindP m f)"
proof (rule keepsI)
  fix s
  assume "J s"
  with assms(1) obtain r u where m: "m s = Some (r, u)" and u: "J u" by (rule keepsE)
  show "\<exists>r t. bindP m f s = Some (r, t) \<and> J t"
  proof (cases r)
    case (Ok a)
    from assms(2) [of a] u obtain q t where "f a u = Some (q, t)" "J t" by (rule keepsE)
    with m Ok show ?thesis by (simp add: bindP_def)
  qed (use m u in \<open>auto simp: bindP_def\<close>)
qed

lemma keeps_seqP [keeps_rules]: "keeps J m \<Longrightarrow> keeps J k \<Longrightarrow> keeps J (seqP m k)"
  by (simp add: seqP_def keeps_bindP)

lemma keeps_attemptP [keeps_rules]:
  assumes "keeps J m"
  shows "keeps J (attemptP m)"
proof (rule keepsI)
  fix s
  assume "J s"
  with assms obtain r t where "m s = Some (r, t)" "J t" by (rule keepsE)
  then show "\<exists>r t. attemptP m s = Some (r, t) \<and> J t"
    by (cases r) (auto simp: attemptP_def)
qed

lemma keeps_forP [keeps_rules]: "(\<And>x. keeps J (f x)) \<Longrightarrow> keeps J (forP xs f)"
  by (induction xs) (auto intro: keeps_retP keeps_bindP)

lemma keeps_if [keeps_rules]:
  "(c \<Longrightarrow> keeps J m) \<Longrightarrow> (\<not> c \<Longrightarrow> keeps J k) \<Longrightarrow> keeps J (if c then m else k)"
  by simp

lemma keeps_case_sum [keeps_rules]:
  "(\<And>a. keeps J (f a)) \<Longrightarrow> (\<And>b. keeps J (g b)) \<Longrightarrow> keeps J (case_sum f g x)"
  by (simp split: sum.split)

lemma keeps_case_option [keeps_rules]:
  "keeps J m \<Longrightarrow> (\<And>a. keeps J (f a)) \<Longrightarrow> keeps J (case_option m f x)"
  by (simp split: option.split)

lemma keeps_case_prod [keeps_rules]:
  "(\<And>a b. keeps J (f a b)) \<Longrightarrow> keeps J (case_prod f x)"
  by (simp split: prod.split)

section \<open>Slices, strings and printing\<close>

text \<open>The slice \<open>s[lo:hi]\<close> of a string or slice panics outside \<open>0 \<le> lo \<le> hi \<le> len(s)\<close>.\<close>

definition slice :: "'a list \<Rightarrow> int \<Rightarrow> int \<Rightarrow> 'a list result" where
  "slice s lo hi =
     (if 0 \<le> lo \<and> lo \<le> hi \<and> hi \<le> int (length s)
      then Ok (take (nat (hi - lo)) (drop (nat lo) s))
      else Panic ''slice bounds out of range'')"

lemma slice_append [simp]:
  "slice (xs @ ys @ zs) (int (length xs)) (int (length xs + length ys)) = Ok ys"
  by (simp add: slice_def)

text \<open>\<open>strings.HasPrefix\<close> and \<open>strings.Contains\<close>.\<close>

fun hasPrefix :: "string \<Rightarrow> string \<Rightarrow> bool" where
  "hasPrefix s [] = True"
| "hasPrefix [] (p # ps) = False"
| "hasPrefix (c # s) (p # ps) = (c = p \<and> hasPrefix s ps)"

fun contains :: "string \<Rightarrow> string \<Rightarrow> bool" where
  "contains [] t = (t = [])"
| "contains (c # s) t = (hasPrefix (c # s) t \<or> contains s t)"

lemma hasPrefix_iff: "hasPrefix s p \<longleftrightarrow> (\<exists>r. s = p @ r)"
  by (induction s p rule: hasPrefix.induct) auto

lemma contains_iff: "contains s t \<longleftrightarrow> (\<exists>l r. s = l @ t @ r)"
proof (induction s)
  case Nil
  show ?case by auto
next
  case (Cons c s)
  show ?case
  proof
    assume "contains (c # s) t"
    then consider "hasPrefix (c # s) t" | "contains s t" by auto
    then show "\<exists>l r. c # s = l @ t @ r"
    proof cases
      case 1
      then show ?thesis by (metis append_Nil hasPrefix_iff)
    next
      case 2
      with Cons.IH obtain l r where "s = l @ t @ r" by blast
      then show ?thesis by (metis append_Cons)
    qed
  next
    assume "\<exists>l r. c # s = l @ t @ r"
    then obtain l r where eq: "c # s = l @ t @ r" by blast
    show "contains (c # s) t"
    proof (cases l)
      case Nil
      with eq have "hasPrefix (c # s) t" by (simp add: hasPrefix_iff)
      then show ?thesis by simp
    next
      case (Cons d l')
      with eq have "s = l' @ t @ r" by simp
      with Cons.IH show ?thesis by auto
    qed
  qed
qed

lemma contains_single [simp]: "contains s [c] \<longleftrightarrow> c \<in> set s"
  by (auto simp: contains_iff in_set_conv_decomp)

text \<open>The verb \<open>%d\<close> on a non-negative integer.\<close>

fun decimal :: "nat \<Rightarrow> string" where
  "decimal n = (if n < 10 then [char_of (48 + n)]
                else decimal (n div 10) @ [char_of (48 + n mod 10)])"

declare decimal.simps [simp del]

lemma decimal_nonempty [simp]: "decimal n \<noteq> []"
  by (subst decimal.simps) simp

section \<open>Memory\<close>

text \<open>Little-endian reads.\<close>

definition le16 :: "memory \<Rightarrow> addr \<Rightarrow> u16" where
  "le16 m p = ucast (m p) + 256 * ucast (m (p + 1))"

definition le32 :: "memory \<Rightarrow> addr \<Rightarrow> u32" where
  "le32 m p = ucast (m p) + 256 * ucast (m (p + 1)) + 65536 * ucast (m (p + 2))
     + 16777216 * ucast (m (p + 3))"

definition le64 :: "memory \<Rightarrow> addr \<Rightarrow> u64" where
  "le64 m p = ucast (le32 m p) + 4294967296 * ucast (le32 m (p + 4))"

text \<open>A memory that holds the given bytes at \<open>base\<close> and zeros elsewhere.\<close>

definition bytesAt :: "addr \<Rightarrow> u8 list \<Rightarrow> memory" where
  "bytesAt base bytes = (\<lambda>a. if unat (a - base) < length bytes then bytes ! unat (a - base) else 0)"

section \<open>Association lists with a map's operations\<close>

text \<open>
  A Go map is kept as an association list in insertion order, with distinct keys;
  \<open>upsert\<close> is the assignment \<open>m[k] = v\<close>.
\<close>

fun upsert :: "'k \<Rightarrow> 'v \<Rightarrow> ('k \<times> 'v) list \<Rightarrow> ('k \<times> 'v) list" where
  "upsert k v [] = [(k, v)]"
| "upsert k v ((k', v') # kvs) = (if k = k' then (k, v) # kvs else (k', v') # upsert k v kvs)"

lemma map_of_upsert [simp]: "map_of (upsert k v kvs) = (map_of kvs)(k \<mapsto> v)"
  by (induction k v kvs rule: upsert.induct) (auto simp: fun_eq_iff)

lemma keys_upsert [simp]:
  "map fst (upsert k v kvs) =
     (if k \<in> fst ` set kvs then map fst kvs else map fst kvs @ [k])"
  by (induction k v kvs rule: upsert.induct) auto

lemma fst_set_upsert [simp]: "fst ` set (upsert k v kvs) = insert k (fst ` set kvs)"
  by (induction k v kvs rule: upsert.induct) auto

lemma distinct_upsert [simp]: "distinct (map fst (upsert k v kvs)) = distinct (map fst kvs)"
  by auto

lemma upsert_upsert [simp]: "upsert k v (upsert k v' kvs) = upsert k v kvs"
  by (induction k v kvs rule: upsert.induct) auto

lemma set_upsert_subset: "set (upsert k v kvs) \<subseteq> insert (k, v) (set kvs)"
  by (induction k v kvs rule: upsert.induct) auto

end
