(* ===== verification/Wide.thy ===== *)
theory Wide
  imports Prelude
begin

text \<open>
  Strings that cross the boundary to Windows. A Go string is a sequence of bytes, usually
  UTF-8; a Windows string is a sequence of 16-bit units ended by a zero unit. The first part
  holds what Go's language and its packages \<open>unicode/utf8\<close>, \<open>unicode/utf16\<close> and
  \<open>syscall\<close> do to convert between them; the second part is \<open>utf16PtrToString\<close> and
  \<open>utf16ToStringArray\<close> of \<open>performance_query.go\<close>, which read such strings from memory.
  The lemmas relate the number of runes of a converted string to its number of units, on
  which the walk through a list of strings rests.
\<close>

section \<open>UTF-8\<close>

type_synonym rune = nat

definition runeError :: rune where
  "runeError = 0xFFFD"

definition surrogate :: "nat \<Rightarrow> bool" where
  "surrogate r \<longleftrightarrow> 0xD800 \<le> r \<and> r < 0xE000"

abbreviation byte :: "nat \<Rightarrow> char" where
  "byte n \<equiv> char_of n"

text \<open>\<open>utf8.AppendRune\<close>.\<close>

definition encodeRune :: "rune \<Rightarrow> string" where
  "encodeRune r0 =
     (let r = (if surrogate r0 \<or> r0 > 0x10FFFF then runeError else r0) in
      if r < 0x80 then [byte r]
      else if r < 0x800 then [byte (0xC0 + r div 64), byte (0x80 + r mod 64)]
      else if r < 0x10000
      then [byte (0xE0 + r div 4096), byte (0x80 + r div 64 mod 64), byte (0x80 + r mod 64)]
      else [byte (0xF0 + r div 262144), byte (0x80 + r div 4096 mod 64),
            byte (0x80 + r div 64 mod 64), byte (0x80 + r mod 64)])"

text \<open>
  \<open>utf8.DecodeRuneInString\<close> on the byte values of a non-empty string: the rune and its
  width; a malformed or truncated encoding is \<open>runeError\<close> of width one. The second byte's
  range depends on the first, so that overlong forms and surrogates are malformed.
\<close>

definition cont :: "nat \<Rightarrow> bool" where
  "cont b \<longleftrightarrow> 0x80 \<le> b \<and> b \<le> 0xBF"

definition secondOk :: "nat \<Rightarrow> nat \<Rightarrow> bool" where
  "secondOk b0 b1 \<longleftrightarrow>
     (if b0 = 0xE0 then 0xA0 \<le> b1 \<and> b1 \<le> 0xBF
      else if b0 = 0xED then 0x80 \<le> b1 \<and> b1 \<le> 0x9F
      else if b0 = 0xF0 then 0x90 \<le> b1 \<and> b1 \<le> 0xBF
      else if b0 = 0xF4 then 0x80 \<le> b1 \<and> b1 \<le> 0x8F
      else cont b1)"

fun decodeBytes :: "nat list \<Rightarrow> rune \<times> nat" where
  "decodeBytes [] = (runeError, 1)"
| "decodeBytes (b0 # rest) =
     (if b0 < 0x80 then (b0, 1)
      else if 0xC2 \<le> b0 \<and> b0 \<le> 0xDF then
        (case rest of b1 # _ \<Rightarrow> if cont b1 then ((b0 - 0xC0) * 64 + (b1 - 0x80), 2) else (runeError, 1)
         | _ \<Rightarrow> (runeError, 1))
      else if 0xE0 \<le> b0 \<and> b0 \<le> 0xEF then
        (case rest of b1 # b2 # _ \<Rightarrow>
           if secondOk b0 b1 \<and> cont b2
           then ((b0 - 0xE0) * 4096 + (b1 - 0x80) * 64 + (b2 - 0x80), 3) else (runeError, 1)
         | _ \<Rightarrow> (runeError, 1))
      else if 0xF0 \<le> b0 \<and> b0 \<le> 0xF4 then
        (case rest of b1 # b2 # b3 # _ \<Rightarrow>
           if secondOk b0 b1 \<and> cont b2 \<and> cont b3
           then ((b0 - 0xF0) * 262144 + (b1 - 0x80) * 4096 + (b2 - 0x80) * 64 + (b3 - 0x80), 4)
           else (runeError, 1)
         | _ \<Rightarrow> (runeError, 1))
      else (runeError, 1))"

definition decodeRune :: "string \<Rightarrow> rune \<times> nat" where
  "decodeRune s = decodeBytes (map of_char s)"

text \<open>The conversion \<open>[]rune(s)\<close>.\<close>

fun runes :: "string \<Rightarrow> rune list" where
  "runes [] = []"
| "runes (c # cs) =
     (let (r, n) = decodeRune (c # cs) in r # runes (drop (n - 1) cs))"

subsection \<open>Decoding undoes encoding\<close>

definition validRune :: "rune \<Rightarrow> bool" where
  "validRune r \<longleftrightarrow> r \<le> 0x10FFFF \<and> \<not> surrogate r"

lemma split_sixbits:
  fixes r :: nat
  shows "r = r div 4096 * 4096 + r div 64 mod 64 * 64 + r mod 64"
proof -
  have "r div 64 div 64 = r div 4096" by (simp flip: div_mult2_eq)
  moreover have "r div 64 = r div 64 div 64 * 64 + r div 64 mod 64" by simp
  moreover have "r = r div 64 * 64 + r mod 64" by simp
  ultimately show ?thesis by linarith
qed

lemma split_sixbits4:
  fixes r :: nat
  shows "r = r div 262144 * 262144 + r div 4096 mod 64 * 4096 + r div 64 mod 64 * 64 + r mod 64"
proof -
  have "r div 4096 div 64 = r div 262144" by (simp flip: div_mult2_eq)
  moreover have "r div 4096 = r div 4096 div 64 * 64 + r div 4096 mod 64" by simp
  ultimately show ?thesis using split_sixbits [of r] by linarith
qed

lemma decodeRune_encodeRune:
  assumes "validRune r"
  shows "decodeRune (encodeRune r @ s) = (r, length (encodeRune r))"
proof -
  consider "r < 0x80" | "0x80 \<le> r" "r < 0x800" | "0x800 \<le> r" "r < 0x10000"
    | "0x10000 \<le> r" "r \<le> 0x10FFFF"
    using assms unfolding validRune_def by (meson linorder_not_less)
  then show ?thesis
  proof cases
    case 1
    then show ?thesis by (simp add: decodeRune_def encodeRune_def surrogate_def)
  next
    case 2
    then have "r div 64 < 32" "2 \<le> r div 64" by auto
    with 2 show ?thesis
      by (simp add: decodeRune_def encodeRune_def surrogate_def cont_def)
  next
    case 3
    define a b where "a = r div 4096" and "b = r div 64 mod 64"
    have ab: "a < 16" "b < 64" "r = a * 4096 + b * 64 + r mod 64"
      using 3 split_sixbits [of r] by (simp_all add: a_def b_def)
    have "secondOk (0xE0 + a) (0x80 + b)"
      using assms 3 ab(1,2) ab(3) by (auto simp: secondOk_def cont_def validRune_def surrogate_def)
    then show ?thesis
      using 3 assms ab
      by (simp add: decodeRune_def encodeRune_def validRune_def cont_def flip: a_def b_def)
  next
    case 4
    define a b c where "a = r div 262144" and "b = r div 4096 mod 64" and "c = r div 64 mod 64"
    have abc: "a < 5" "b < 64" "c < 64" "r = a * 262144 + b * 4096 + c * 64 + r mod 64"
      using 4 split_sixbits4 [of r] by (simp_all add: a_def b_def c_def)
    have "secondOk (0xF0 + a) (0x80 + b)"
      using 4 abc(1,2,3) abc(4) by (auto simp: secondOk_def cont_def)
    then show ?thesis
      using 4 abc
      by (simp add: decodeRune_def encodeRune_def cont_def surrogate_def flip: a_def b_def c_def)
  qed
qed

lemma encodeRune_nonempty [simp]: "encodeRune r \<noteq> []"
  by (simp add: encodeRune_def Let_def)

lemma runes_encodeRune:
  assumes "validRune r"
  shows "runes (encodeRune r @ s) = r # runes s"
proof -
  obtain c cs where e: "encodeRune r = c # cs"
    using encodeRune_nonempty by (meson neq_Nil_conv)
  then have "decodeRune (c # cs @ s) = (r, Suc (length cs))"
    using decodeRune_encodeRune [OF assms, of s] by simp
  with e show ?thesis by simp
qed

lemma runes_encode:
  "(\<And>r. r \<in> set rs \<Longrightarrow> validRune r) \<Longrightarrow> runes (concat (map encodeRune rs)) = rs"
  by (induction rs) (auto simp: runes_encodeRune)

section \<open>UTF-16\<close>

text \<open>
  \<open>syscall.UTF16ToString\<close>: the units up to the first zero one. A unit outside the surrogate
  range is a rune; a high surrogate followed by a low one is a rune beyond the basic plane;
  any other surrogate is written in the three-byte form on its own (WTF-8).
\<close>

definition rawSurrogate :: "nat \<Rightarrow> string" where
  "rawSurrogate u = [byte (0xE0 + u div 4096), byte (0x80 + u div 64 mod 64), byte (0x80 + u mod 64)]"

definition decodePair :: "nat \<Rightarrow> nat \<Rightarrow> rune" where
  "decodePair hi lo = (hi - 0xD800) * 0x400 + (lo - 0xDC00) + 0x10000"

fun decodeWTF16 :: "nat list \<Rightarrow> string" where
  "decodeWTF16 [] = []"
| "decodeWTF16 (u # us) =
     (if \<not> surrogate u then encodeRune u @ decodeWTF16 us
      else case us of
        v # vs \<Rightarrow> if u < 0xDC00 \<and> 0xDC00 \<le> v \<and> v < 0xE000
                  then encodeRune (decodePair u v) @ decodeWTF16 vs
                  else rawSurrogate u @ decodeWTF16 us
      | [] \<Rightarrow> rawSurrogate u)"

definition utf16ToString :: "u16 list \<Rightarrow> string" where
  "utf16ToString us = decodeWTF16 (map unat (takeWhile (\<lambda>u. u \<noteq> 0) us))"

text \<open>
  \<open>syscall.UTF16PtrFromString\<close>: \<open>None\<close> (a nil pointer and \<open>EINVAL\<close>) for a string that
  holds a zero byte, otherwise its units and a final zero.
\<close>

definition encodeUnits :: "rune \<Rightarrow> nat list" where
  "encodeUnits r = (if r < 0x10000 then [r]
     else [0xD800 + (r - 0x10000) div 0x400, 0xDC00 + (r - 0x10000) mod 0x400])"

definition isRawSurrogate :: "string \<Rightarrow> bool" where
  "isRawSurrogate s = (case map of_char s of
      b0 # b1 # b2 # _ \<Rightarrow> b0 = (0xED :: nat) \<and> 0xA0 \<le> b1 \<and> b1 \<le> 0xBF \<and> cont b2
    | _ \<Rightarrow> False)"

fun encodeWTF16 :: "string \<Rightarrow> nat list" where
  "encodeWTF16 [] = []"
| "encodeWTF16 (c # cs) =
     (if isRawSurrogate (c # cs)
      then ((of_char c - 0xE0) * 4096 + (of_char (cs ! 0) - 0x80) * 64 + (of_char (cs ! 1) - 0x80))
           # encodeWTF16 (drop 2 cs)
      else let (r, n) = decodeRune (c # cs) in encodeUnits r @ encodeWTF16 (drop (n - 1) cs))"

definition utf16PtrFromString :: "string \<Rightarrow> u16 list option" where
  "utf16PtrFromString s =
     (if CHR 0x00 \<in> set s then None else Some (map of_nat (encodeWTF16 s) @ [0]))"

text \<open>A string of ASCII characters has one unit per character.\<close>

lemma encodeWTF16_ascii:
  "\<forall>c \<in> set s. of_char c < (0x80 :: nat) \<Longrightarrow> encodeWTF16 s = map of_char s"
  by (induction s) (simp_all add: isRawSurrogate_def decodeRune_def encodeUnits_def split: list.splits)

lemma utf16PtrFromString_ascii:
  assumes "\<forall>c \<in> set s. of_char c \<in> {1 ..< 0x80 :: nat}"
  shows "utf16PtrFromString s = Some (map (\<lambda>c. of_nat (of_char c)) s @ [0])"
proof -
  have "CHR 0x00 \<notin> set s" using assms by fastforce
  then show ?thesis using assms by (simp add: utf16PtrFromString_def encodeWTF16_ascii comp_def)
qed

text \<open>Units of the basic plane: each is one rune of the converted string.\<close>

definition basicUnit :: "u16 \<Rightarrow> bool" where
  "basicUnit u \<longleftrightarrow> u \<noteq> 0 \<and> \<not> surrogate (unat u)"

lemma unat_u16_less: "unat (u :: u16) < 0x10000"
  using unsigned_less [where ?'a = nat, of u] by simp

lemma basicUnit_valid: "basicUnit u \<Longrightarrow> validRune (unat u)"
  using unat_u16_less [of u] by (simp add: basicUnit_def validRune_def)

lemma decodeWTF16_basic:
  "list_all basicUnit us \<Longrightarrow> decodeWTF16 (map unat us) = concat (map encodeRune (map unat us))"
  by (induction us) (auto simp: basicUnit_def)

lemma takeWhile_nonzero: "list_all (\<lambda>u. u \<noteq> 0) us \<Longrightarrow> takeWhile (\<lambda>u. u \<noteq> 0) us = us"
  by (simp add: takeWhile_eq_all_conv list_all_iff)

lemma basicUnits_nonzero: "list_all basicUnit us \<Longrightarrow> list_all (\<lambda>u. u \<noteq> 0) us"
  by (auto simp: list_all_iff basicUnit_def)

lemma utf16ToString_basic:
  "list_all basicUnit us \<Longrightarrow> utf16ToString us = concat (map encodeRune (map unat us))"
  unfolding utf16ToString_def
  by (simp only: takeWhile_nonzero [OF basicUnits_nonzero] decodeWTF16_basic)

lemma takeWhile_nonzero_append:
  "list_all (\<lambda>u. u \<noteq> 0) us \<Longrightarrow> takeWhile (\<lambda>u. u \<noteq> 0) (us @ 0 # rest) = us"
  by (induction us) auto

lemma utf16ToString_cut:
  "list_all (\<lambda>u. u \<noteq> 0) us \<Longrightarrow> utf16ToString (us @ 0 # rest) = utf16ToString us"
  unfolding utf16ToString_def by (simp only: takeWhile_nonzero_append takeWhile_nonzero)

text \<open>The number of runes of a converted string is the number of its units.\<close>

lemma runes_utf16ToString:
  assumes "list_all basicUnit us"
  shows "runes (utf16ToString us) = map unat us"
  unfolding utf16ToString_basic [OF assms]
  by (rule runes_encode) (use assms in \<open>auto simp: list_all_iff basicUnit_valid\<close>)

subsection \<open>A valid string survives the way to Windows and back\<close>

lemma byte_nonzero:
  fixes n :: nat
  assumes "0 < n" and "n < 256"
  shows "CHR 0x00 \<noteq> byte n"
proof
  assume "CHR 0x00 = byte n"
  then have "of_char (CHR 0x00) = (of_char (byte n) :: nat)" by (rule arg_cong)
  with assms show False by simp
qed

lemma encodeRune_nonzero:
  assumes "validRune r" and "r \<noteq> 0"
  shows "CHR 0x00 \<notin> set (encodeRune r)"
proof -
  have low: "0x80 + n mod 64 < 256" for n :: nat
    using mod_less_divisor [of 64 n] by linarith
  have two: "0xC0 + r div 64 < 256" if "r < 0x800" using that by simp
  have three: "0xE0 + r div 4096 < 256" if "r < 0x10000" using that by simp
  have four: "0xF0 + r div 262144 < 256" using assms(1) by (auto simp: validRune_def)
  show ?thesis
    using assms two three four low
    by (simp add: encodeRune_def Let_def validRune_def byte_nonzero)
qed

lemma isRawSurrogate_malformed: "isRawSurrogate s \<Longrightarrow> decodeRune s = (runeError, 1)"
  by (auto simp: isRawSurrogate_def decodeRune_def secondOk_def split: list.splits)

lemma encodeRune_not_raw:
  assumes "validRune r"
  shows "\<not> isRawSurrogate (encodeRune r @ s)"
proof
  assume "isRawSurrogate (encodeRune r @ s)"
  then have "r = runeError" "length (encodeRune r) = 1"
    using isRawSurrogate_malformed decodeRune_encodeRune [OF assms, of s] by auto
  then show False by (simp add: encodeRune_def runeError_def surrogate_def)
qed

lemma encodeWTF16_encodeRune:
  assumes "validRune r"
  shows "encodeWTF16 (encodeRune r @ s) = encodeUnits r @ encodeWTF16 s"
proof -
  obtain c cs where e: "encodeRune r = c # cs"
    using encodeRune_nonempty by (meson neq_Nil_conv)
  then have "decodeRune (c # cs @ s) = (r, Suc (length cs))"
    using decodeRune_encodeRune [OF assms, of s] by simp
  with e encodeRune_not_raw [OF assms, of s] show ?thesis by simp
qed

lemma encodeWTF16_encode:
  "(\<And>r. r \<in> set rs \<Longrightarrow> validRune r) \<Longrightarrow>
   encodeWTF16 (concat (map encodeRune rs)) = concat (map encodeUnits rs)"
  by (induction rs) (auto simp: encodeWTF16_encodeRune)

lemma decodeWTF16_encodeUnits:
  assumes "validRune r"
  shows "decodeWTF16 (encodeUnits r @ us) = encodeRune r @ decodeWTF16 us"
proof (cases "r < 0x10000")
  case True
  with assms show ?thesis by (simp add: encodeUnits_def validRune_def)
next
  case False
  define a b where "a = (r - 0x10000) div 0x400" and "b = (r - 0x10000) mod 0x400"
  have b: "b < 0x400" and r: "r - 0x10000 = a * 0x400 + b"
    by (simp_all add: a_def b_def)
  have "r - 0x10000 < 0x400 * 0x400" using assms by (auto simp: validRune_def)
  then have a: "a < 0x400" unfolding a_def by (simp add: less_mult_imp_div_less)
  have "decodePair (0xD800 + a) (0xDC00 + b) = r"
    using r False by (simp add: decodePair_def)
  with False a b show ?thesis
    by (simp add: encodeUnits_def surrogate_def flip: a_def b_def)
qed

lemma decodeWTF16_encode:
  "(\<And>r. r \<in> set rs \<Longrightarrow> validRune r) \<Longrightarrow>
   decodeWTF16 (concat (map encodeUnits rs)) = concat (map encodeRune rs)"
  by (induction rs) (auto simp: decodeWTF16_encodeUnits)

lemma encodeUnits_range:
  "validRune r \<Longrightarrow> r \<noteq> 0 \<Longrightarrow> u \<in> set (encodeUnits r) \<Longrightarrow> 0 < u \<and> u < 0x10000"
  by (auto simp: encodeUnits_def validRune_def split: if_splits)

lemma utf16_roundtrip:
  assumes "\<And>r. r \<in> set rs \<Longrightarrow> validRune r \<and> r \<noteq> 0" and "s = concat (map encodeRune rs)"
  shows "\<exists>us. utf16PtrFromString s = Some (us @ [0]) \<and> list_all (\<lambda>u. u \<noteq> 0) us
    \<and> utf16ToString us = s"
proof -
  define ns where "ns = concat (map encodeUnits rs)"
  define us :: "u16 list" where "us = map of_nat ns"
  have ns: "0 < n \<and> n < 0x10000" if "n \<in> set ns" for n
    using that assms(1) encodeUnits_range by (auto simp: ns_def)
  have unat_us: "map unat us = ns"
    unfolding us_def using ns by (auto simp: o_def unsigned_of_nat take_bit_nat_eq_self intro!: map_idI)
  have nz: "list_all (\<lambda>u. u \<noteq> 0) us"
    using ns unat_us by (auto simp: list_all_iff) (metis (no_types, lifting) image_eqI less_irrefl list.set_map unat_0)
  have "CHR 0x00 \<notin> set s"
    using assms encodeRune_nonzero by auto
  moreover have "encodeWTF16 s = ns"
    using assms encodeWTF16_encode by (auto simp: ns_def)
  moreover have "utf16ToString us = s"
    using decodeWTF16_encode [of rs] assms
    unfolding utf16ToString_def takeWhile_nonzero [OF nz] unat_us by (simp add: ns_def)
  ultimately show ?thesis using nz by (auto simp: utf16PtrFromString_def us_def)
qed

section \<open>Wide strings in memory\<close>

text \<open>
  The array of \<open>n\<close> units at address \<open>p\<close>, up to its first zero unit: what
  \<open>syscall.UTF16ToString\<close> keeps of the slice it is given.
\<close>

fun readUnits :: "memory \<Rightarrow> addr \<Rightarrow> nat \<Rightarrow> u16 list" where
  "readUnits m p n =
     (if n = 0 then [] else if le16 m p = 0 then [] else le16 m p # readUnits m (p + 2) (n - 1))"

declare readUnits.simps [simp del]

definition utf16PtrToString :: "memory \<Rightarrow> addr \<Rightarrow> string" where
  "utf16PtrToString m s = (if s = 0 then '''' else utf16ToString (readUnits m s (2 ^ 29)))"

text \<open>
  The loop of \<open>utf16ToStringArray\<close> over a slice of \<open>len\<close> units at \<open>buf\<close>: \<open>line\<close> is the
  string that starts at unit \<open>start\<close>. The next one is expected \<open>len([]rune(line)) + 1\<close>
  units further; slicing beyond the buffer, or at its very end, panics.
\<close>

function stringLines :: "memory \<Rightarrow> addr \<Rightarrow> nat \<Rightarrow> nat \<Rightarrow> string \<Rightarrow> string list result" where
  "stringLines m buf len start line =
     (if line = '''' then Ok []
      else let nextLineStart = start + length (runes line) + 1 in
        if nextLineStart > len then Panic ''slice bounds out of range''
        else if nextLineStart = len then Panic ''index out of range''
        else bindR (stringLines m buf len nextLineStart
                      (utf16PtrToString m (buf + 2 * of_nat nextLineStart)))
               (\<lambda>rest. Ok (line # rest)))"
  by pat_completeness auto
termination
  by (relation "measure (\<lambda>(m, buf, len, start, line). len - start)") auto

declare stringLines.simps [simp del]

definition utf16ToStringArray :: "memory \<Rightarrow> addr \<Rightarrow> nat \<Rightarrow> string list result" where
  "utf16ToStringArray m buf len =
     (if len = 0 then Panic ''index out of range''
      else stringLines m buf len 0 (utf16PtrToString m buf))"

subsection \<open>Reading back what was written\<close>

fun unitsAt :: "memory \<Rightarrow> addr \<Rightarrow> u16 list \<Rightarrow> bool" where
  "unitsAt m p [] = True"
| "unitsAt m p (u # us) = (le16 m p = u \<and> unitsAt m (p + 2) us)"

lemma unitsAt_append:
  "unitsAt m p (us @ vs) \<longleftrightarrow> unitsAt m p us \<and> unitsAt m (p + 2 * of_nat (length us)) vs"
  by (induction us arbitrary: p) (auto simp: algebra_simps)

lemma readUnits_unitsAt:
  "unitsAt m p (us @ [0]) \<Longrightarrow> list_all (\<lambda>u. u \<noteq> 0) us \<Longrightarrow> length us < n \<Longrightarrow> readUnits m p n = us"
  by (induction us arbitrary: p n) (auto simp: readUnits.simps [of _ _ n for n])

lemma utf16PtrToString_unitsAt:
  assumes "unitsAt m p (us @ [0])" and "list_all (\<lambda>u. u \<noteq> 0) us" and "length us < 2 ^ 29"
    and "p \<noteq> 0"
  shows "utf16PtrToString m p = utf16ToString us"
  using assms by (simp add: utf16PtrToString_def readUnits_unitsAt)

text \<open>A list of wide strings as Windows writes it: each ended by a zero unit, and one more.\<close>

definition multiString :: "u16 list list \<Rightarrow> u16 list" where
  "multiString uss = concat (map (\<lambda>us. us @ [0]) uss) @ [0]"

definition pathUnits :: "u16 list \<Rightarrow> bool" where
  "pathUnits us \<longleftrightarrow> us \<noteq> [] \<and> length us < 2 ^ 29 \<and> list_all basicUnit us"

lemma utf16ToString_pathUnits:
  assumes "pathUnits us"
  shows "utf16ToString us \<noteq> ''''" and "length (runes (utf16ToString us)) = length us"
  using assms runes_utf16ToString [of us] by (auto simp: pathUnits_def)

lemma buffer_addr_nonzero:
  assumes "buf \<noteq> (0 :: addr)" and "unat buf + 2 * len < 2 ^ 64" and "i \<le> len"
  shows "buf + 2 * of_nat i \<noteq> 0"
proof -
  have "unat (2 * of_nat i :: addr) = 2 * i"
    using assms by (simp add: unat_word_ariths unsigned_of_nat take_bit_nat_eq_self)
  then have "unat (buf + 2 * of_nat i) = unat buf + 2 * i"
    using assms by (simp add: unat_word_ariths)
  moreover have "unat buf \<noteq> 0" using assms(1) by (simp add: unat_eq_0)
  ultimately show ?thesis by (metis add_is_0 unat_0)
qed

lemma multiString_Cons: "multiString (us # uss) = (us @ [0]) @ multiString uss"
  by (simp add: multiString_def)

lemma stringLines_multiString:
  assumes "list_all pathUnits uss" and "unitsAt m (buf + 2 * of_nat start) (multiString uss)"
    and "start + length (multiString uss) \<le> len" and "buf \<noteq> 0" and "unat buf + 2 * len < 2 ^ 64"
  shows "stringLines m buf len start (utf16PtrToString m (buf + 2 * of_nat start)) =
         Ok (map utf16ToString uss)"
  using assms
proof (induction uss arbitrary: start)
  case Nil
  then show ?case
    by (auto simp: stringLines.simps utf16PtrToString_def readUnits.simps multiString_def utf16ToString_def)
next
  case (Cons us uss)
  let ?p = "buf + 2 * of_nat start" and ?next = "start + length us + 1"
  have us: "pathUnits us" and next_less: "?next < len"
    using Cons.prems(1,3) by (auto simp: multiString_Cons multiString_def)
  have here: "unitsAt m ?p (us @ [0])"
    and rest: "unitsAt m (buf + 2 * of_nat ?next) (multiString uss)"
    using Cons.prems(2) by (auto simp: multiString_Cons unitsAt_append algebra_simps)
  have "?p \<noteq> 0"
    using Cons.prems(3-5) by (intro buffer_addr_nonzero [of buf len]) auto
  then have line: "utf16PtrToString m ?p = utf16ToString us"
    using here us by (intro utf16PtrToString_unitsAt) (auto simp: pathUnits_def basicUnits_nonzero)
  have "stringLines m buf len ?next (utf16PtrToString m (buf + 2 * of_nat ?next)) =
      Ok (map utf16ToString uss)"
    using Cons.prems rest by (intro Cons.IH) (auto simp: multiString_Cons)
  with utf16ToString_pathUnits [OF us] next_less show ?case
    unfolding line by (subst stringLines.simps) (simp add: Let_def)
qed

section \<open>Properties\<close>

text \<open>
  C16. The list of paths Windows writes is read back string by string: when the buffer holds
  the given non-empty strings of basic-plane units, each ended by a zero unit and the list
  by one more, \<open>utf16ToStringArray\<close> returns exactly those strings, converted to UTF-8, in
  order, and does not leave the buffer.
\<close>

theorem utf16ToStringArray_multiString:
  assumes "list_all pathUnits uss" and "unitsAt m buf (multiString uss)"
    and "length (multiString uss) \<le> len" and "buf \<noteq> 0" and "unat buf + 2 * len < 2 ^ 64"
  shows "utf16ToStringArray m buf len = Ok (map utf16ToString uss)"
  using stringLines_multiString [of uss m buf 0 len] assms
  by (auto simp: utf16ToStringArray_def multiString_def)

theorem utf16ToStringArray_multiString_witness:
  "utf16ToStringArray (bytesAt 4096 [97, 0, 98, 0, 0, 0, 99, 0, 0, 0, 0, 0]) 4096 1024 =
     Ok [''ab'', ''c'']"
proof -
  let ?m = "bytesAt 4096 [97, 0, 98, 0, 0, 0, 99, 0, 0, 0, 0, 0]"
  have 1: "list_all pathUnits [[97, 98], [99]]"
    by (simp add: pathUnits_def basicUnit_def surrogate_def)
  have 2: "unitsAt ?m 4096 (multiString [[97, 98], [99]])"
    by (simp add: multiString_def bytesAt_def le16_def)
  have 3: "length (multiString [[97, 98], [99]]) \<le> 1024" by (simp add: multiString_def)
  have "utf16ToStringArray ?m 4096 1024 = Ok (map utf16ToString [[97, 98], [99]])"
    by (rule utf16ToStringArray_multiString [OF 1 2 3]) simp_all
  then show ?thesis
    by (simp add: utf16ToString_def surrogate_def encodeRune_def char_of_def bit_0)
qed

subsection \<open>Paths outside the basic plane\<close>

lemma decodeWTF16_append:
  "list_all basicUnit xs \<Longrightarrow>
   decodeWTF16 (map unat xs @ zs) = concat (map encodeRune (map unat xs)) @ decodeWTF16 zs"
  by (induction xs) (auto simp: basicUnit_def)

definition surrogatePair :: "u16 \<Rightarrow> u16 \<Rightarrow> bool" where
  "surrogatePair hi lo \<longleftrightarrow> 0xD800 \<le> unat hi \<and> unat hi < 0xDC00 \<and> 0xDC00 \<le> unat lo \<and> unat lo < 0xE000"

lemma decodePair_valid:
  assumes "surrogatePair hi lo"
  shows "validRune (decodePair (unat hi) (unat lo))"
proof -
  have "(unat hi - 0xD800) \<le> 0x3FF" "unat lo - 0xDC00 \<le> 0x3FF"
    using assms by (auto simp: surrogatePair_def)
  then show ?thesis by (auto simp: validRune_def decodePair_def surrogate_def)
qed

lemma runes_one_pair:
  assumes "list_all basicUnit xs" and "list_all basicUnit ys" and "surrogatePair hi lo"
  shows "runes (utf16ToString (xs @ [hi, lo] @ ys)) =
         map unat xs @ [decodePair (unat hi) (unat lo)] @ map unat ys"
proof -
  let ?us = "xs @ [hi, lo] @ ys" and ?r = "decodePair (unat hi) (unat lo)"
  have nz: "list_all (\<lambda>u. u \<noteq> 0) ?us"
    using assms basicUnits_nonzero by (auto simp: surrogatePair_def)
  have "surrogate (unat hi)"
    using assms(3) by (auto simp: surrogate_def surrogatePair_def)
  then have "decodeWTF16 (map unat ([hi, lo] @ ys)) = encodeRune ?r @ decodeWTF16 (map unat ys)"
    using assms(3) by (simp add: surrogatePair_def)
  moreover have "decodeWTF16 (map unat xs @ map unat ([hi, lo] @ ys)) =
      concat (map encodeRune (map unat xs)) @ decodeWTF16 (map unat ([hi, lo] @ ys))"
    by (rule decodeWTF16_append [OF assms(1)])
  ultimately have "utf16ToString ?us =
      concat (map encodeRune (map unat xs @ [?r] @ map unat ys))"
    unfolding utf16ToString_def takeWhile_nonzero [OF nz] map_append [of unat xs]
    by (simp only: decodeWTF16_basic [OF assms(2)] map_append concat_append) simp
  then show ?thesis
    using assms decodePair_valid
    by (simp only:) (rule runes_encode, auto simp: list_all_iff basicUnit_valid)
qed

text \<open>
  C36. A path with a character outside the basic plane hides the paths after it: such a
  character is two units but one rune, so when the first string of the list has one, the
  walk lands on that string's own zero unit and takes it for the end of the list. Whatever
  strings follow, only the first is returned.
\<close>

theorem utf16ToStringArray_cut_at_pair:
  assumes "list_all basicUnit xs" and "list_all basicUnit ys" and "surrogatePair hi lo"
    and "unitsAt m buf (xs @ [hi, lo] @ ys @ [0])" and "length xs + length ys + 3 \<le> len"
    and "len < 2 ^ 29" and "buf \<noteq> 0" and "unat buf + 2 * len < 2 ^ 64"
  shows "utf16ToStringArray m buf len = Ok [utf16ToString (xs @ [hi, lo] @ ys)]"
proof -
  let ?us = "xs @ [hi, lo] @ ys" and ?n = "length xs + length ys + 2"
  have nz: "list_all (\<lambda>u. u \<noteq> 0) ?us"
    using assms(1-3) basicUnits_nonzero by (auto simp: surrogatePair_def)
  have line: "utf16PtrToString m buf = utf16ToString ?us"
    using assms(4-7) nz by (intro utf16PtrToString_unitsAt) auto
  have n: "length (runes (utf16ToString ?us)) + 1 = ?n"
    unfolding runes_one_pair [OF assms(1-3)] by simp
  then have ne: "utf16ToString ?us \<noteq> ''''" by auto
  have "unitsAt m (buf + 2 * of_nat (length ?us)) [0]"
    using assms(4) unitsAt_append [of m buf ?us "[0]"] by simp
  then have "utf16PtrToString m (buf + 2 * of_nat ?n) = ''''"
    by (simp add: utf16PtrToString_def readUnits.simps utf16ToString_def add.commute add.left_commute)
  with n ne assms(5,6) show ?thesis
    unfolding utf16ToStringArray_def line
    by (subst stringLines.simps) (simp add: Let_def stringLines.simps [where line = "''''"] del: append_Cons append.simps)
qed

theorem utf16ToStringArray_cut_at_pair_witness:
  "utf16ToStringArray
     (bytesAt 4096 [0x3D, 0xD8, 0x00, 0xDE, 97, 0, 0, 0, 98, 0, 0, 0, 0, 0]) 4096 1024 =
   Ok [map byte [0xF0, 0x9F, 0x98, 0x80, 0x61 :: nat]]"
proof -
  let ?m = "bytesAt 4096 [0x3D, 0xD8, 0x00, 0xDE, 97, 0, 0, 0, 98, 0, 0, 0, 0, 0]"
  have "utf16ToStringArray ?m 4096 1024 = Ok [utf16ToString ([] @ [0xD83D, 0xDE00] @ [97])]"
    by (rule utf16ToStringArray_cut_at_pair)
       (simp_all add: basicUnit_def surrogate_def surrogatePair_def bytesAt_def le16_def)
  then show ?thesis
    by (simp add: utf16ToString_def surrogate_def encodeRune_def decodePair_def)
qed

text \<open>
  A Go string of valid runes without a zero byte survives the way to Windows and back:
  \<open>syscall.UTF16PtrFromString\<close>, which the calls that take a path use, and then reading the
  result from memory with \<open>utf16PtrToString\<close> give the string back.
\<close>

theorem utf16PtrToString_roundtrip:
  assumes "\<And>r. r \<in> set rs \<Longrightarrow> validRune r \<and> r \<noteq> 0" and "s = concat (map encodeRune rs)"
    and "utf16PtrFromString s = Some us" and "unitsAt m p us" and "length us \<le> 2 ^ 29" and "p \<noteq> 0"
  shows "utf16PtrToString m p = s"
proof -
  obtain vs where vs: "us = vs @ [0]" "list_all (\<lambda>u. u \<noteq> 0) vs" "utf16ToString vs = s"
    using utf16_roundtrip [OF assms(1,2)] assms(3) by auto
  with assms(4-6) show ?thesis
    using utf16PtrToString_unitsAt [of m p vs] by simp
qed

theorem utf16PtrToString_roundtrip_witness:
  "utf16PtrToString (bytesAt 4096 [97, 0, 98, 0, 0, 0]) 4096 = ''ab''"
proof (rule utf16PtrToString_roundtrip [where rs = "[97, 98]" and us = "[97, 98, 0]"])
  show "utf16PtrFromString ''ab'' = Some [97, 98, 0]"
    by (simp add: utf16PtrFromString_def isRawSurrogate_def decodeRune_def encodeUnits_def)
qed (auto simp: validRune_def surrogate_def encodeRune_def char_of_def bit_0 bytesAt_def le16_def)

end
