(* ===== verification/Layout.thy ===== *)
theory Layout
  imports Prelude
begin

text \<open>
  The C structures that the Performance Data Helper fills are declared as Go structures,
  once per architecture (\<open>pdh_386.go\<close>, \<open>pdh_amd64.go\<close>, \<open>pdh_arm64.go\<close>), and reached
  through unsafe pointers. This theory holds Go's layout rules, those declarations, and the
  offsets that follow, compared with the offsets Windows uses for the structures of the same
  name in its documentation.
\<close>

section \<open>Layout\<close>

datatype arch = AMD64 | ARM64 | I386

datatype go_type =
    Uint32 | Int32 | Int64 | Float64 | Pointer
  | Bytes nat \<comment> \<open>\<open>[n]byte\<close>\<close>
  | Words nat \<comment> \<open>\<open>[n]uint32\<close>\<close>
  | Struct "(string \<times> go_type) list"
  | Union "go_type list" \<comment> \<open>only in the C declarations\<close>

text \<open>
  What the rules depend on: the size of a pointer, and the alignment of eight-byte scalars.
  Go aligns them to four bytes on 386; the Windows compilers align them to eight on every
  architecture.
\<close>

record abi =
  pointerSize :: nat
  align8 :: nat

fun goABI :: "arch \<Rightarrow> abi" where
  "goABI I386 = \<lparr>pointerSize = 4, align8 = 4\<rparr>"
| "goABI _ = \<lparr>pointerSize = 8, align8 = 8\<rparr>"

fun windowsABI :: "arch \<Rightarrow> abi" where
  "windowsABI I386 = \<lparr>pointerSize = 4, align8 = 8\<rparr>"
| "windowsABI _ = \<lparr>pointerSize = 8, align8 = 8\<rparr>"

definition roundUp :: "nat \<Rightarrow> nat \<Rightarrow> nat" where
  "roundUp n k = (n + k - 1) div k * k"

fun alignOf :: "abi \<Rightarrow> go_type \<Rightarrow> nat"
  and alignFields :: "abi \<Rightarrow> (string \<times> go_type) list \<Rightarrow> nat"
  and alignMembers :: "abi \<Rightarrow> go_type list \<Rightarrow> nat" where
  "alignOf a Uint32 = 4"
| "alignOf a Int32 = 4"
| "alignOf a Int64 = align8 a"
| "alignOf a Float64 = align8 a"
| "alignOf a Pointer = pointerSize a"
| "alignOf a (Bytes n) = 1"
| "alignOf a (Words n) = 4"
| "alignOf a (Struct fs) = alignFields a fs"
| "alignOf a (Union ts) = alignMembers a ts"
| "alignFields a [] = 1"
| "alignFields a ((f, t) # fs) = max (alignOf a t) (alignFields a fs)"
| "alignMembers a [] = 1"
| "alignMembers a (t # ts) = max (alignOf a t) (alignMembers a ts)"

fun sizeOf :: "abi \<Rightarrow> go_type \<Rightarrow> nat"
  and endOffset :: "abi \<Rightarrow> nat \<Rightarrow> (string \<times> go_type) list \<Rightarrow> nat"
  and maxSize :: "abi \<Rightarrow> go_type list \<Rightarrow> nat" where
  "sizeOf a Uint32 = 4"
| "sizeOf a Int32 = 4"
| "sizeOf a Int64 = 8"
| "sizeOf a Float64 = 8"
| "sizeOf a Pointer = pointerSize a"
| "sizeOf a (Bytes n) = n"
| "sizeOf a (Words n) = 4 * n"
| "sizeOf a (Struct fs) = roundUp (endOffset a 0 fs) (alignFields a fs)"
| "sizeOf a (Union ts) = roundUp (maxSize a ts) (alignMembers a ts)"
| "endOffset a off [] = off"
| "endOffset a off ((f, t) # fs) = endOffset a (roundUp off (alignOf a t) + sizeOf a t) fs"
| "maxSize a [] = 0"
| "maxSize a (t # ts) = max (sizeOf a t) (maxSize a ts)"

text \<open>The offset of a field, and of a field of a field.\<close>

fun fieldAt :: "abi \<Rightarrow> nat \<Rightarrow> (string \<times> go_type) list \<Rightarrow> string \<Rightarrow> nat" where
  "fieldAt a off [] name = off"
| "fieldAt a off ((f, t) # fs) name =
     (let here = roundUp off (alignOf a t)
      in if f = name then here else fieldAt a (here + sizeOf a t) fs name)"

fun offsetOf :: "abi \<Rightarrow> go_type \<Rightarrow> string \<Rightarrow> nat" where
  "offsetOf a (Struct fs) name = fieldAt a 0 fs name"
| "offsetOf a _ name = 0"

section \<open>The Go declarations\<close>

text \<open>\<open>fileTime\<close> of \<open>kernel32.go\<close>, as the raw counters embed it.\<close>

definition fileTime :: go_type where
  "fileTime = Struct [(''dwLowDateTime'', Uint32), (''dwHighDateTime'', Uint32)]"

subsection \<open>\<open>pdh_amd64.go\<close>\<close>

definition pdhFmtCounterValueLong_amd64 :: go_type where
  "pdhFmtCounterValueLong_amd64 = Struct
    [(''CStatus'', Uint32), (''LongValue'', Int32)]"

definition pdhFmtCounterValueItemLong_amd64 :: go_type where
  "pdhFmtCounterValueItemLong_amd64 = Struct
    [(''SzName'', Pointer), (''FmtValue'', pdhFmtCounterValueLong_amd64)]"

definition pdhFmtCounterValueLarge_amd64 :: go_type where
  "pdhFmtCounterValueLarge_amd64 = Struct
    [(''CStatus'', Uint32), (''LargeValue'', Int64)]"

definition pdhFmtCounterValueItemLarge_amd64 :: go_type where
  "pdhFmtCounterValueItemLarge_amd64 = Struct
    [(''SzName'', Pointer), (''FmtValue'', pdhFmtCounterValueLarge_amd64)]"

definition pdhFmtCounterValueDouble_amd64 :: go_type where
  "pdhFmtCounterValueDouble_amd64 = Struct
    [(''CStatus'', Uint32), (''DoubleValue'', Float64)]"

definition pdhFmtCounterValueItemDouble_amd64 :: go_type where
  "pdhFmtCounterValueItemDouble_amd64 = Struct
    [(''SzName'', Pointer), (''FmtValue'', pdhFmtCounterValueDouble_amd64)]"

definition pdhCounterInfo_amd64 :: go_type where
  "pdhCounterInfo_amd64 = Struct
    [(''DwLength'', Uint32), (''DwType'', Uint32), (''CVersion'', Uint32),
     (''CStatus'', Uint32), (''LScale'', Int32), (''LDefaultScale'', Int32),
     (''DwUserData'', Pointer), (''DwQueryUserData'', Pointer), (''SzFullPath'', Pointer),
     (''SzMachineName'', Pointer), (''SzObjectName'', Pointer), (''SzInstanceName'', Pointer),
     (''SzParentInstance'', Pointer), (''DwInstanceIndex'', Uint32),
     (''SzCounterName'', Pointer), (''SzExplainText'', Pointer), (''DataBuffer'', Words 1)]"

definition pdhRawCounter_amd64 :: go_type where
  "pdhRawCounter_amd64 = Struct
    [(''CStatus'', Uint32), (''TimeStamp'', fileTime), (''FirstValue'', Int64),
     (''SecondValue'', Int64), (''MultiCount'', Uint32)]"

definition pdhRawCounterItem_amd64 :: go_type where
  "pdhRawCounterItem_amd64 = Struct
    [(''SzName'', Pointer), (''RawValue'', pdhRawCounter_amd64)]"

subsection \<open>\<open>pdh_arm64.go\<close>\<close>

definition pdhFmtCounterValueLong_arm64 :: go_type where
  "pdhFmtCounterValueLong_arm64 = Struct
    [(''CStatus'', Uint32), (''LongValue'', Int32)]"

definition pdhFmtCounterValueItemLong_arm64 :: go_type where
  "pdhFmtCounterValueItemLong_arm64 = Struct
    [(''SzName'', Pointer), (''FmtValue'', pdhFmtCounterValueLong_arm64)]"

definition pdhFmtCounterValueLarge_arm64 :: go_type where
  "pdhFmtCounterValueLarge_arm64 = Struct
    [(''CStatus'', Uint32), (''LargeValue'', Int64)]"

definition pdhFmtCounterValueItemLarge_arm64 :: go_type where
  "pdhFmtCounterValueItemLarge_arm64 = Struct
    [(''SzName'', Pointer), (''FmtValue'', pdhFmtCounterValueLarge_arm64)]"

definition pdhFmtCounterValueDouble_arm64 :: go_type where
  "pdhFmtCounterValueDouble_arm64 = Struct
    [(''CStatus'', Uint32), (''DoubleValue'', Float64)]"

definition pdhFmtCounterValueItemDouble_arm64 :: go_type where
  "pdhFmtCounterValueItemDouble_arm64 = Struct
    [(''SzName'', Pointer), (''FmtValue'', pdhFmtCounterValueDouble_arm64)]"

definition pdhCounterInfo_arm64 :: go_type where
  "pdhCounterInfo_arm64 = Struct
    [(''DwLength'', Uint32), (''DwType'', Uint32), (''CVersion'', Uint32),
     (''CStatus'', Uint32), (''LScale'', Int32), (''LDefaultScale'', Int32),
     (''DwUserData'', Pointer), (''DwQueryUserData'', Pointer), (''SzFullPath'', Pointer),
     (''SzMachineName'', Pointer), (''SzObjectName'', Pointer), (''SzInstanceName'', Pointer),
     (''SzParentInstance'', Pointer), (''DwInstanceIndex'', Uint32),
     (''SzCounterName'', Pointer), (''SzExplainText'', Pointer), (''DataBuffer'', Words 1)]"

definition pdhRawCounter_arm64 :: go_type where
  "pdhRawCounter_arm64 = Struct
    [(''CStatus'', Uint32), (''TimeStamp'', fileTime), (''FirstValue'', Int64),
     (''SecondValue'', Int64), (''MultiCount'', Uint32)]"

definition pdhRawCounterItem_arm64 :: go_type where
  "pdhRawCounterItem_arm64 = Struct
    [(''SzName'', Pointer), (''RawValue'', pdhRawCounter_arm64)]"

subsection \<open>\<open>pdh_386.go\<close>\<close>

definition pdhFmtCounterValueLong_386 :: go_type where
  "pdhFmtCounterValueLong_386 = Struct
    [(''CStatus'', Uint32), (''LongValue'', Int32), (''padding'', Bytes 4)]"

definition pdhFmtCounterValueItemLong_386 :: go_type where
  "pdhFmtCounterValueItemLong_386 = Struct
    [(''SzName'', Pointer), (''FmtValue'', pdhFmtCounterValueLong_386)]"

definition pdhFmtCounterValueLarge_386 :: go_type where
  "pdhFmtCounterValueLarge_386 = Struct
    [(''CStatus'', Uint32), (''LargeValue'', Int64), (''padding'', Bytes 4)]"

definition pdhFmtCounterValueItemLarge_386 :: go_type where
  "pdhFmtCounterValueItemLarge_386 = Struct
    [(''SzName'', Pointer), (''FmtValue'', pdhFmtCounterValueLarge_386)]"

definition pdhFmtCounterValueDouble_386 :: go_type where
  "pdhFmtCounterValueDouble_386 = Struct
    [(''CStatus'', Uint32), (''padding'', Bytes 4), (''DoubleValue'', Float64)]"

definition pdhFmtCounterValueItemDouble_386 :: go_type where
  "pdhFmtCounterValueItemDouble_386 = Struct
    [(''SzName'', Pointer), (''padding'', Bytes 4),
     (''FmtValue'', pdhFmtCounterValueDouble_386)]"

definition pdhCounterInfo_386 :: go_type where
  "pdhCounterInfo_386 = Struct
    [(''DwLength'', Uint32), (''DwType'', Uint32), (''CVersion'', Uint32),
     (''CStatus'', Uint32), (''LScale'', Int32), (''LDefaultScale'', Int32),
     (''DwUserData'', Pointer), (''DwQueryUserData'', Pointer), (''SzFullPath'', Pointer),
     (''SzMachineName'', Pointer), (''SzObjectName'', Pointer), (''SzInstanceName'', Pointer),
     (''SzParentInstance'', Pointer), (''DwInstanceIndex'', Uint32),
     (''SzCounterName'', Pointer), (''Padding'', Bytes 4), (''SzExplainText'', Pointer),
     (''DataBuffer'', Words 1)]"

definition pdhRawCounter_386 :: go_type where
  "pdhRawCounter_386 = Struct
    [(''CStatus'', Uint32), (''TimeStamp'', fileTime), (''FirstValue'', Int64),
     (''SecondValue'', Int64), (''MultiCount'', Uint32)]"

definition pdhRawCounterItem_386 :: go_type where
  "pdhRawCounterItem_386 = Struct
    [(''SzName'', Pointer), (''RawValue'', pdhRawCounter_386)]"

section \<open>The structure a build uses\<close>

fun pdhFmtCounterValueLong :: "arch \<Rightarrow> go_type" where
  "pdhFmtCounterValueLong AMD64 = pdhFmtCounterValueLong_amd64"
| "pdhFmtCounterValueLong ARM64 = pdhFmtCounterValueLong_arm64"
| "pdhFmtCounterValueLong I386 = pdhFmtCounterValueLong_386"

fun pdhFmtCounterValueItemLong :: "arch \<Rightarrow> go_type" where
  "pdhFmtCounterValueItemLong AMD64 = pdhFmtCounterValueItemLong_amd64"
| "pdhFmtCounterValueItemLong ARM64 = pdhFmtCounterValueItemLong_arm64"
| "pdhFmtCounterValueItemLong I386 = pdhFmtCounterValueItemLong_386"

fun pdhFmtCounterValueLarge :: "arch \<Rightarrow> go_type" where
  "pdhFmtCounterValueLarge AMD64 = pdhFmtCounterValueLarge_amd64"
| "pdhFmtCounterValueLarge ARM64 = pdhFmtCounterValueLarge_arm64"
| "pdhFmtCounterValueLarge I386 = pdhFmtCounterValueLarge_386"

fun pdhFmtCounterValueItemLarge :: "arch \<Rightarrow> go_type" where
  "pdhFmtCounterValueItemLarge AMD64 = pdhFmtCounterValueItemLarge_amd64"
| "pdhFmtCounterValueItemLarge ARM64 = pdhFmtCounterValueItemLarge_arm64"
| "pdhFmtCounterValueItemLarge I386 = pdhFmtCounterValueItemLarge_386"

fun pdhFmtCounterValueDouble :: "arch \<Rightarrow> go_type" where
  "pdhFmtCounterValueDouble AMD64 = pdhFmtCounterValueDouble_amd64"
| "pdhFmtCounterValueDouble ARM64 = pdhFmtCounterValueDouble_arm64"
| "pdhFmtCounterValueDouble I386 = pdhFmtCounterValueDouble_386"

fun pdhFmtCounterValueItemDouble :: "arch \<Rightarrow> go_type" where
  "pdhFmtCounterValueItemDouble AMD64 = pdhFmtCounterValueItemDouble_amd64"
| "pdhFmtCounterValueItemDouble ARM64 = pdhFmtCounterValueItemDouble_arm64"
| "pdhFmtCounterValueItemDouble I386 = pdhFmtCounterValueItemDouble_386"

fun pdhCounterInfo :: "arch \<Rightarrow> go_type" where
  "pdhCounterInfo AMD64 = pdhCounterInfo_amd64"
| "pdhCounterInfo ARM64 = pdhCounterInfo_arm64"
| "pdhCounterInfo I386 = pdhCounterInfo_386"

fun pdhRawCounter :: "arch \<Rightarrow> go_type" where
  "pdhRawCounter AMD64 = pdhRawCounter_amd64"
| "pdhRawCounter ARM64 = pdhRawCounter_arm64"
| "pdhRawCounter I386 = pdhRawCounter_386"

fun pdhRawCounterItem :: "arch \<Rightarrow> go_type" where
  "pdhRawCounterItem AMD64 = pdhRawCounterItem_amd64"
| "pdhRawCounterItem ARM64 = pdhRawCounterItem_arm64"
| "pdhRawCounterItem I386 = pdhRawCounterItem_386"

section \<open>The documented declarations\<close>

text \<open>
  \<open>PDH_FMT_COUNTERVALUE\<close>, \<open>PDH_FMT_COUNTERVALUE_ITEM_W\<close>, \<open>PDH_RAW_COUNTER\<close>,
  \<open>PDH_RAW_COUNTER_ITEM_W\<close> and the head of \<open>PDH_COUNTER_INFO_W\<close> as Windows documents
  them, under the field names the Go declarations use. The value of a formatted counter is
  a union.
\<close>

definition documentedFmtValue :: go_type where
  "documentedFmtValue = Struct
    [(''CStatus'', Uint32), (''Value'', Union [Int32, Float64, Int64, Pointer, Pointer])]"

definition documentedFmtItem :: go_type where
  "documentedFmtItem = Struct [(''SzName'', Pointer), (''FmtValue'', documentedFmtValue)]"

definition documentedRawCounter :: go_type where
  "documentedRawCounter = Struct
    [(''CStatus'', Uint32), (''TimeStamp'', fileTime), (''FirstValue'', Int64),
     (''SecondValue'', Int64), (''MultiCount'', Uint32)]"

definition documentedRawItem :: go_type where
  "documentedRawItem = Struct [(''SzName'', Pointer), (''RawValue'', documentedRawCounter)]"

definition documentedCounterInfo :: go_type where
  "documentedCounterInfo = Struct
    [(''DwLength'', Uint32), (''DwType'', Uint32), (''CVersion'', Uint32),
     (''CStatus'', Uint32), (''LScale'', Int32), (''LDefaultScale'', Int32),
     (''DwUserData'', Pointer), (''DwQueryUserData'', Pointer), (''SzFullPath'', Pointer)]"

section \<open>Offsets and sizes\<close>

named_theorems layout_simps \<open>the offsets and sizes of the structures\<close>

lemma layout_amd64_Long [layout_simps]:
  "sizeOf (goABI AMD64) (pdhFmtCounterValueLong AMD64) = 8"
  "offsetOf (goABI AMD64) (pdhFmtCounterValueLong AMD64) ''CStatus'' = 0"
  "offsetOf (goABI AMD64) (pdhFmtCounterValueLong AMD64) ''LongValue'' = 4"
  "sizeOf (goABI AMD64) (pdhFmtCounterValueItemLong AMD64) = 16"
  "offsetOf (goABI AMD64) (pdhFmtCounterValueItemLong AMD64) ''SzName'' = 0"
  "offsetOf (goABI AMD64) (pdhFmtCounterValueItemLong AMD64) ''FmtValue'' = 8"
  by (simp_all add: pdhFmtCounterValueLong_amd64_def pdhFmtCounterValueItemLong_amd64_def roundUp_def)

lemma layout_amd64_Large [layout_simps]:
  "sizeOf (goABI AMD64) (pdhFmtCounterValueLarge AMD64) = 16"
  "offsetOf (goABI AMD64) (pdhFmtCounterValueLarge AMD64) ''CStatus'' = 0"
  "offsetOf (goABI AMD64) (pdhFmtCounterValueLarge AMD64) ''LargeValue'' = 8"
  "sizeOf (goABI AMD64) (pdhFmtCounterValueItemLarge AMD64) = 24"
  "offsetOf (goABI AMD64) (pdhFmtCounterValueItemLarge AMD64) ''SzName'' = 0"
  "offsetOf (goABI AMD64) (pdhFmtCounterValueItemLarge AMD64) ''FmtValue'' = 8"
  by (simp_all add: pdhFmtCounterValueLarge_amd64_def pdhFmtCounterValueItemLarge_amd64_def roundUp_def)

lemma layout_amd64_Double [layout_simps]:
  "sizeOf (goABI AMD64) (pdhFmtCounterValueDouble AMD64) = 16"
  "offsetOf (goABI AMD64) (pdhFmtCounterValueDouble AMD64) ''CStatus'' = 0"
  "offsetOf (goABI AMD64) (pdhFmtCounterValueDouble AMD64) ''DoubleValue'' = 8"
  "sizeOf (goABI AMD64) (pdhFmtCounterValueItemDouble AMD64) = 24"
  "offsetOf (goABI AMD64) (pdhFmtCounterValueItemDouble AMD64) ''SzName'' = 0"
  "offsetOf (goABI AMD64) (pdhFmtCounterValueItemDouble AMD64) ''FmtValue'' = 8"
  by (simp_all add: pdhFmtCounterValueDouble_amd64_def pdhFmtCounterValueItemDouble_amd64_def roundUp_def)

lemma layout_amd64_raw [layout_simps]:
  "sizeOf (goABI AMD64) (pdhRawCounter AMD64) = 40"
  "offsetOf (goABI AMD64) (pdhRawCounter AMD64) ''CStatus'' = 0"
  "offsetOf (goABI AMD64) (pdhRawCounter AMD64) ''TimeStamp'' = 4"
  "offsetOf (goABI AMD64) (pdhRawCounter AMD64) ''FirstValue'' = 16"
  "offsetOf (goABI AMD64) (pdhRawCounter AMD64) ''SecondValue'' = 24"
  "offsetOf (goABI AMD64) (pdhRawCounter AMD64) ''MultiCount'' = 32"
  "sizeOf (goABI AMD64) (pdhRawCounterItem AMD64) = 48"
  "offsetOf (goABI AMD64) (pdhRawCounterItem AMD64) ''SzName'' = 0"
  "offsetOf (goABI AMD64) (pdhRawCounterItem AMD64) ''RawValue'' = 8"
  by (simp_all add: pdhRawCounter_amd64_def pdhRawCounterItem_amd64_def fileTime_def roundUp_def)

lemma layout_amd64_info [layout_simps]:
  "offsetOf (goABI AMD64) (pdhCounterInfo AMD64) ''SzFullPath'' = 40"
  by (simp_all add: pdhCounterInfo_amd64_def roundUp_def)

lemma layout_arm64_Long [layout_simps]:
  "sizeOf (goABI ARM64) (pdhFmtCounterValueLong ARM64) = 8"
  "offsetOf (goABI ARM64) (pdhFmtCounterValueLong ARM64) ''CStatus'' = 0"
  "offsetOf (goABI ARM64) (pdhFmtCounterValueLong ARM64) ''LongValue'' = 4"
  "sizeOf (goABI ARM64) (pdhFmtCounterValueItemLong ARM64) = 16"
  "offsetOf (goABI ARM64) (pdhFmtCounterValueItemLong ARM64) ''SzName'' = 0"
  "offsetOf (goABI ARM64) (pdhFmtCounterValueItemLong ARM64) ''FmtValue'' = 8"
  by (simp_all add: pdhFmtCounterValueLong_arm64_def pdhFmtCounterValueItemLong_arm64_def roundUp_def)

lemma layout_arm64_Large [layout_simps]:
  "sizeOf (goABI ARM64) (pdhFmtCounterValueLarge ARM64) = 16"
  "offsetOf (goABI ARM64) (pdhFmtCounterValueLarge ARM64) ''CStatus'' = 0"
  "offsetOf (goABI ARM64) (pdhFmtCounterValueLarge ARM64) ''LargeValue'' = 8"
  "sizeOf (goABI ARM64) (pdhFmtCounterValueItemLarge ARM64) = 24"
  "offsetOf (goABI ARM64) (pdhFmtCounterValueItemLarge ARM64) ''SzName'' = 0"
  "offsetOf (goABI ARM64) (pdhFmtCounterValueItemLarge ARM64) ''FmtValue'' = 8"
  by (simp_all add: pdhFmtCounterValueLarge_arm64_def pdhFmtCounterValueItemLarge_arm64_def roundUp_def)

lemma layout_arm64_Double [layout_simps]:
  "sizeOf (goABI ARM64) (pdhFmtCounterValueDouble ARM64) = 16"
  "offsetOf (goABI ARM64) (pdhFmtCounterValueDouble ARM64) ''CStatus'' = 0"
  "offsetOf (goABI ARM64) (pdhFmtCounterValueDouble ARM64) ''DoubleValue'' = 8"
  "sizeOf (goABI ARM64) (pdhFmtCounterValueItemDouble ARM64) = 24"
  "offsetOf (goABI ARM64) (pdhFmtCounterValueItemDouble ARM64) ''SzName'' = 0"
  "offsetOf (goABI ARM64) (pdhFmtCounterValueItemDouble ARM64) ''FmtValue'' = 8"
  by (simp_all add: pdhFmtCounterValueDouble_arm64_def pdhFmtCounterValueItemDouble_arm64_def roundUp_def)

lemma layout_arm64_raw [layout_simps]:
  "sizeOf (goABI ARM64) (pdhRawCounter ARM64) = 40"
  "offsetOf (goABI ARM64) (pdhRawCounter ARM64) ''CStatus'' = 0"
  "offsetOf (goABI ARM64) (pdhRawCounter ARM64) ''TimeStamp'' = 4"
  "offsetOf (goABI ARM64) (pdhRawCounter ARM64) ''FirstValue'' = 16"
  "offsetOf (goABI ARM64) (pdhRawCounter ARM64) ''SecondValue'' = 24"
  "offsetOf (goABI ARM64) (pdhRawCounter ARM64) ''MultiCount'' = 32"
  "sizeOf (goABI ARM64) (pdhRawCounterItem ARM64) = 48"
  "offsetOf (goABI ARM64) (pdhRawCounterItem ARM64) ''SzName'' = 0"
  "offsetOf (goABI ARM64) (pdhRawCounterItem ARM64) ''RawValue'' = 8"
  by (simp_all add: pdhRawCounter_arm64_def pdhRawCounterItem_arm64_def fileTime_def roundUp_def)

lemma layout_arm64_info [layout_simps]:
  "offsetOf (goABI ARM64) (pdhCounterInfo ARM64) ''SzFullPath'' = 40"
  by (simp_all add: pdhCounterInfo_arm64_def roundUp_def)

lemma layout_386_Long [layout_simps]:
  "sizeOf (goABI I386) (pdhFmtCounterValueLong I386) = 12"
  "offsetOf (goABI I386) (pdhFmtCounterValueLong I386) ''CStatus'' = 0"
  "offsetOf (goABI I386) (pdhFmtCounterValueLong I386) ''LongValue'' = 4"
  "sizeOf (goABI I386) (pdhFmtCounterValueItemLong I386) = 16"
  "offsetOf (goABI I386) (pdhFmtCounterValueItemLong I386) ''SzName'' = 0"
  "offsetOf (goABI I386) (pdhFmtCounterValueItemLong I386) ''FmtValue'' = 4"
  by (simp_all add: pdhFmtCounterValueLong_386_def pdhFmtCounterValueItemLong_386_def roundUp_def)

lemma layout_386_Large [layout_simps]:
  "sizeOf (goABI I386) (pdhFmtCounterValueLarge I386) = 16"
  "offsetOf (goABI I386) (pdhFmtCounterValueLarge I386) ''CStatus'' = 0"
  "offsetOf (goABI I386) (pdhFmtCounterValueLarge I386) ''LargeValue'' = 4"
  "sizeOf (goABI I386) (pdhFmtCounterValueItemLarge I386) = 20"
  "offsetOf (goABI I386) (pdhFmtCounterValueItemLarge I386) ''SzName'' = 0"
  "offsetOf (goABI I386) (pdhFmtCounterValueItemLarge I386) ''FmtValue'' = 4"
  by (simp_all add: pdhFmtCounterValueLarge_386_def pdhFmtCounterValueItemLarge_386_def roundUp_def)

lemma layout_386_Double [layout_simps]:
  "sizeOf (goABI I386) (pdhFmtCounterValueDouble I386) = 16"
  "offsetOf (goABI I386) (pdhFmtCounterValueDouble I386) ''CStatus'' = 0"
  "offsetOf (goABI I386) (pdhFmtCounterValueDouble I386) ''DoubleValue'' = 8"
  "sizeOf (goABI I386) (pdhFmtCounterValueItemDouble I386) = 24"
  "offsetOf (goABI I386) (pdhFmtCounterValueItemDouble I386) ''SzName'' = 0"
  "offsetOf (goABI I386) (pdhFmtCounterValueItemDouble I386) ''FmtValue'' = 8"
  by (simp_all add: pdhFmtCounterValueDouble_386_def pdhFmtCounterValueItemDouble_386_def roundUp_def)

lemma layout_386_raw [layout_simps]:
  "sizeOf (goABI I386) (pdhRawCounter I386) = 32"
  "offsetOf (goABI I386) (pdhRawCounter I386) ''CStatus'' = 0"
  "offsetOf (goABI I386) (pdhRawCounter I386) ''TimeStamp'' = 4"
  "offsetOf (goABI I386) (pdhRawCounter I386) ''FirstValue'' = 12"
  "offsetOf (goABI I386) (pdhRawCounter I386) ''SecondValue'' = 20"
  "offsetOf (goABI I386) (pdhRawCounter I386) ''MultiCount'' = 28"
  "sizeOf (goABI I386) (pdhRawCounterItem I386) = 36"
  "offsetOf (goABI I386) (pdhRawCounterItem I386) ''SzName'' = 0"
  "offsetOf (goABI I386) (pdhRawCounterItem I386) ''RawValue'' = 4"
  by (simp_all add: pdhRawCounter_386_def pdhRawCounterItem_386_def fileTime_def roundUp_def)

lemma layout_386_info [layout_simps]:
  "offsetOf (goABI I386) (pdhCounterInfo I386) ''SzFullPath'' = 32"
  by (simp_all add: pdhCounterInfo_386_def roundUp_def)

lemma documented_amd64_fmt [layout_simps]:
  "sizeOf (windowsABI AMD64) documentedFmtValue = 16"
  "offsetOf (windowsABI AMD64) documentedFmtValue ''CStatus'' = 0"
  "offsetOf (windowsABI AMD64) documentedFmtValue ''Value'' = 8"
  "sizeOf (windowsABI AMD64) documentedFmtItem = 24"
  "offsetOf (windowsABI AMD64) documentedFmtItem ''SzName'' = 0"
  "offsetOf (windowsABI AMD64) documentedFmtItem ''FmtValue'' = 8"
  by (simp_all add: documentedFmtItem_def documentedFmtValue_def roundUp_def)

lemma documented_amd64_raw [layout_simps]:
  "sizeOf (windowsABI AMD64) documentedRawCounter = 40"
  "offsetOf (windowsABI AMD64) documentedRawCounter ''CStatus'' = 0"
  "offsetOf (windowsABI AMD64) documentedRawCounter ''TimeStamp'' = 4"
  "offsetOf (windowsABI AMD64) documentedRawCounter ''FirstValue'' = 16"
  "offsetOf (windowsABI AMD64) documentedRawCounter ''SecondValue'' = 24"
  "offsetOf (windowsABI AMD64) documentedRawCounter ''MultiCount'' = 32"
  "sizeOf (windowsABI AMD64) documentedRawItem = 48"
  "offsetOf (windowsABI AMD64) documentedRawItem ''SzName'' = 0"
  "offsetOf (windowsABI AMD64) documentedRawItem ''RawValue'' = 8"
  by (simp_all add: documentedRawItem_def documentedRawCounter_def fileTime_def roundUp_def)

lemma documented_amd64_info [layout_simps]:
  "offsetOf (windowsABI AMD64) documentedCounterInfo ''SzFullPath'' = 40"
  by (simp_all add: documentedCounterInfo_def roundUp_def)

lemma documented_arm64_fmt [layout_simps]:
  "sizeOf (windowsABI ARM64) documentedFmtValue = 16"
  "offsetOf (windowsABI ARM64) documentedFmtValue ''CStatus'' = 0"
  "offsetOf (windowsABI ARM64) documentedFmtValue ''Value'' = 8"
  "sizeOf (windowsABI ARM64) documentedFmtItem = 24"
  "offsetOf (windowsABI ARM64) documentedFmtItem ''SzName'' = 0"
  "offsetOf (windowsABI ARM64) documentedFmtItem ''FmtValue'' = 8"
  by (simp_all add: documentedFmtItem_def documentedFmtValue_def roundUp_def)

lemma documented_arm64_raw [layout_simps]:
  "sizeOf (windowsABI ARM64) documentedRawCounter = 40"
  "offsetOf (windowsABI ARM64) documentedRawCounter ''CStatus'' = 0"
  "offsetOf (windowsABI ARM64) documentedRawCounter ''TimeStamp'' = 4"
  "offsetOf (windowsABI ARM64) documentedRawCounter ''FirstValue'' = 16"
  "offsetOf (windowsABI ARM64) documentedRawCounter ''SecondValue'' = 24"
  "offsetOf (windowsABI ARM64) documentedRawCounter ''MultiCount'' = 32"
  "sizeOf (windowsABI ARM64) documentedRawItem = 48"
  "offsetOf (windowsABI ARM64) documentedRawItem ''SzName'' = 0"
  "offsetOf (windowsABI ARM64) documentedRawItem ''RawValue'' = 8"
  by (simp_all add: documentedRawItem_def documentedRawCounter_def fileTime_def roundUp_def)

lemma documented_arm64_info [layout_simps]:
  "offsetOf (windowsABI ARM64) documentedCounterInfo ''SzFullPath'' = 40"
  by (simp_all add: documentedCounterInfo_def roundUp_def)

lemma documented_386_fmt [layout_simps]:
  "sizeOf (windowsABI I386) documentedFmtValue = 16"
  "offsetOf (windowsABI I386) documentedFmtValue ''CStatus'' = 0"
  "offsetOf (windowsABI I386) documentedFmtValue ''Value'' = 8"
  "sizeOf (windowsABI I386) documentedFmtItem = 24"
  "offsetOf (windowsABI I386) documentedFmtItem ''SzName'' = 0"
  "offsetOf (windowsABI I386) documentedFmtItem ''FmtValue'' = 8"
  by (simp_all add: documentedFmtItem_def documentedFmtValue_def roundUp_def)

lemma documented_386_raw [layout_simps]:
  "sizeOf (windowsABI I386) documentedRawCounter = 40"
  "offsetOf (windowsABI I386) documentedRawCounter ''CStatus'' = 0"
  "offsetOf (windowsABI I386) documentedRawCounter ''TimeStamp'' = 4"
  "offsetOf (windowsABI I386) documentedRawCounter ''FirstValue'' = 16"
  "offsetOf (windowsABI I386) documentedRawCounter ''SecondValue'' = 24"
  "offsetOf (windowsABI I386) documentedRawCounter ''MultiCount'' = 32"
  "sizeOf (windowsABI I386) documentedRawItem = 48"
  "offsetOf (windowsABI I386) documentedRawItem ''SzName'' = 0"
  "offsetOf (windowsABI I386) documentedRawItem ''RawValue'' = 8"
  by (simp_all add: documentedRawItem_def documentedRawCounter_def fileTime_def roundUp_def)

lemma documented_386_info [layout_simps]:
  "offsetOf (windowsABI I386) documentedCounterInfo ''SzFullPath'' = 32"
  by (simp_all add: documentedCounterInfo_def roundUp_def)

text \<open>From here on the layouts are known by these facts only.\<close>

declare goABI.simps [simp del] windowsABI.simps [simp del] sizeOf.simps [simp del]
  offsetOf.simps [simp del] pdhFmtCounterValueLong.simps [simp del]
  pdhFmtCounterValueItemLong.simps [simp del] pdhFmtCounterValueLarge.simps [simp del]
  pdhFmtCounterValueItemLarge.simps [simp del] pdhFmtCounterValueDouble.simps [simp del]
  pdhFmtCounterValueItemDouble.simps [simp del] pdhCounterInfo.simps [simp del]
  pdhRawCounter.simps [simp del] pdhRawCounterItem.simps [simp del]

text \<open>
  A declaration fits the documented one when the listed fields are at the documented
  offsets, and it has the documented size, which is the stride of an array of it.
\<close>

definition fits :: "arch \<Rightarrow> go_type \<Rightarrow> go_type \<Rightarrow> (string \<times> string) list \<Rightarrow> bool" where
  "fits a t d fgs \<longleftrightarrow>
     sizeOf (goABI a) t = sizeOf (windowsABI a) d
     \<and> (\<forall>(f, g) \<in> set fgs. offsetOf (goABI a) t f = offsetOf (windowsABI a) d g)"

section \<open>Properties\<close>



text \<open>
  On \<open>386\<close> the double values, the arrays of them and the counter's full path fit, which
  is what the explicit padding is for.
\<close>

theorem layout_386_double_fits:
  "fits I386 (pdhFmtCounterValueDouble I386) documentedFmtValue
     [(''CStatus'', ''CStatus''), (''DoubleValue'', ''Value'')]
   \<and> fits I386 (pdhFmtCounterValueItemDouble I386) documentedFmtItem
     [(''SzName'', ''SzName''), (''FmtValue'', ''FmtValue'')]
   \<and> offsetOf (goABI I386) (pdhCounterInfo I386) ''SzFullPath'' =
       offsetOf (windowsABI I386) documentedCounterInfo ''SzFullPath''"
  by (simp add: fits_def layout_simps)

text \<open>
  The long-integer structures do not fit on any architecture: Windows writes the value
  at offset 8 of a structure of 16 bytes, the Go declarations read it at offset 4, and their
  sizes, 8 bytes on the 64-bit builds and 12 on \<open>386\<close>, are less than what Windows writes.
\<close>

theorem layout_long_misfits:
  "offsetOf (goABI a) (pdhFmtCounterValueLong a) ''LongValue'' = 4
   \<and> offsetOf (windowsABI a) documentedFmtValue ''Value'' = 8
   \<and> sizeOf (goABI a) (pdhFmtCounterValueLong a) = (if a = I386 then 12 else 8)
   \<and> sizeOf (windowsABI a) documentedFmtValue = 16"
  by (cases a) (simp_all add: layout_simps)


end
