(* ===== verification/PdhCodes.thy ===== *)
theory PdhCodes
  imports Prelude
begin

text \<open>
  The status codes of the Performance Data Helper and their names (\<open>pdh.go\<close>), and the two
  functions of \<open>utils.go\<close> that decide by code what to do with an error: \<open>checkError\<close>,
  which drops the errors the configuration ignores by name, and
  \<open>isKnownCounterDataError\<close>, which tells the errors of a single sample from the others.
\<close>

section \<open>Codes\<close>

abbreviation errorSuccess :: u32 where "errorSuccess \<equiv> 0"
abbreviation errorFailure :: u32 where "errorFailure \<equiv> 1"
abbreviation errorInvalidFunction :: u32 where "errorInvalidFunction \<equiv> 1"

abbreviation pdhCstatusValidData :: u32 where "pdhCstatusValidData \<equiv> 0x00000000"
abbreviation pdhCstatusNewData :: u32 where "pdhCstatusNewData \<equiv> 0x00000001"
abbreviation pdhCstatusNoMachine :: u32 where "pdhCstatusNoMachine \<equiv> 0x800007D0"
abbreviation pdhCstatusNoInstance :: u32 where "pdhCstatusNoInstance \<equiv> 0x800007D1"
abbreviation pdhMoreData :: u32 where "pdhMoreData \<equiv> 0x800007D2"
abbreviation pdhCstatusItemNotValidated :: u32 where "pdhCstatusItemNotValidated \<equiv> 0x800007D3"
abbreviation pdhRetry :: u32 where "pdhRetry \<equiv> 0x800007D4"
abbreviation pdhNoData :: u32 where "pdhNoData \<equiv> 0x800007D5"
abbreviation pdhCalcNegativeDenominator :: u32 where "pdhCalcNegativeDenominator \<equiv> 0x800007D6"
abbreviation pdhCalcNegativeTimebase :: u32 where "pdhCalcNegativeTimebase \<equiv> 0x800007D7"
abbreviation pdhCalcNegativeValue :: u32 where "pdhCalcNegativeValue \<equiv> 0x800007D8"
abbreviation pdhDialogCancelled :: u32 where "pdhDialogCancelled \<equiv> 0x800007D9"
abbreviation pdhEndOfLogFile :: u32 where "pdhEndOfLogFile \<equiv> 0x800007DA"
abbreviation pdhAsyncQueryTimeout :: u32 where "pdhAsyncQueryTimeout \<equiv> 0x800007DB"
abbreviation pdhCannotSetDefaultRealtimeDatasource :: u32 where "pdhCannotSetDefaultRealtimeDatasource \<equiv> 0x800007DC"
abbreviation pdhCstatusNoObject :: u32 where "pdhCstatusNoObject \<equiv> 0xC0000BB8"
abbreviation pdhCstatusNoCounter :: u32 where "pdhCstatusNoCounter \<equiv> 0xC0000BB9"
abbreviation pdhCstatusInvalidData :: u32 where "pdhCstatusInvalidData \<equiv> 0xC0000BBA"
abbreviation pdhMemoryAllocationFailure :: u32 where "pdhMemoryAllocationFailure \<equiv> 0xC0000BBB"
abbreviation pdhInvalidHandle :: u32 where "pdhInvalidHandle \<equiv> 0xC0000BBC"
abbreviation pdhInvalidArgument :: u32 where "pdhInvalidArgument \<equiv> 0xC0000BBD"
abbreviation pdhFunctionNotFound :: u32 where "pdhFunctionNotFound \<equiv> 0xC0000BBE"
abbreviation pdhCstatusNoCountername :: u32 where "pdhCstatusNoCountername \<equiv> 0xC0000BBF"
abbreviation pdhCstatusBadCountername :: u32 where "pdhCstatusBadCountername \<equiv> 0xC0000BC0"
abbreviation pdhInvalidBuffer :: u32 where "pdhInvalidBuffer \<equiv> 0xC0000BC1"
abbreviation pdhInsufficientBuffer :: u32 where "pdhInsufficientBuffer \<equiv> 0xC0000BC2"
abbreviation pdhCannotConnectMachine :: u32 where "pdhCannotConnectMachine \<equiv> 0xC0000BC3"
abbreviation pdhInvalidPath :: u32 where "pdhInvalidPath \<equiv> 0xC0000BC4"
abbreviation pdhInvalidInstance :: u32 where "pdhInvalidInstance \<equiv> 0xC0000BC5"
abbreviation pdhInvalidData :: u32 where "pdhInvalidData \<equiv> 0xC0000BC6"
abbreviation pdhNoDialogData :: u32 where "pdhNoDialogData \<equiv> 0xC0000BC7"
abbreviation pdhCannotReadNameStrings :: u32 where "pdhCannotReadNameStrings \<equiv> 0xC0000BC8"
abbreviation pdhLogFileCreateError :: u32 where "pdhLogFileCreateError \<equiv> 0xC0000BC9"
abbreviation pdhLogFileOpenError :: u32 where "pdhLogFileOpenError \<equiv> 0xC0000BCA"
abbreviation pdhLogTypeNotFound :: u32 where "pdhLogTypeNotFound \<equiv> 0xC0000BCB"
abbreviation pdhNoMoreData :: u32 where "pdhNoMoreData \<equiv> 0xC0000BCC"
abbreviation pdhEntryNotInLogFile :: u32 where "pdhEntryNotInLogFile \<equiv> 0xC0000BCD"
abbreviation pdhDataSourceIsLogFile :: u32 where "pdhDataSourceIsLogFile \<equiv> 0xC0000BCE"
abbreviation pdhDataSourceIsRealTime :: u32 where "pdhDataSourceIsRealTime \<equiv> 0xC0000BCF"
abbreviation pdhUnableReadLogHeader :: u32 where "pdhUnableReadLogHeader \<equiv> 0xC0000BD0"
abbreviation pdhFileNotFound :: u32 where "pdhFileNotFound \<equiv> 0xC0000BD1"
abbreviation pdhFileAlreadyExists :: u32 where "pdhFileAlreadyExists \<equiv> 0xC0000BD2"
abbreviation pdhNotImplemented :: u32 where "pdhNotImplemented \<equiv> 0xC0000BD3"
abbreviation pdhStringNotFound :: u32 where "pdhStringNotFound \<equiv> 0xC0000BD4"
abbreviation pdhUnableMapNameFiles :: u32 where "pdhUnableMapNameFiles \<equiv> 0x80000BD5"
abbreviation pdhUnknownLogFormat :: u32 where "pdhUnknownLogFormat \<equiv> 0xC0000BD6"
abbreviation pdhUnknownLogsvcCommand :: u32 where "pdhUnknownLogsvcCommand \<equiv> 0xC0000BD7"
abbreviation pdhLogsvcQueryNotFound :: u32 where "pdhLogsvcQueryNotFound \<equiv> 0xC0000BD8"
abbreviation pdhLogsvcNotOpened :: u32 where "pdhLogsvcNotOpened \<equiv> 0xC0000BD9"
abbreviation pdhWbemError :: u32 where "pdhWbemError \<equiv> 0xC0000BDA"
abbreviation pdhAccessDenied :: u32 where "pdhAccessDenied \<equiv> 0xC0000BDB"
abbreviation pdhLogFileTooSmall :: u32 where "pdhLogFileTooSmall \<equiv> 0xC0000BDC"
abbreviation pdhInvalidDatasource :: u32 where "pdhInvalidDatasource \<equiv> 0xC0000BDD"
abbreviation pdhInvalidSqldb :: u32 where "pdhInvalidSqldb \<equiv> 0xC0000BDE"
abbreviation pdhNoCounters :: u32 where "pdhNoCounters \<equiv> 0xC0000BDF"
abbreviation pdhSQLAllocFailed :: u32 where "pdhSQLAllocFailed \<equiv> 0xC0000BE0"
abbreviation pdhSQLAllocconFailed :: u32 where "pdhSQLAllocconFailed \<equiv> 0xC0000BE1"
abbreviation pdhSQLExecDirectFailed :: u32 where "pdhSQLExecDirectFailed \<equiv> 0xC0000BE2"
abbreviation pdhSQLFetchFailed :: u32 where "pdhSQLFetchFailed \<equiv> 0xC0000BE3"
abbreviation pdhSQLRowcountFailed :: u32 where "pdhSQLRowcountFailed \<equiv> 0xC0000BE4"
abbreviation pdhSQLMoreResultsFailed :: u32 where "pdhSQLMoreResultsFailed \<equiv> 0xC0000BE5"
abbreviation pdhSQLConnectFailed :: u32 where "pdhSQLConnectFailed \<equiv> 0xC0000BE6"
abbreviation pdhSQLBindFailed :: u32 where "pdhSQLBindFailed \<equiv> 0xC0000BE7"
abbreviation pdhCannotConnectWmiServer :: u32 where "pdhCannotConnectWmiServer \<equiv> 0xC0000BE8"
abbreviation pdhPlaCollectionAlreadyRunning :: u32 where "pdhPlaCollectionAlreadyRunning \<equiv> 0xC0000BE9"
abbreviation pdhPlaErrorScheduleOverlap :: u32 where "pdhPlaErrorScheduleOverlap \<equiv> 0xC0000BEA"
abbreviation pdhPlaCollectionNotFound :: u32 where "pdhPlaCollectionNotFound \<equiv> 0xC0000BEB"
abbreviation pdhPlaErrorScheduleElapsed :: u32 where "pdhPlaErrorScheduleElapsed \<equiv> 0xC0000BEC"
abbreviation pdhPlaErrorNostart :: u32 where "pdhPlaErrorNostart \<equiv> 0xC0000BED"
abbreviation pdhPlaErrorAlreadyExists :: u32 where "pdhPlaErrorAlreadyExists \<equiv> 0xC0000BEE"
abbreviation pdhPlaErrorTypeMismatch :: u32 where "pdhPlaErrorTypeMismatch \<equiv> 0xC0000BEF"
abbreviation pdhPlaErrorFilepath :: u32 where "pdhPlaErrorFilepath \<equiv> 0xC0000BF0"
abbreviation pdhPlaServiceError :: u32 where "pdhPlaServiceError \<equiv> 0xC0000BF1"
abbreviation pdhPlaValidationError :: u32 where "pdhPlaValidationError \<equiv> 0xC0000BF2"
abbreviation pdhPlaValidationWarning :: u32 where "pdhPlaValidationWarning \<equiv> 0x80000BF3"
abbreviation pdhPlaErrorNameTooLong :: u32 where "pdhPlaErrorNameTooLong \<equiv> 0xC0000BF4"
abbreviation pdhInvalidSQLLogFormat :: u32 where "pdhInvalidSQLLogFormat \<equiv> 0xC0000BF5"
abbreviation pdhCounterAlreadyInQuery :: u32 where "pdhCounterAlreadyInQuery \<equiv> 0xC0000BF6"
abbreviation pdhBinaryLogCorrupt :: u32 where "pdhBinaryLogCorrupt \<equiv> 0xC0000BF7"
abbreviation pdhLogSampleTooSmall :: u32 where "pdhLogSampleTooSmall \<equiv> 0xC0000BF8"
abbreviation pdhOsLaterVersion :: u32 where "pdhOsLaterVersion \<equiv> 0xC0000BF9"
abbreviation pdhOsEarlierVersion :: u32 where "pdhOsEarlierVersion \<equiv> 0xC0000BFA"
abbreviation pdhIncorrectAppendTime :: u32 where "pdhIncorrectAppendTime \<equiv> 0xC0000BFB"
abbreviation pdhUnmatchedAppendCounter :: u32 where "pdhUnmatchedAppendCounter \<equiv> 0xC0000BFC"
abbreviation pdhSQLAlterDetailFailed :: u32 where "pdhSQLAlterDetailFailed \<equiv> 0xC0000BFD"
abbreviation pdhQueryPerfDataTimeout :: u32 where "pdhQueryPerfDataTimeout \<equiv> 0xC0000BFE"

text \<open>The map from codes to the names a configuration uses.\<close>

definition pdhErrors :: "(u32 \<times> string) list" where
  "pdhErrors =
    [(pdhCstatusValidData, ''PDH_CSTATUS_VALID_DATA''),
     (pdhCstatusNewData, ''PDH_CSTATUS_NEW_DATA''),
     (pdhCstatusNoMachine, ''PDH_CSTATUS_NO_MACHINE''),
     (pdhCstatusNoInstance, ''PDH_CSTATUS_NO_INSTANCE''),
     (pdhMoreData, ''PDH_MORE_DATA''),
     (pdhCstatusItemNotValidated, ''PDH_CSTATUS_ITEM_NOT_VALIDATED''),
     (pdhRetry, ''PDH_RETRY''),
     (pdhNoData, ''PDH_NO_DATA''),
     (pdhCalcNegativeDenominator, ''PDH_CALC_NEGATIVE_DENOMINATOR''),
     (pdhCalcNegativeTimebase, ''PDH_CALC_NEGATIVE_TIMEBASE''),
     (pdhCalcNegativeValue, ''PDH_CALC_NEGATIVE_VALUE''),
     (pdhDialogCancelled, ''PDH_DIALOG_CANCELLED''),
     (pdhEndOfLogFile, ''PDH_END_OF_LOG_FILE''),
     (pdhAsyncQueryTimeout, ''PDH_ASYNC_QUERY_TIMEOUT''),
     (pdhCannotSetDefaultRealtimeDatasource, ''PDH_CANNOT_SET_DEFAULT_REALTIME_DATASOURCE''),
     (pdhCstatusNoObject, ''PDH_CSTATUS_NO_OBJECT''),
     (pdhCstatusNoCounter, ''PDH_CSTATUS_NO_COUNTER''),
     (pdhCstatusInvalidData, ''PDH_CSTATUS_INVALID_DATA''),
     (pdhMemoryAllocationFailure, ''PDH_MEMORY_ALLOCATION_FAILURE''),
     (pdhInvalidHandle, ''PDH_INVALID_HANDLE''),
     (pdhInvalidArgument, ''PDH_INVALID_ARGUMENT''),
     (pdhFunctionNotFound, ''PDH_FUNCTION_NOT_FOUND''),
     (pdhCstatusNoCountername, ''PDH_CSTATUS_NO_COUNTERNAME''),
     (pdhCstatusBadCountername, ''PDH_CSTATUS_BAD_COUNTERNAME''),
     (pdhInvalidBuffer, ''PDH_INVALID_BUFFER''),
     (pdhInsufficientBuffer, ''PDH_INSUFFICIENT_BUFFER''),
     (pdhCannotConnectMachine, ''PDH_CANNOT_CONNECT_MACHINE''),
     (pdhInvalidPath, ''PDH_INVALID_PATH''),
     (pdhInvalidInstance, ''PDH_INVALID_INSTANCE''),
     (pdhInvalidData, ''PDH_INVALID_DATA''),
     (pdhNoDialogData, ''PDH_NO_DIALOG_DATA''),
     (pdhCannotReadNameStrings, ''PDH_CANNOT_READ_NAME_STRINGS''),
     (pdhLogFileCreateError, ''PDH_LOG_FILE_CREATE_ERROR''),
     (pdhLogFileOpenError, ''PDH_LOG_FILE_OPEN_ERROR''),
     (pdhLogTypeNotFound, ''PDH_LOG_TYPE_NOT_FOUND''),
     (pdhNoMoreData, ''PDH_NO_MORE_DATA''),
     (pdhEntryNotInLogFile, ''PDH_ENTRY_NOT_IN_LOG_FILE''),
     (pdhDataSourceIsLogFile, ''PDH_DATA_SOURCE_IS_LOG_FILE''),
     (pdhDataSourceIsRealTime, ''PDH_DATA_SOURCE_IS_REAL_TIME''),
     (pdhUnableReadLogHeader, ''PDH_UNABLE_READ_LOG_HEADER''),
     (pdhFileNotFound, ''PDH_FILE_NOT_FOUND''),
     (pdhFileAlreadyExists, ''PDH_FILE_ALREADY_EXISTS''),
     (pdhNotImplemented, ''PDH_NOT_IMPLEMENTED''),
     (pdhStringNotFound, ''PDH_STRING_NOT_FOUND''),
     (pdhUnableMapNameFiles, ''PDH_UNABLE_MAP_NAME_FILES''),
     (pdhUnknownLogFormat, ''PDH_UNKNOWN_LOG_FORMAT''),
     (pdhUnknownLogsvcCommand, ''PDH_UNKNOWN_LOGSVC_COMMAND''),
     (pdhLogsvcQueryNotFound, ''PDH_LOGSVC_QUERY_NOT_FOUND''),
     (pdhLogsvcNotOpened, ''PDH_LOGSVC_NOT_OPENED''),
     (pdhWbemError, ''PDH_WBEM_ERROR''),
     (pdhAccessDenied, ''PDH_ACCESS_DENIED''),
     (pdhLogFileTooSmall, ''PDH_LOG_FILE_TOO_SMALL''),
     (pdhInvalidDatasource, ''PDH_INVALID_DATASOURCE''),
     (pdhInvalidSqldb, ''PDH_INVALID_SQLDB''),
     (pdhNoCounters, ''PDH_NO_COUNTERS''),
     (pdhSQLAllocFailed, ''PDH_SQL_ALLOC_FAILED''),
     (pdhSQLAllocconFailed, ''PDH_SQL_ALLOCCON_FAILED''),
     (pdhSQLExecDirectFailed, ''PDH_SQL_EXEC_DIRECT_FAILED''),
     (pdhSQLFetchFailed, ''PDH_SQL_FETCH_FAILED''),
     (pdhSQLRowcountFailed, ''PDH_SQL_ROWCOUNT_FAILED''),
     (pdhSQLMoreResultsFailed, ''PDH_SQL_MORE_RESULTS_FAILED''),
     (pdhSQLConnectFailed, ''PDH_SQL_CONNECT_FAILED''),
     (pdhSQLBindFailed, ''PDH_SQL_BIND_FAILED''),
     (pdhCannotConnectWmiServer, ''PDH_CANNOT_CONNECT_WMI_SERVER''),
     (pdhPlaCollectionAlreadyRunning, ''PDH_PLA_COLLECTION_ALREADY_RUNNING''),
     (pdhPlaErrorScheduleOverlap, ''PDH_PLA_ERROR_SCHEDULE_OVERLAP''),
     (pdhPlaCollectionNotFound, ''PDH_PLA_COLLECTION_NOT_FOUND''),
     (pdhPlaErrorScheduleElapsed, ''PDH_PLA_ERROR_SCHEDULE_ELAPSED''),
     (pdhPlaErrorNostart, ''PDH_PLA_ERROR_NOSTART''),
     (pdhPlaErrorAlreadyExists, ''PDH_PLA_ERROR_ALREADY_EXISTS''),
     (pdhPlaErrorTypeMismatch, ''PDH_PLA_ERROR_TYPE_MISMATCH''),
     (pdhPlaErrorFilepath, ''PDH_PLA_ERROR_FILEPATH''),
     (pdhPlaServiceError, ''PDH_PLA_SERVICE_ERROR''),
     (pdhPlaValidationError, ''PDH_PLA_VALIDATION_ERROR''),
     (pdhPlaValidationWarning, ''PDH_PLA_VALIDATION_WARNING''),
     (pdhPlaErrorNameTooLong, ''PDH_PLA_ERROR_NAME_TOO_LONG''),
     (pdhInvalidSQLLogFormat, ''PDH_INVALID_SQL_LOG_FORMAT''),
     (pdhCounterAlreadyInQuery, ''PDH_COUNTER_ALREADY_IN_QUERY''),
     (pdhBinaryLogCorrupt, ''PDH_BINARY_LOG_CORRUPT''),
     (pdhLogSampleTooSmall, ''PDH_LOG_SAMPLE_TOO_SMALL''),
     (pdhOsLaterVersion, ''PDH_OS_LATER_VERSION''),
     (pdhOsEarlierVersion, ''PDH_OS_EARLIER_VERSION''),
     (pdhIncorrectAppendTime, ''PDH_INCORRECT_APPEND_TIME''),
     (pdhUnmatchedAppendCounter, ''PDH_UNMATCHED_APPEND_COUNTER''),
     (pdhSQLAlterDetailFailed, ''PDH_SQL_ALTER_DETAIL_FAILED''),
     (pdhQueryPerfDataTimeout, ''PDH_QUERY_PERF_DATA_TIMEOUT'')]"

text \<open>Formatting options of \<open>PdhGetFormattedCounterValue\<close>.\<close>

abbreviation pdhFmtRaw :: u32 where "pdhFmtRaw \<equiv> 0x00000010"
abbreviation pdhFmtAnsi :: u32 where "pdhFmtAnsi \<equiv> 0x00000020"
abbreviation pdhFmtUnicode :: u32 where "pdhFmtUnicode \<equiv> 0x00000040"
abbreviation pdhFmtLong :: u32 where "pdhFmtLong \<equiv> 0x00000100"
abbreviation pdhFmtDouble :: u32 where "pdhFmtDouble \<equiv> 0x00000200"
abbreviation pdhFmtLarge :: u32 where "pdhFmtLarge \<equiv> 0x00000400"
abbreviation pdhFmtNoscale :: u32 where "pdhFmtNoscale \<equiv> 0x00001000"
abbreviation pdhFmt1000 :: u32 where "pdhFmt1000 \<equiv> 0x00002000"
abbreviation pdhFmtNodata :: u32 where "pdhFmtNodata \<equiv> 0x00004000"
abbreviation pdhFmtNocap100 :: u32 where "pdhFmtNocap100 \<equiv> 0x00008000"
abbreviation perfDetailCostly :: u32 where "perfDetailCostly \<equiv> 0x00010000"
abbreviation perfDetailStandard :: u32 where "perfDetailStandard \<equiv> 0x0000FFFF"

section \<open>Decisions by code\<close>

text \<open>\<open>pdhErrors[code]\<close>: Go's zero value, the empty string, for a code the map lacks.\<close>

definition pdhErrorName :: "u32 \<Rightarrow> string" where
  "pdhErrorName code = (case map_of pdhErrors code of None \<Rightarrow> '''' | Some name \<Rightarrow> name)"

text \<open>\<open>checkError\<close>, given the configured \<open>IgnoredErrors\<close>; \<open>None\<close> is a nil error.\<close>

definition checkError :: "string list \<Rightarrow> go_error \<Rightarrow> go_error option" where
  "checkError ignoredErrors err = (case as_pdhError err of
      Some code \<Rightarrow> if pdhErrorName code \<in> set ignoredErrors then None else Some err
    | None \<Rightarrow> Some err)"

definition isKnownCounterDataError :: "go_error \<Rightarrow> bool" where
  "isKnownCounterDataError err = (case as_pdhError err of
      Some code \<Rightarrow> code = pdhInvalidData \<or> code = pdhCalcNegativeDenominator
        \<or> code = pdhCalcNegativeValue \<or> code = pdhCstatusInvalidData
        \<or> code = pdhCstatusNoInstance \<or> code = pdhNoData
    | None \<Rightarrow> False)"

section \<open>The table of names\<close>

lemma pdhErrors_distinct: "distinct (map snd pdhErrors)"
  by (simp add: pdhErrors_def)

lemma pdhErrors_nonempty: "'''' \<notin> set (map snd pdhErrors)"
  by (simp add: pdhErrors_def)

lemma pdhErrorName_eq_iff:
  assumes "map_of pdhErrors code = Some name"
  shows "pdhErrorName c = name \<longleftrightarrow> c = code"
proof
  assume name: "pdhErrorName c = name"
  have "(code, name) \<in> set pdhErrors" using assms by (rule map_of_SomeD)
  moreover have "(c, name) \<in> set pdhErrors"
    using name calculation pdhErrors_nonempty
    by (auto simp: pdhErrorName_def image_iff dest!: map_of_SomeD split: option.splits)
  ultimately show "c = code"
    using pdhErrors_distinct by (metis distinct_map fst_conv inj_onD snd_conv)
qed (simp add: pdhErrorName_def assms)

section \<open>Properties\<close>

text \<open>
  C31. An entry of \<open>IgnoredErrors\<close> that names a known code silences exactly the errors with
  that code, wrapped or not: no other code has that name, errors that are no PDH errors are
  never dropped, and an error that is not dropped is returned as it is.
\<close>

theorem checkError_exact:
  assumes "map_of pdhErrors code = Some name"
  shows "checkError [name] err = (if as_pdhError err = Some code then None else Some err)"
  using pdhErrorName_eq_iff [OF assms]
  by (auto simp: checkError_def split: option.splits)

theorem checkError_exact_witness:
  "checkError [''PDH_NO_DATA''] (Errorf ''%w'' [] (Some (PdhError pdhNoData ''no data''))) = None"
proof -
  have "map_of pdhErrors pdhNoData = Some ''PDH_NO_DATA''"
    by (simp add: pdhErrors_def)
  from checkError_exact [OF this] show ?thesis by simp
qed

text \<open>
  The empty string in \<open>IgnoredErrors\<close> is not inert: the lookup of a code the table does
  not know gives the empty name, so every PDH error with an unlisted code is dropped.
\<close>

theorem checkError_empty_name:
  "checkError [''''] err = None \<longleftrightarrow> (\<exists>code. as_pdhError err = Some code \<and> code \<notin> fst ` set pdhErrors)"
proof -
  have "pdhErrorName code = '''' \<longleftrightarrow> code \<notin> fst ` set pdhErrors" for code
  proof (cases "map_of pdhErrors code")
    case None
    then have "code \<notin> fst ` set pdhErrors" by (simp add: map_of_eq_None_iff)
    with None show ?thesis by (simp add: pdhErrorName_def)
  next
    case (Some name)
    then have "(code, name) \<in> set pdhErrors" by (rule map_of_SomeD)
    then have "name \<noteq> ''''" "code \<in> fst ` set pdhErrors"
      using pdhErrors_nonempty by force+
    with Some show ?thesis by (simp add: pdhErrorName_def)
  qed
  then show ?thesis by (auto simp: checkError_def split: option.splits)
qed

end
