(* ===== verification/Pdh.thy ===== *)
theory Pdh
  imports Wide Layout PdhCodes "HOL-Library.Signed_Division"
begin

unbundle bit_operations_syntax

text \<open>
  The calls into Windows (\<open>pdh.go\<close>, \<open>kernel32.go\<close>). What is outside the repository (the
  functions of \<open>pdh.dll\<close> and \<open>kernel32.dll\<close>, \<open>windows.FormatMessage\<close>, the clock, the
  host name, Go's allocator and the order in which Go walks a map) is a record of functions
  over an abstract state \<open>'w\<close> of the machine, an argument \<open>pf\<close> of every definition that
  uses it. The wrappers of \<open>pdh.go\<close> are translated over it; the lemmas give the exact
  meaning of the conversion of a file time to an instant.
\<close>

section \<open>The platform\<close>

text \<open>A \<open>fileTime\<close> value: the low and the high half of a count of 100-nanosecond intervals.\<close>

record fileTimeValue =
  dwLowDateTime :: u32
  dwHighDateTime :: u32

text \<open>
  A function that the loader may not find is an option, as its procedure variable may be
  nil. The results of a call are its return register, the values its out-parameters hold
  after it, and the new machine state, which includes the memory (\<open>mem\<close>). \<open>newObject n\<close>
  allocates \<open>n\<close> bytes.
\<close>

record 'w platform =
  build :: arch
  mem :: "'w \<Rightarrow> memory"
  newObject :: "nat \<Rightarrow> 'w \<Rightarrow> addr \<times> 'w"
  timeNow :: "'w \<Rightarrow> Time \<times> 'w"
  timeSleep :: "Duration \<Rightarrow> 'w \<Rightarrow> 'w"
  osHostname :: "'w \<Rightarrow> string option \<times> 'w"
  rangePerm :: "nat \<Rightarrow> 'w \<Rightarrow> nat list \<times> 'w"
  libPdhHandle :: u64
  FORMAT_MESSAGE_FROM_HMODULE :: u32
  FORMAT_MESSAGE_ARGUMENT_ARRAY :: u32
  FORMAT_MESSAGE_IGNORE_INSERTS :: u32
  FormatMessage :: "u32 \<Rightarrow> u64 \<Rightarrow> u32 \<Rightarrow> u32 \<Rightarrow> addr \<Rightarrow> nat \<Rightarrow> 'w \<Rightarrow> string option \<times> 'w"
  PdhAddCounterW :: "u64 \<Rightarrow> u16 list option \<Rightarrow> u64 \<Rightarrow> 'w \<Rightarrow> u64 \<times> u64 \<times> 'w"
  PdhAddEnglishCounterW :: "(u64 \<Rightarrow> u16 list option \<Rightarrow> u64 \<Rightarrow> 'w \<Rightarrow> u64 \<times> u64 \<times> 'w) option"
  PdhCloseQuery :: "u64 \<Rightarrow> 'w \<Rightarrow> u64 \<times> 'w"
  PdhCollectQueryData :: "u64 \<Rightarrow> 'w \<Rightarrow> u64 \<times> 'w"
  PdhCollectQueryDataWithTime :: "(u64 \<Rightarrow> 'w \<Rightarrow> u64 \<times> fileTimeValue \<times> 'w) option"
  PdhGetFormattedCounterValue :: "u64 \<Rightarrow> u32 \<Rightarrow> addr \<Rightarrow> 'w \<Rightarrow> u64 \<times> 'w"
  PdhGetFormattedCounterArrayW ::
    "u64 \<Rightarrow> u32 \<Rightarrow> u32 \<Rightarrow> u32 \<Rightarrow> addr \<Rightarrow> 'w \<Rightarrow> u64 \<times> u32 \<times> u32 \<times> 'w"
  PdhOpenQuery :: "u64 \<Rightarrow> u64 \<Rightarrow> 'w \<Rightarrow> u64 \<times> u64 \<times> 'w"
  PdhExpandWildCardPathW ::
    "u64 \<Rightarrow> u16 list option \<Rightarrow> addr \<Rightarrow> u32 \<Rightarrow> u64 \<Rightarrow> 'w \<Rightarrow> u64 \<times> u32 \<times> 'w"
  PdhGetCounterInfoW :: "u64 \<Rightarrow> u64 \<Rightarrow> u32 \<Rightarrow> addr \<Rightarrow> 'w \<Rightarrow> u64 \<times> u32 \<times> 'w"
  PdhGetRawCounterValue :: "u64 \<Rightarrow> addr \<Rightarrow> 'w \<Rightarrow> u64 \<times> 'w"
  PdhGetRawCounterArrayW :: "u64 \<Rightarrow> u32 \<Rightarrow> u32 \<Rightarrow> addr \<Rightarrow> 'w \<Rightarrow> u64 \<times> u32 \<times> u32 \<times> 'w"
  PdhValidatePathW :: "u16 list option \<Rightarrow> 'w \<Rightarrow> u64 \<times> 'w"
  LocalFileTimeToFileTime :: "fileTimeValue \<Rightarrow> 'w \<Rightarrow> u64 \<times> fileTimeValue \<times> 'w"

type_synonym pdhQueryHandle = u64
type_synonym pdhCounterHandle = u64

section \<open>The wrappers\<close>

text \<open>Each returns the status \<open>uint32(ret)\<close>, the out-parameters and the new state.\<close>

definition pdhAddCounter ::
    "'w platform \<Rightarrow> pdhQueryHandle \<Rightarrow> string \<Rightarrow> u64 \<Rightarrow> 'w \<Rightarrow> u32 \<times> pdhCounterHandle \<times> 'w" where
  "pdhAddCounter pf hQuery szFullCounterPath dwUserData w =
     (let ptxt = utf16PtrFromString szFullCounterPath;
          (ret, phCounter, w') = PdhAddCounterW pf hQuery ptxt dwUserData w
      in (ucast ret, phCounter, w'))"

definition pdhAddEnglishCounterSupported :: "'w platform \<Rightarrow> bool" where
  "pdhAddEnglishCounterSupported pf \<longleftrightarrow> PdhAddEnglishCounterW pf \<noteq> None"

definition pdhAddEnglishCounter ::
    "'w platform \<Rightarrow> pdhQueryHandle \<Rightarrow> string \<Rightarrow> u64 \<Rightarrow> 'w \<Rightarrow> u32 \<times> pdhCounterHandle \<times> 'w" where
  "pdhAddEnglishCounter pf hQuery szFullCounterPath dwUserData w =
     (case PdhAddEnglishCounterW pf of
        None \<Rightarrow> (errorInvalidFunction, 0, w)
      | Some proc \<Rightarrow>
          (let ptxt = utf16PtrFromString szFullCounterPath;
               (ret, phCounter, w') = proc hQuery ptxt dwUserData w
           in (ucast ret, phCounter, w')))"

definition pdhCloseQuery :: "'w platform \<Rightarrow> pdhQueryHandle \<Rightarrow> 'w \<Rightarrow> u32 \<times> 'w" where
  "pdhCloseQuery pf hQuery w = (let (ret, w') = PdhCloseQuery pf hQuery w in (ucast ret, w'))"

definition pdhCollectQueryData :: "'w platform \<Rightarrow> pdhQueryHandle \<Rightarrow> 'w \<Rightarrow> u32 \<times> 'w" where
  "pdhCollectQueryData pf hQuery w =
     (let (ret, w') = PdhCollectQueryData pf hQuery w in (ucast ret, w'))"

definition epochDifferenceMicros :: u64 where
  "epochDifferenceMicros = 11644473600000000"

text \<open>
  The arithmetic of \<open>pdhCollectQueryDataWithTime\<close>, in 64-bit two's complement: the shift
  and the bitwise or of the two halves, Go's truncating division, the subtraction and the
  product, each modulo \<open>2 ^ 64\<close>.
\<close>

definition fileTimeToNanos :: "fileTimeValue \<Rightarrow> u64" where
  "fileTimeToNanos ft =
     (let intervals = push_bit 32 (ucast (dwHighDateTime ft)) OR ucast (dwLowDateTime ft) :: u64;
          totalMicroSeconds = word_of_int (sint intervals sdiv 10) - epochDifferenceMicros
      in totalMicroSeconds * 1000)"

text \<open>
  \<open>pdhCollectQueryDataWithTime\<close>. The return register is compared before it is cut to 32
  bits. Calling the procedure when it was not found dereferences a nil pointer.
\<close>

definition pdhCollectQueryDataWithTime ::
    "'w platform \<Rightarrow> pdhQueryHandle \<Rightarrow> 'w \<Rightarrow> (u32 \<times> Time) result \<times> 'w" where
  "pdhCollectQueryDataWithTime pf hQuery w =
     (case PdhCollectQueryDataWithTime pf of
        None \<Rightarrow> (Panic ''nil pointer dereference'', w)
      | Some proc \<Rightarrow>
          (let (ret, localFileTime, w1) = proc hQuery w in
           if ret = 0 then
             (let (ret2, utcFileTime, w2) = LocalFileTimeToFileTime pf localFileTime w1 in
              if ret2 = 0 then (let (t, w3) = timeNow pf w2 in (Ok (errorFailure, t), w3))
              else (Ok (errorSuccess, sint (fileTimeToNanos utcFileTime)), w2))
           else (let (t, w2) = timeNow pf w1 in (Ok (ucast ret, t), w2))))"

definition pdhGetFormattedCounterValueLong ::
    "'w platform \<Rightarrow> pdhCounterHandle \<Rightarrow> addr \<Rightarrow> 'w \<Rightarrow> u32 \<times> 'w" where
  "pdhGetFormattedCounterValueLong pf hCounter pValue w =
     (let (ret, w') = PdhGetFormattedCounterValue pf hCounter pdhFmtLong pValue w in (ucast ret, w'))"

definition pdhGetFormattedCounterValueLarge ::
    "'w platform \<Rightarrow> pdhCounterHandle \<Rightarrow> addr \<Rightarrow> 'w \<Rightarrow> u32 \<times> 'w" where
  "pdhGetFormattedCounterValueLarge pf hCounter pValue w =
     (let (ret, w') = PdhGetFormattedCounterValue pf hCounter pdhFmtLarge pValue w in (ucast ret, w'))"

definition pdhGetFormattedCounterValueDouble ::
    "'w platform \<Rightarrow> pdhCounterHandle \<Rightarrow> addr \<Rightarrow> 'w \<Rightarrow> u32 \<times> 'w" where
  "pdhGetFormattedCounterValueDouble pf hCounter pValue w =
     (let (ret, w') =
        PdhGetFormattedCounterValue pf hCounter (pdhFmtDouble OR pdhFmtNocap100) pValue w
      in (ucast ret, w'))"

definition pdhGetFormattedCounterArrayLong ::
    "'w platform \<Rightarrow> pdhCounterHandle \<Rightarrow> u32 \<Rightarrow> u32 \<Rightarrow> addr \<Rightarrow> 'w \<Rightarrow> u32 \<times> u32 \<times> u32 \<times> 'w" where
  "pdhGetFormattedCounterArrayLong pf hCounter sz itemCount itemBuffer w =
     (let (ret, sz', itemCount', w') =
        PdhGetFormattedCounterArrayW pf hCounter pdhFmtLong sz itemCount itemBuffer w
      in (ucast ret, sz', itemCount', w'))"

definition pdhGetFormattedCounterArrayLarge ::
    "'w platform \<Rightarrow> pdhCounterHandle \<Rightarrow> u32 \<Rightarrow> u32 \<Rightarrow> addr \<Rightarrow> 'w \<Rightarrow> u32 \<times> u32 \<times> u32 \<times> 'w" where
  "pdhGetFormattedCounterArrayLarge pf hCounter sz itemCount itemBuffer w =
     (let (ret, sz', itemCount', w') =
        PdhGetFormattedCounterArrayW pf hCounter pdhFmtLarge sz itemCount itemBuffer w
      in (ucast ret, sz', itemCount', w'))"

definition pdhGetFormattedCounterArrayDouble ::
    "'w platform \<Rightarrow> pdhCounterHandle \<Rightarrow> u32 \<Rightarrow> u32 \<Rightarrow> addr \<Rightarrow> 'w \<Rightarrow> u32 \<times> u32 \<times> u32 \<times> 'w" where
  "pdhGetFormattedCounterArrayDouble pf hCounter sz itemCount itemBuffer w =
     (let (ret, sz', itemCount', w') =
        PdhGetFormattedCounterArrayW pf hCounter (pdhFmtDouble OR pdhFmtNocap100)
          sz itemCount itemBuffer w
      in (ucast ret, sz', itemCount', w'))"

definition pdhOpenQuery ::
    "'w platform \<Rightarrow> u64 \<Rightarrow> u64 \<Rightarrow> 'w \<Rightarrow> u32 \<times> pdhQueryHandle \<times> 'w" where
  "pdhOpenQuery pf szDataSource dwUserData w =
     (let (ret, phQuery, w') = PdhOpenQuery pf szDataSource dwUserData w in (ucast ret, phQuery, w'))"

text \<open>
  The last argument of \<open>PdhExpandWildCardPathW\<close> is the address of the variable \<open>flags\<close>,
  not its value.
\<close>

definition pdhExpandWildCardPath ::
    "'w platform \<Rightarrow> string \<Rightarrow> addr \<Rightarrow> u32 \<Rightarrow> 'w \<Rightarrow> u32 \<times> u32 \<times> 'w" where
  "pdhExpandWildCardPath pf szWildCardPath mszExpandedPathList pcchPathListLength w =
     (let ptxt = utf16PtrFromString szWildCardPath;
          (flagsAddr, w1) = newObject pf 4 w;
          (ret, len, w2) = PdhExpandWildCardPathW pf 0 ptxt mszExpandedPathList
                             pcchPathListLength flagsAddr w1
      in (ucast ret, len, w2))"

definition pdhFormatError :: "'w platform \<Rightarrow> u32 \<Rightarrow> 'w \<Rightarrow> string \<times> 'w" where
  "pdhFormatError pf msgID w =
     (let flags = FORMAT_MESSAGE_FROM_HMODULE pf OR FORMAT_MESSAGE_ARGUMENT_ARRAY pf
                    OR FORMAT_MESSAGE_IGNORE_INSERTS pf;
          (buf, w1) = newObject pf (2 * 300) w;
          (err, w2) = FormatMessage pf flags (libPdhHandle pf) msgID 0 buf 300 w1
      in case err of
           None \<Rightarrow> (utf16PtrToString (mem pf w2) buf, w2)
         | Some text \<Rightarrow> (''(pdhErr='' @ decimal (unat msgID) @ '') '' @ text, w2))"

definition pdhGetCounterInfo ::
    "'w platform \<Rightarrow> pdhCounterHandle \<Rightarrow> u64 \<Rightarrow> u32 \<Rightarrow> addr \<Rightarrow> 'w \<Rightarrow> u32 \<times> u32 \<times> 'w" where
  "pdhGetCounterInfo pf hCounter bRetrieveExplainText sz lpBuffer w =
     (let (ret, sz', w') = PdhGetCounterInfoW pf hCounter bRetrieveExplainText sz lpBuffer w
      in (ucast ret, sz', w'))"

definition pdhGetRawCounterValue ::
    "'w platform \<Rightarrow> pdhCounterHandle \<Rightarrow> addr \<Rightarrow> 'w \<Rightarrow> u32 \<times> 'w" where
  "pdhGetRawCounterValue pf hCounter pValue w =
     (let (ret, w') = PdhGetRawCounterValue pf hCounter pValue w in (ucast ret, w'))"

definition pdhGetRawCounterArray ::
    "'w platform \<Rightarrow> pdhCounterHandle \<Rightarrow> u32 \<Rightarrow> u32 \<Rightarrow> addr \<Rightarrow> 'w \<Rightarrow> u32 \<times> u32 \<times> u32 \<times> 'w" where
  "pdhGetRawCounterArray pf hCounter sz itemCount itemBuffer w =
     (let (ret, sz', itemCount', w') =
        PdhGetRawCounterArrayW pf hCounter sz itemCount itemBuffer w
      in (ucast ret, sz', itemCount', w'))"

definition pdhValidatePath :: "'w platform \<Rightarrow> string \<Rightarrow> 'w \<Rightarrow> u32 \<times> 'w" where
  "pdhValidatePath pf path w =
     (let ptxt = utf16PtrFromString path; (ret, w') = PdhValidatePathW pf ptxt w
      in (ucast ret, w'))"

lemmas pdh_wrapper_defs =
  pdhAddCounter_def pdhAddEnglishCounter_def pdhCloseQuery_def pdhCollectQueryData_def
  pdhCollectQueryDataWithTime_def pdhGetFormattedCounterValueLong_def
  pdhGetFormattedCounterValueLarge_def pdhGetFormattedCounterValueDouble_def
  pdhGetFormattedCounterArrayLong_def pdhGetFormattedCounterArrayLarge_def
  pdhGetFormattedCounterArrayDouble_def pdhOpenQuery_def pdhExpandWildCardPath_def
  pdhFormatError_def pdhGetCounterInfo_def pdhGetRawCounterValue_def pdhGetRawCounterArray_def
  pdhValidatePath_def

section \<open>File times\<close>

text \<open>The number of 100-nanosecond intervals since 1601.\<close>

definition intervals :: "fileTimeValue \<Rightarrow> nat" where
  "intervals ft = unat (dwHighDateTime ft) * 2 ^ 32 + unat (dwLowDateTime ft)"

lemma halves_disjoint:
  fixes lo hi :: u32
  shows "push_bit 32 (ucast hi) AND ucast lo = (0 :: u64)"
  by (rule bit_word_eqI) (auto simp: bit_simps dest: bit_imp_le_length)

lemma uint_halves:
  fixes lo hi :: u32
  shows "uint (push_bit 32 (ucast hi) OR ucast lo :: u64) = uint hi * 2 ^ 32 + uint lo"
proof -
  have "push_bit 32 (ucast hi) OR ucast lo = (push_bit 32 (ucast hi) + ucast lo :: u64)"
    by (rule disjunctive_add_eq_or [symmetric]) (rule halves_disjoint)
  moreover have "uint hi < 2 ^ 32" "uint lo < 2 ^ 32"
    using unsigned_less [where ?'a = int, of hi] unsigned_less [where ?'a = int, of lo] by simp_all
  moreover have "0 \<le> uint hi" "0 \<le> uint lo" by simp_all
  ultimately show ?thesis
    by (simp add: push_bit_eq_mult uint_word_ariths unsigned_ucast_eq take_bit_eq_mod)
qed

lemma int_intervals: "int (intervals ft) = uint (dwHighDateTime ft) * 2 ^ 32 + uint (dwLowDateTime ft)"
  by (simp add: intervals_def)

lemma sint_word_of_int:
  "- (2 ^ 63) \<le> k \<Longrightarrow> k < 2 ^ 63 \<Longrightarrow> sint (word_of_int k :: u64) = k"
  by (simp add: signed_of_int signed_take_bit_int_eq_self)

lemma fileTimeToNanos_eq:
  assumes "intervals ft < 2 ^ 63"
  shows "fileTimeToNanos ft =
         word_of_int ((int (intervals ft) div 10 - 11644473600000000) * 1000)"
proof -
  let ?x = "push_bit 32 (ucast (dwHighDateTime ft)) OR ucast (dwLowDateTime ft) :: u64"
  have "uint ?x = int (intervals ft)"
    by (simp only: uint_halves int_intervals)
  then have "?x = word_of_int (int (intervals ft))"
    by (metis word_of_int_uint)
  then have "sint ?x = int (intervals ft)"
    using assms sint_word_of_int [of "int (intervals ft)"] by simp
  then have "sint ?x sdiv 10 = int (intervals ft) div 10"
    by (cases "intervals ft = 0") (simp_all add: signed_divide_int_def)
  then show ?thesis
    by (simp add: fileTimeToNanos_def Let_def epochDifferenceMicros_def)
qed

section \<open>Properties\<close>

text \<open>
  C30. The time stamp of a sample is exact: for a file time whose instant is within about 292
  years of the Unix epoch, the 64-bit arithmetic of \<open>pdhCollectQueryDataWithTime\<close> does not
  overflow and yields the instant, in nanoseconds since 1970, of the whole microseconds the
  file time counts from 1601.
\<close>

theorem fileTimeToNanos_exact:
  assumes "2421101563145225 \<le> intervals ft div 10" and "intervals ft div 10 \<le> 20867845636854775"
  shows "sint (fileTimeToNanos ft) = (int (intervals ft div 10) - 11644473600000000) * 1000"
proof -
  have small: "intervals ft < 2 ^ 63" using assms(2) by simp
  have range: "2421101563145225 \<le> int (intervals ft) div 10" "int (intervals ft) div 10 \<le> 20867845636854775"
    using assms by (metis of_nat_le_iff of_nat_numeral zdiv_int)+
  have "sint (fileTimeToNanos ft) = (int (intervals ft) div 10 - 11644473600000000) * 1000"
    unfolding fileTimeToNanos_eq [OF small]
    by (rule sint_word_of_int) (use range in simp_all)
  then show ?thesis by (simp add: zdiv_int)
qed

theorem fileTimeToNanos_exact_witness:
  "sint (fileTimeToNanos \<lparr>dwLowDateTime = 0xD53E8000, dwHighDateTime = 0x019DB1DE\<rparr>) = 0"
proof -
  let ?ft = "\<lparr>dwLowDateTime = 0xD53E8000, dwHighDateTime = 0x019DB1DE\<rparr>"
  have i: "intervals ?ft = 116444736000000000" by (simp add: intervals_def)
  then show ?thesis using fileTimeToNanos_exact [of ?ft] by simp
qed

text \<open>
  Before that range the product overflows and the instant is wrong: the zero file time,
  the start of 1601, comes out as a time in the year 2185.
\<close>

theorem fileTimeToNanos_overflow:
  "sint (fileTimeToNanos \<lparr>dwLowDateTime = 0, dwHighDateTime = 0\<rparr>) = 2 ^ 64 - 11644473600000000000"
  by (simp add: fileTimeToNanos_def epochDifferenceMicros_def)

end
