(* ===== verification/Query.thy ===== *)
theory Query
  imports Pdh
begin

text \<open>
  The performance query (\<open>performance_query.go\<close>): the query object and its life cycle, the
  loops that grow a buffer until Windows accepts it, and the reading of counter paths,
  values and arrays of values out of raw memory. Operations that change the query object
  are programs over the pair of the object and the machine; the others take the object by
  value and are programs over the machine.
\<close>

section \<open>Values, errors and the query object\<close>

text \<open>\<open>longValue\<close>, \<open>largeValue\<close>, \<open>doubleValue\<close> and \<open>counterValue\<close>; a \<open>float64\<close> is its bit pattern.\<close>

datatype go_value = IntValue u64 | FloatValue u64

record 'v namedValue =
  Name :: string
  Value :: 'v

type_synonym longValue = "u32 namedValue"
type_synonym largeValue = "u64 namedValue"
type_synonym doubleValue = "u64 namedValue"
type_synonym counterValue = "go_value namedValue"

definition initialBufferSize :: u32 where
  "initialBufferSize = 1024"

definition errBufferLimitReached :: go_error where
  "errBufferLimitReached = ErrorsNew ''buffer limit reached''"

definition errUninitializedQuery :: go_error where
  "errUninitializedQuery = ErrorsNew ''uninitialized query''"

definition newPdhError :: "'w platform \<Rightarrow> u32 \<Rightarrow> 'w \<Rightarrow> go_error \<times> 'w" where
  "newPdhError pf code w = (let (text, w') = pdhFormatError pf code w in (PdhError code text, w'))"

text \<open>\<open>return newPdhError(code)\<close>.\<close>

definition failPdh :: "'w platform \<Rightarrow> u32 \<Rightarrow> ('w, 'a) prog" where
  "failPdh pf code = (\<lambda>w. let (e, w') = newPdhError pf code w in Some (Err e, w'))"

text \<open>
  The text of an error that \<open>panic(err)\<close> shows; the errors that reach a panic here are of
  the first two kinds.
\<close>

fun errorString :: "go_error \<Rightarrow> string" where
  "errorString (ErrorsNew t) = t"
| "errorString (PdhError c t) = t"
| "errorString (Errorf f as e) = f"

definition must :: "('s, 'a) prog \<Rightarrow> ('s, 'a) prog" where
  "must m = bindP (attemptP m) (case_sum (\<lambda>e. panicP (errorString e)) retP)"

record performanceQueryImpl =
  maxBufferSize :: u32
  queryHandle :: pdhQueryHandle

text \<open>An operation on the machine alone, for a query that is held by value.\<close>

type_synonym ('w, 'a) qprog = "(performanceQueryImpl \<times> 'w, 'a) prog"

definition newPerformanceQuery :: "string \<Rightarrow> u32 \<Rightarrow> performanceQueryImpl" where
  "newPerformanceQuery computer maxBuf = \<lparr>maxBufferSize = maxBuf, queryHandle = 0\<rparr>"

definition NewPerformanceQuery :: "u32 \<Rightarrow> performanceQueryImpl" where
  "NewPerformanceQuery maxBuf = newPerformanceQuery '''' maxBuf"

text \<open>A program over the machine, run beside the query object.\<close>

definition withMachine :: "('w, 'a) prog \<Rightarrow> ('w, 'a) qprog" where
  "withMachine p = (\<lambda>(m, w). map_option (\<lambda>(r, w'). (r, (m, w'))) (p w))"

section \<open>Life cycle\<close>

definition Close :: "'w platform \<Rightarrow> ('w, unit) qprog" where
  "Close pf = (\<lambda>(m, w).
     if queryHandle m = 0 then Some (Err errUninitializedQuery, (m, w))
     else let (ret, w1) = pdhCloseQuery pf (queryHandle m) w in
       if ret \<noteq> errorSuccess then withMachine (failPdh pf ret) (m, w1)
       else Some (Ok (), (m\<lparr>queryHandle := 0\<rparr>, w1)))"

definition openHandle :: "'w platform \<Rightarrow> ('w, unit) qprog" where
  "openHandle pf = (\<lambda>(m, w).
     let (ret, handle, w1) = pdhOpenQuery pf 0 0 w in
     if ret \<noteq> errorSuccess then withMachine (failPdh pf ret) (m, w1)
     else Some (Ok (), (m\<lparr>queryHandle := handle\<rparr>, w1)))"

definition Open :: "'w platform \<Rightarrow> ('w, unit) qprog" where
  "Open pf = (\<lambda>(m, w).
     if queryHandle m \<noteq> 0 then seqP (Close pf) (openHandle pf) (m, w)
     else openHandle pf (m, w))"

definition MustNewOpenPerformanceQuery ::
    "'w platform \<Rightarrow> u32 \<Rightarrow> ('w, performanceQueryImpl) prog" where
  "MustNewOpenPerformanceQuery pf maxBuf = (\<lambda>w.
     map_option (\<lambda>(r, (m, w')). (bindR r (\<lambda>_. Ok m), w'))
       (must (Open pf) (NewPerformanceQuery maxBuf, w)))"

definition AddCounterToQuery ::
    "'w platform \<Rightarrow> performanceQueryImpl \<Rightarrow> string \<Rightarrow> ('w, pdhCounterHandle) prog" where
  "AddCounterToQuery pf m counterPath = (\<lambda>w.
     if queryHandle m = 0 then Some (Err errUninitializedQuery, w)
     else let (ret, counterHandle, w1) = pdhAddCounter pf (queryHandle m) counterPath 0 w in
       if ret \<noteq> errorSuccess then failPdh pf ret w1 else Some (Ok counterHandle, w1))"

definition MustAddCounterToQuery ::
    "'w platform \<Rightarrow> performanceQueryImpl \<Rightarrow> string \<Rightarrow> ('w, pdhCounterHandle) prog" where
  "MustAddCounterToQuery pf m counterPath = must (AddCounterToQuery pf m counterPath)"

definition AddEnglishCounterToQuery ::
    "'w platform \<Rightarrow> performanceQueryImpl \<Rightarrow> string \<Rightarrow> ('w, pdhCounterHandle) prog" where
  "AddEnglishCounterToQuery pf m counterPath = (\<lambda>w.
     if queryHandle m = 0 then Some (Err errUninitializedQuery, w)
     else let (ret, counterHandle, w1) = pdhAddEnglishCounter pf (queryHandle m) counterPath 0 w in
       if ret \<noteq> errorSuccess then failPdh pf ret w1 else Some (Ok counterHandle, w1))"

definition CollectData :: "'w platform \<Rightarrow> performanceQueryImpl \<Rightarrow> ('w, unit) prog" where
  "CollectData pf m = (\<lambda>w.
     if queryHandle m = 0 then Some (Err errUninitializedQuery, w)
     else let (ret, w1) = pdhCollectQueryData pf (queryHandle m) w in
       if ret \<noteq> errorSuccess then failPdh pf ret w1 else Some (Ok (), w1))"

text \<open>Both results are returned: the time and the error, if there is one.\<close>

definition CollectDataWithTime ::
    "'w platform \<Rightarrow> performanceQueryImpl \<Rightarrow> ('w, Time \<times> go_error option) prog" where
  "CollectDataWithTime pf m = (\<lambda>w.
     if queryHandle m = 0
     then let (t, w1) = timeNow pf w in Some (Ok (t, Some errUninitializedQuery), w1)
     else case pdhCollectQueryDataWithTime pf (queryHandle m) w of
       (Ok (ret, mtime), w1) \<Rightarrow>
         if ret \<noteq> errorSuccess
         then let (t, w2) = timeNow pf w1; (e, w3) = newPdhError pf ret w2
              in Some (Ok (t, Some e), w3)
         else Some (Ok (mtime, None), w1)
     | (Err e, w1) \<Rightarrow> Some (Err e, w1)
     | (Panic p, w1) \<Rightarrow> Some (Panic p, w1))"

definition IsVistaOrNewer :: "'w platform \<Rightarrow> bool" where
  "IsVistaOrNewer pf = pdhAddEnglishCounterSupported pf"

section \<open>Growing a buffer\<close>

text \<open>
  The loop \<open>for buflen := initialBufferSize; buflen <= m.maxBufferSize; buflen *= 2\<close> that six
  methods share: \<open>width\<close> is the size of a buffer element, \<open>call\<close> the function of \<open>pdh.go\<close>
  (its results are the status, the size it hands back and the item count), \<open>decode\<close> what
  the method makes of a filled buffer. Lengths are 32-bit, so that doubling wraps around;
  taking \<open>&buf[0]\<close> of an empty buffer panics. A run that never ends is \<open>None\<close>.
\<close>

type_synonym 'w pdhCall = "addr \<Rightarrow> u32 \<Rightarrow> 'w \<Rightarrow> u32 \<times> u32 \<times> u32 \<times> 'w"

partial_function (option) bufferLoop ::
    "'w platform \<Rightarrow> nat \<Rightarrow> u32 \<Rightarrow> 'w pdhCall \<Rightarrow> (memory \<Rightarrow> addr \<Rightarrow> u32 \<Rightarrow> u32 \<Rightarrow> 'a result)
     \<Rightarrow> u32 \<Rightarrow> ('w, 'a) prog" where
  "bufferLoop pf width maxBuf call decode buflen w =
     (if buflen \<le> maxBuf then
        if buflen = 0 then Some (Panic ''index out of range'', w)
        else case newObject pf (width * unat buflen) w of (buf, w1) \<Rightarrow>
          (case call buf buflen w1 of (ret, sz, itemCount, w2) \<Rightarrow>
             if ret = errorSuccess then Some (decode (mem pf w2) buf buflen itemCount, w2)
             else if ret \<noteq> pdhMoreData then failPdh pf ret w2
             else bufferLoop pf width maxBuf call decode
                    ((if buflen < sz then sz else buflen) * 2) w2)
      else Some (Err errBufferLimitReached, w))"
section \<open>Reading memory\<close>

text \<open>A field of a structure at \<open>p\<close>, at the offset that the build's declaration gives it.\<close>

definition fieldAddr :: "arch \<Rightarrow> go_type \<Rightarrow> string \<Rightarrow> addr \<Rightarrow> addr" where
  "fieldAddr a t f p = p + of_nat (offsetOf (goABI a) t f)"

definition loadPointer :: "arch \<Rightarrow> memory \<Rightarrow> addr \<Rightarrow> addr" where
  "loadPointer a m p = (if a = I386 then ucast (le32 m p) else le64 m p)"

definition validStatus :: "u32 \<Rightarrow> bool" where
  "validStatus s \<longleftrightarrow> s = pdhCstatusValidData \<or> s = pdhCstatusNewData"

text \<open>
  The items of a filled buffer: a slice of \<open>itemCount\<close> elements of type \<open>item\<close>, whose field
  \<open>sub\<close> is a structure \<open>val\<close> with a status and the value. Items with another status than
  valid or new data are left out. The array type has \<open>1 << 20\<close> elements, so a larger slice
  of it panics.
\<close>

definition itemsOf ::
    "arch \<Rightarrow> go_type \<Rightarrow> string \<Rightarrow> go_type \<Rightarrow> (memory \<Rightarrow> addr \<Rightarrow> 'v)
     \<Rightarrow> memory \<Rightarrow> addr \<Rightarrow> u32 \<Rightarrow> 'v namedValue list result" where
  "itemsOf a item sub val load m buf itemCount =
     (if unat itemCount > 2 ^ 20 then Panic ''slice bounds out of range''
      else let items = map (\<lambda>i. buf + of_nat (i * sizeOf (goABI a) item)) [0..<unat itemCount] in
        Ok (map (\<lambda>p. \<lparr>Name = utf16PtrToString m (loadPointer a m (fieldAddr a item ''SzName'' p)),
                       Value = load m (fieldAddr a item sub p)\<rparr>)
             (filter (\<lambda>p. validStatus (le32 m (fieldAddr a val ''CStatus'' (fieldAddr a item sub p))))
                items)))"

definition loadLong :: "arch \<Rightarrow> memory \<Rightarrow> addr \<Rightarrow> u32" where
  "loadLong a m p = le32 m (fieldAddr a (pdhFmtCounterValueLong a) ''LongValue'' p)"

definition loadLarge :: "arch \<Rightarrow> memory \<Rightarrow> addr \<Rightarrow> u64" where
  "loadLarge a m p = le64 m (fieldAddr a (pdhFmtCounterValueLarge a) ''LargeValue'' p)"

definition loadDouble :: "arch \<Rightarrow> memory \<Rightarrow> addr \<Rightarrow> u64" where
  "loadDouble a m p = le64 m (fieldAddr a (pdhFmtCounterValueDouble a) ''DoubleValue'' p)"

definition loadFirst :: "arch \<Rightarrow> memory \<Rightarrow> addr \<Rightarrow> u64" where
  "loadFirst a m p = le64 m (fieldAddr a (pdhRawCounter a) ''FirstValue'' p)"

section \<open>Paths\<close>

definition GetCounterPath ::
    "'w platform \<Rightarrow> performanceQueryImpl \<Rightarrow> pdhCounterHandle \<Rightarrow> ('w, string) prog" where
  "GetCounterPath pf m counterHandle =
     bufferLoop pf 1 (maxBufferSize m)
       (\<lambda>buf sz w. let (ret, sz', w') = pdhGetCounterInfo pf counterHandle 0 sz buf w
                   in (ret, sz', 0, w'))
       (\<lambda>mem buf buflen _. Ok (utf16PtrToString mem
          (loadPointer (build pf) mem
             (fieldAddr (build pf) (pdhCounterInfo (build pf)) ''SzFullPath'' buf))))
       initialBufferSize"

definition ExpandWildCardPath ::
    "'w platform \<Rightarrow> performanceQueryImpl \<Rightarrow> string \<Rightarrow> ('w, string list) prog" where
  "ExpandWildCardPath pf m counterPath =
     bufferLoop pf 2 (maxBufferSize m)
       (\<lambda>buf sz w. let (ret, sz', w') = pdhExpandWildCardPath pf counterPath buf sz w
                   in (ret, sz', 0, w'))
       (\<lambda>mem buf buflen _. utf16ToStringArray mem buf (unat buflen))
       initialBufferSize"

section \<open>Single values\<close>

text \<open>A variable of the structure type is allocated, filled by the call and inspected.\<close>

definition singleValue ::
    "'w platform \<Rightarrow> go_type \<Rightarrow> (addr \<Rightarrow> 'w \<Rightarrow> u32 \<times> 'w) \<Rightarrow> (memory \<Rightarrow> addr \<Rightarrow> 'v) \<Rightarrow> ('w, 'v) prog" where
  "singleValue pf val call load = (\<lambda>w.
     let (pValue, w1) = newObject pf (sizeOf (goABI (build pf)) val) w;
         (ret, w2) = call pValue w1
     in if ret \<noteq> errorSuccess then failPdh pf ret w2
        else let cStatus = le32 (mem pf w2) (fieldAddr (build pf) val ''CStatus'' pValue) in
          if validStatus cStatus then Some (Ok (load (mem pf w2) pValue), w2)
          else failPdh pf cStatus w2)"

definition GetFormattedCounterValueLong ::
    "'w platform \<Rightarrow> performanceQueryImpl \<Rightarrow> pdhCounterHandle \<Rightarrow> ('w, u32) prog" where
  "GetFormattedCounterValueLong pf m hCounter =
     singleValue pf (pdhFmtCounterValueLong (build pf))
       (pdhGetFormattedCounterValueLong pf hCounter) (loadLong (build pf))"

definition GetFormattedCounterValueLarge ::
    "'w platform \<Rightarrow> performanceQueryImpl \<Rightarrow> pdhCounterHandle \<Rightarrow> ('w, u64) prog" where
  "GetFormattedCounterValueLarge pf m hCounter =
     singleValue pf (pdhFmtCounterValueLarge (build pf))
       (pdhGetFormattedCounterValueLarge pf hCounter) (loadLarge (build pf))"

definition GetFormattedCounterValueDouble ::
    "'w platform \<Rightarrow> performanceQueryImpl \<Rightarrow> pdhCounterHandle \<Rightarrow> ('w, u64) prog" where
  "GetFormattedCounterValueDouble pf m hCounter =
     singleValue pf (pdhFmtCounterValueDouble (build pf))
       (pdhGetFormattedCounterValueDouble pf hCounter) (loadDouble (build pf))"

definition GetRawCounterValue ::
    "'w platform \<Rightarrow> performanceQueryImpl \<Rightarrow> pdhCounterHandle \<Rightarrow> ('w, u64) prog" where
  "GetRawCounterValue pf m hCounter =
     (if queryHandle m = 0 then failP errUninitializedQuery
      else singleValue pf (pdhRawCounter (build pf))
             (pdhGetRawCounterValue pf hCounter) (loadFirst (build pf)))"

section \<open>Arrays of values\<close>

definition GetFormattedCounterArrayLong ::
    "'w platform \<Rightarrow> performanceQueryImpl \<Rightarrow> pdhCounterHandle \<Rightarrow> ('w, longValue list) prog" where
  "GetFormattedCounterArrayLong pf m hCounter =
     bufferLoop pf 1 (maxBufferSize m)
       (\<lambda>buf sz w. pdhGetFormattedCounterArrayLong pf hCounter sz 0 buf w)
       (\<lambda>mem buf buflen itemCount.
          itemsOf (build pf) (pdhFmtCounterValueItemLong (build pf)) ''FmtValue''
            (pdhFmtCounterValueLong (build pf)) (loadLong (build pf)) mem buf itemCount)
       initialBufferSize"

definition GetFormattedCounterArrayLarge ::
    "'w platform \<Rightarrow> performanceQueryImpl \<Rightarrow> pdhCounterHandle \<Rightarrow> ('w, largeValue list) prog" where
  "GetFormattedCounterArrayLarge pf m hCounter =
     bufferLoop pf 1 (maxBufferSize m)
       (\<lambda>buf sz w. pdhGetFormattedCounterArrayLarge pf hCounter sz 0 buf w)
       (\<lambda>mem buf buflen itemCount.
          itemsOf (build pf) (pdhFmtCounterValueItemLarge (build pf)) ''FmtValue''
            (pdhFmtCounterValueLarge (build pf)) (loadLarge (build pf)) mem buf itemCount)
       initialBufferSize"

definition GetFormattedCounterArrayDouble ::
    "'w platform \<Rightarrow> performanceQueryImpl \<Rightarrow> pdhCounterHandle \<Rightarrow> ('w, doubleValue list) prog" where
  "GetFormattedCounterArrayDouble pf m hCounter =
     bufferLoop pf 1 (maxBufferSize m)
       (\<lambda>buf sz w. pdhGetFormattedCounterArrayDouble pf hCounter sz 0 buf w)
       (\<lambda>mem buf buflen itemCount.
          itemsOf (build pf) (pdhFmtCounterValueItemDouble (build pf)) ''FmtValue''
            (pdhFmtCounterValueDouble (build pf)) (loadDouble (build pf)) mem buf itemCount)
       initialBufferSize"

definition GetRawCounterArray ::
    "'w platform \<Rightarrow> performanceQueryImpl \<Rightarrow> pdhCounterHandle \<Rightarrow> ('w, counterValue list) prog" where
  "GetRawCounterArray pf m hCounter =
     bufferLoop pf 1 (maxBufferSize m)
       (\<lambda>buf sz w. pdhGetRawCounterArray pf hCounter sz 0 buf w)
       (\<lambda>mem buf buflen itemCount.
          itemsOf (build pf) (pdhRawCounterItem (build pf)) ''RawValue''
            (pdhRawCounter (build pf)) (\<lambda>mem p. IntValue (loadFirst (build pf) mem p))
            mem buf itemCount)
       initialBufferSize"

end
