(* ===== verification/CounterPath.thy ===== *)
theory CounterPath
  imports Prelude
begin

text \<open>
  Counter paths (\<open>utils.go\<close>): \<open>formatPath\<close> prints the path of a computer, object, instance
  and counter; \<open>extractCounterInfoFromCounterPath\<close> reads one back with a single scan from
  the right that tracks the nesting of brackets. The lemmas show that the scan keeps its
  border indices ordered, so that no slice of the path is ever out of range, and that
  reading undoes printing.
\<close>

section \<open>Definitions\<close>

text \<open>The backslash character.\<close>

abbreviation bs :: char where
  "bs \<equiv> CHR 0x5C"

definition emptyInstance :: string where
  "emptyInstance = ''------''"

definition formatPath :: "string \<Rightarrow> string \<Rightarrow> string \<Rightarrow> string \<Rightarrow> string" where
  "formatPath computer objectName inst ctr =
     (let path = (if inst = emptyInstance
                  then [bs] @ objectName @ [bs] @ ctr
                  else [bs] @ objectName @ ''('' @ inst @ '')'' @ [bs] @ ctr)
      in if computer \<noteq> '''' \<and> computer \<noteq> ''localhost''
         then [bs, bs] @ computer @ path
         else path)"

text \<open>The local variables of the scanning loop; an index is \<open>- 1\<close> until it is found.\<close>

record borders =
  leftComputerBorderIndex :: int
  rightObjectBorderIndex :: int
  leftObjectBorderIndex :: int
  leftCounterBorderIndex :: int
  rightInstanceBorderIndex :: int
  leftInstanceBorderIndex :: int
  bracketLevel :: int

definition noBorders :: borders where
  "noBorders = \<lparr>leftComputerBorderIndex = - 1, rightObjectBorderIndex = - 1,
     leftObjectBorderIndex = - 1, leftCounterBorderIndex = - 1,
     rightInstanceBorderIndex = - 1, leftInstanceBorderIndex = - 1, bracketLevel = 0\<rparr>"

text \<open>The loop body, on the byte \<open>c\<close> at index \<open>i\<close>.\<close>

definition scanByte :: "char \<Rightarrow> int \<Rightarrow> borders \<Rightarrow> borders" where
  "scanByte c i b =
     (if c = bs then
        (if bracketLevel b = 0 then
           if leftCounterBorderIndex b = - 1 then b\<lparr>leftCounterBorderIndex := i\<rparr>
           else if leftObjectBorderIndex b = - 1 then b\<lparr>leftObjectBorderIndex := i\<rparr>
           else if leftComputerBorderIndex b = - 1 then b\<lparr>leftComputerBorderIndex := i\<rparr>
           else b
         else b)
      else if c = CHR ''('' then
        (let b' = b\<lparr>bracketLevel := bracketLevel b - 1\<rparr> in
         if leftInstanceBorderIndex b' = - 1 \<and> bracketLevel b' = 0
            \<and> leftObjectBorderIndex b' = - 1 \<and> leftCounterBorderIndex b' > - 1
         then b'\<lparr>leftInstanceBorderIndex := i, rightObjectBorderIndex := i\<rparr>
         else b')
      else if c = CHR '')'' then
        (let b' = (if rightInstanceBorderIndex b = - 1 \<and> bracketLevel b = 0
                      \<and> leftCounterBorderIndex b > - 1
                   then b\<lparr>rightInstanceBorderIndex := i\<rparr> else b)
         in b'\<lparr>bracketLevel := bracketLevel b' + 1\<rparr>)
      else b)"

text \<open>
  The loop \<open>for i := len(counterPath) - 1; i >= 0; i--\<close>: the bytes of the string that
  starts at index \<open>i\<close> are visited from the last to the first.
\<close>

fun scanBorders :: "string \<Rightarrow> int \<Rightarrow> borders \<Rightarrow> borders" where
  "scanBorders [] i b = b"
| "scanBorders (c # cs) i b = scanByte c i (scanBorders cs (i + 1) b)"

definition extractCounterInfoFromCounterPath ::
    "string \<Rightarrow> (string \<times> string \<times> string \<times> string) result" where
  "extractCounterInfoFromCounterPath counterPath =
     (let b = scanBorders counterPath 0 noBorders;
          rightObject = (if rightObjectBorderIndex b = - 1 then leftCounterBorderIndex b
                         else rightObjectBorderIndex b)
      in if rightObject = - 1 \<or> leftObjectBorderIndex b = - 1
         then Err (ErrorsNew (''cannot parse object from: '' @ counterPath))
         else bindR
           (if leftComputerBorderIndex b > - 1
            then if leftComputerBorderIndex b \<noteq> 1
                    \<or> leftComputerBorderIndex b = leftObjectBorderIndex b - 1
                 then Err (ErrorsNew (''cannot parse computer from: '' @ counterPath))
                 else slice counterPath (leftComputerBorderIndex b + 1) (leftObjectBorderIndex b)
            else Ok '''')
         (\<lambda>computer. bindR
           (if leftInstanceBorderIndex b > - 1 \<and> rightInstanceBorderIndex b > - 1
            then slice counterPath (leftInstanceBorderIndex b + 1) (rightInstanceBorderIndex b)
            else if (leftInstanceBorderIndex b = - 1 \<and> rightInstanceBorderIndex b > - 1)
                  \<or> (leftInstanceBorderIndex b > - 1 \<and> rightInstanceBorderIndex b = - 1)
            then Err (ErrorsNew (''cannot parse instance from: '' @ counterPath))
            else Ok '''')
         (\<lambda>inst. bindR
           (slice counterPath (leftObjectBorderIndex b + 1) rightObject)
         (\<lambda>object. bindR
           (slice counterPath (leftCounterBorderIndex b + 1) (int (length counterPath)))
         (\<lambda>ctr. Ok (computer, object, inst, ctr))))))"

section \<open>What a printable name is\<close>

text \<open>
  Bracket nesting seen from the right, as the scan sees it. \<open>nesting ok t\<close> is the depth
  reached at the left end of \<open>t\<close>, and \<open>None\<close> when a bracket closes nothing or a
  backslash stands outside all brackets (unless \<open>ok\<close> allows it).
\<close>

fun nesting :: "bool \<Rightarrow> string \<Rightarrow> nat option" where
  "nesting ok [] = Some 0"
| "nesting ok (c # cs) = (case nesting ok cs of None \<Rightarrow> None | Some k \<Rightarrow>
     if c = bs then (if k = 0 \<and> \<not> ok then None else Some k)
     else if c = CHR ''('' then (if k = 0 then None else Some (k - 1))
     else if c = CHR '')'' then Some (Suc k)
     else Some k)"

text \<open>
  A closed name has balanced brackets and no backslash outside them; a bracketed name has
  balanced brackets and any backslash; a plain one has neither bracket nor backslash.
\<close>

definition closedName :: "string \<Rightarrow> bool" where
  "closedName t \<longleftrightarrow> nesting False t = Some 0"

definition bracketedName :: "string \<Rightarrow> bool" where
  "bracketedName t \<longleftrightarrow> nesting True t = Some 0"

definition plainName :: "string \<Rightarrow> bool" where
  "plainName t \<longleftrightarrow> bs \<notin> set t \<and> CHR ''('' \<notin> set t \<and> CHR '')'' \<notin> set t"

section \<open>The scan on each part of a path\<close>

lemma scanBorders_append:
  "scanBorders (xs @ ys) i b = scanBorders xs i (scanBorders ys (i + int (length xs)) b)"
  by (induction xs arbitrary: i) (auto simp: algebra_simps)

lemma scan_plain: "plainName t \<Longrightarrow> scanBorders t i b = b"
  by (induction t arbitrary: i) (auto simp: plainName_def scanByte_def)

lemma plain_closed: "plainName t \<Longrightarrow> closedName t"
proof -
  have "plainName t \<Longrightarrow> nesting ok t = Some 0" for ok
    by (induction t) (auto simp: plainName_def)
  then show "plainName t \<Longrightarrow> closedName t" by (simp add: closedName_def)
qed

text \<open>Bytes that only move the depth.\<close>

lemma scanByte_other:
  "c \<noteq> bs \<Longrightarrow> c \<noteq> CHR ''('' \<Longrightarrow> c \<noteq> CHR '')'' \<Longrightarrow> scanByte c i b = b"
  by (simp add: scanByte_def)

lemma scanByte_nested_bs: "bracketLevel b \<noteq> 0 \<Longrightarrow> scanByte bs i b = b"
  by (simp add: scanByte_def)

lemma scanByte_open:
  "leftInstanceBorderIndex b \<noteq> - 1 \<or> bracketLevel b \<noteq> 1 \<or> leftCounterBorderIndex b = - 1 \<Longrightarrow>
   scanByte (CHR ''('') i b = b\<lparr>bracketLevel := bracketLevel b - 1\<rparr>"
  by (auto simp: scanByte_def Let_def)

lemma scanByte_close:
  "rightInstanceBorderIndex b \<noteq> - 1 \<or> leftCounterBorderIndex b = - 1 \<Longrightarrow>
   scanByte (CHR '')'') i b = b\<lparr>bracketLevel := bracketLevel b + 1\<rparr>"
  by (auto simp: scanByte_def Let_def)

lemma nesting_Cons_cases:
  assumes "nesting ok (c # t) = Some k"
  obtains (Slash) j where "nesting ok t = Some j" "c = bs" "k = j" "j \<noteq> 0 \<or> ok"
    | (Open) j where "nesting ok t = Some j" "c = CHR ''(''" "j \<noteq> 0" "int k = int j - 1"
    | (Close) j where "nesting ok t = Some j" "c = CHR '')''" "k = Suc j"
    | (Other) "nesting ok t = Some k" "c \<noteq> bs" "c \<noteq> CHR ''(''" "c \<noteq> CHR '')''"
  using assms by (auto split: option.splits if_splits)

text \<open>
  Outside the instance brackets only the depth changes: in the counter name no border is
  known yet, and in the object name both instance borders are.
\<close>

lemma scan_nesting:
  assumes "nesting False t = Some k" and "bracketLevel b = 0"
    and "leftCounterBorderIndex b = - 1
         \<or> rightInstanceBorderIndex b \<noteq> - 1 \<and> leftInstanceBorderIndex b \<noteq> - 1"
  shows "scanBorders t i b = b\<lparr>bracketLevel := int k\<rparr>"
  using assms
proof (induction t arbitrary: i k)
  case Nil
  then show ?case by simp
next
  case (Cons c t)
  note IH = Cons.IH [OF _ Cons.prems(2,3)]
  from Cons.prems(1) show ?case
  proof (cases rule: nesting_Cons_cases)
    case (Slash j)
    with IH [of j "i + 1"] show ?thesis
      by (simp add: scanByte_nested_bs)
  next
    case (Open j)
    with IH [of j "i + 1"] Cons.prems(2,3) show ?thesis
      by (subst scanBorders.simps, simp, subst scanByte_open) auto
  next
    case (Close j)
    with IH [of j "i + 1"] Cons.prems(2,3) show ?thesis
      by (subst scanBorders.simps, simp, subst scanByte_close) auto
  next
    case Other
    with IH [of k "i + 1"] show ?thesis by (simp add: scanByte_other)
  qed
qed

lemma scan_closed:
  assumes "closedName t" and "bracketLevel b = 0"
    and "leftCounterBorderIndex b = - 1
         \<or> rightInstanceBorderIndex b \<noteq> - 1 \<and> leftInstanceBorderIndex b \<noteq> - 1"
  shows "scanBorders t i b = b"
  using scan_nesting [of t 0 b i] assms by (simp add: closedName_def)

text \<open>Inside the instance brackets, at depth one or more, nothing but the depth changes.\<close>

lemma scan_bracketed_nesting:
  assumes "nesting True t = Some k" and "bracketLevel b = 1"
    and "rightInstanceBorderIndex b \<noteq> - 1"
  shows "scanBorders t i b = b\<lparr>bracketLevel := 1 + int k\<rparr>"
  using assms
proof (induction t arbitrary: i k)
  case Nil
  then show ?case by simp
next
  case (Cons c t)
  note IH = Cons.IH [OF _ Cons.prems(2,3)]
  from Cons.prems(1) show ?case
  proof (cases rule: nesting_Cons_cases)
    case (Slash j)
    with IH [of j "i + 1"] show ?thesis
      by (simp add: scanByte_nested_bs)
  next
    case (Open j)
    with IH [of j "i + 1"] Cons.prems(2,3) show ?thesis
      by (subst scanBorders.simps, simp, subst scanByte_open) auto
  next
    case (Close j)
    with IH [of j "i + 1"] Cons.prems(2,3) show ?thesis
      by (subst scanBorders.simps, simp, subst scanByte_close) auto
  next
    case Other
    with IH [of k "i + 1"] show ?thesis by (simp add: scanByte_other)
  qed
qed

lemma scan_bracketed:
  assumes "bracketedName t" and "bracketLevel b = 1" and "rightInstanceBorderIndex b \<noteq> - 1"
  shows "scanBorders t i b = b"
  using scan_bracketed_nesting [of t 0 b i] assms by (simp add: bracketedName_def)

section \<open>Reading undoes printing\<close>

text \<open>The borders found in the local part of a path that starts at index \<open>k\<close>.\<close>

lemma scan_local_instance:
  assumes "0 \<le> k" and "closedName obj" and "bracketedName inst" and "closedName ctr"
  defines "l \<equiv> k + 1 + int (length obj)"
  shows "scanBorders ([bs] @ obj @ ''('' @ inst @ '')'' @ [bs] @ ctr) k noBorders =
    \<lparr>leftComputerBorderIndex = - 1, rightObjectBorderIndex = l, leftObjectBorderIndex = k,
     leftCounterBorderIndex = l + int (length inst) + 2,
     rightInstanceBorderIndex = l + int (length inst) + 1, leftInstanceBorderIndex = l,
     bracketLevel = 0\<rparr>"
  using assms
  by (simp add: scanBorders_append scan_closed [of ctr] scan_bracketed [of inst]
      scan_closed [of obj] scanByte_def noBorders_def Let_def algebra_simps)

lemma scan_local_single:
  assumes "0 \<le> k" and "plainName obj" and "closedName ctr"
  shows "scanBorders ([bs] @ obj @ [bs] @ ctr) k noBorders =
    \<lparr>leftComputerBorderIndex = - 1, rightObjectBorderIndex = - 1, leftObjectBorderIndex = k,
     leftCounterBorderIndex = k + 1 + int (length obj),
     rightInstanceBorderIndex = - 1, leftInstanceBorderIndex = - 1, bracketLevel = 0\<rparr>"
  using assms
  by (simp add: scanBorders_append scan_closed [of ctr] scan_plain [of obj]
      scanByte_def noBorders_def algebra_simps)

lemma scan_computer:
  assumes "plainName c" and "c \<noteq> []" and "0 \<le> leftObjectBorderIndex b"
    and "b = scanBorders p (2 + int (length c)) noBorders"
    and "leftCounterBorderIndex b \<noteq> - 1" and "leftComputerBorderIndex b = - 1"
    and "bracketLevel b = 0" and "x \<noteq> CHR ''(''" and "x \<noteq> CHR '')''"
  shows "scanBorders ([x, bs] @ c @ p) 0 noBorders = b\<lparr>leftComputerBorderIndex := 1\<rparr>"
  using assms by (simp add: scanBorders_append scan_plain [of c] scanByte_def add.commute)

lemma slice_at:
  "s = xs @ ys @ zs \<Longrightarrow> lo = int (length xs) \<Longrightarrow> hi = lo + int (length ys) \<Longrightarrow> slice s lo hi = Ok ys"
  using slice_append [of xs ys zs] by simp

text \<open>From borders that sit where the parts of the path meet, the parts are read back.\<close>

lemma extract_parts:
  assumes p: "p = pre @ [bs] @ obj @ mid @ [bs] @ ctr"
    and b: "scanBorders p 0 noBorders = b"
    and obj: "leftObjectBorderIndex b = int (length pre)"
    and ctr: "leftCounterBorderIndex b = int (length pre + 1 + length obj + length mid)"
    and host: "pre = [] \<and> host = [] \<and> leftComputerBorderIndex b = - 1
      \<or> pre = [x, bs] @ host \<and> host \<noteq> [] \<and> leftComputerBorderIndex b = 1"
    and inst: "mid = [] \<and> inst = [] \<and> rightObjectBorderIndex b = - 1
        \<and> leftInstanceBorderIndex b = - 1 \<and> rightInstanceBorderIndex b = - 1
      \<or> mid = ''('' @ inst @ '')'' \<and> rightObjectBorderIndex b = int (length pre + 1 + length obj)
        \<and> leftInstanceBorderIndex b = rightObjectBorderIndex b
        \<and> rightInstanceBorderIndex b = rightObjectBorderIndex b + 1 + int (length inst)"
  shows "extractCounterInfoFromCounterPath p = Ok (host, obj, inst, ctr)"
proof -
  have o: "slice p (leftObjectBorderIndex b + 1) (int (length pre + 1 + length obj)) = Ok obj"
    by (rule slice_at [of _ "pre @ [bs]" _ "mid @ [bs] @ ctr"]) (auto simp: p obj)
  have n: "slice p (leftCounterBorderIndex b + 1) (int (length p)) = Ok ctr"
    by (rule slice_at [of _ "pre @ [bs] @ obj @ mid @ [bs]" _ "[]"]) (auto simp: p ctr)
  have c: "slice p 2 (leftObjectBorderIndex b) = Ok host" if "pre = [x, bs] @ host"
    by (rule slice_at [of _ "[x, bs]" _ "[bs] @ obj @ mid @ [bs] @ ctr"])
       (use that in \<open>auto simp: p obj\<close>)
  have i: "slice p (leftInstanceBorderIndex b + 1) (rightInstanceBorderIndex b) = Ok inst"
    if "mid = ''('' @ inst @ '')''"
    by (rule slice_at [of _ "pre @ [bs] @ obj @ ''(''" _ "'')'' @ [bs] @ ctr"])
       (use that inst in \<open>auto simp: p\<close>)
  have R: "(if rightObjectBorderIndex b = - 1 then leftCounterBorderIndex b
            else rightObjectBorderIndex b) = int (length pre + 1 + length obj)"
    using inst by (auto simp: ctr)
  have C: "(if leftComputerBorderIndex b > - 1
            then if leftComputerBorderIndex b \<noteq> 1
                    \<or> leftComputerBorderIndex b = leftObjectBorderIndex b - 1
                 then Err (ErrorsNew (''cannot parse computer from: '' @ p))
                 else slice p (leftComputerBorderIndex b + 1) (leftObjectBorderIndex b)
            else Ok '''') = Ok host"
    using host
  proof (elim disjE conjE)
    assume "pre = [x, bs] @ host" "host \<noteq> []" "leftComputerBorderIndex b = 1"
    with c obj show ?thesis by (cases host) simp_all
  qed simp
  have I: "(if leftInstanceBorderIndex b > - 1 \<and> rightInstanceBorderIndex b > - 1
            then slice p (leftInstanceBorderIndex b + 1) (rightInstanceBorderIndex b)
            else if (leftInstanceBorderIndex b = - 1 \<and> rightInstanceBorderIndex b > - 1)
                  \<or> (leftInstanceBorderIndex b > - 1 \<and> rightInstanceBorderIndex b = - 1)
            then Err (ErrorsNew (''cannot parse instance from: '' @ p))
            else Ok '''') = Ok inst"
    using inst
  proof (elim disjE conjE)
    assume "mid = ''('' @ inst @ '')''"
      "rightObjectBorderIndex b = int (length pre + 1 + length obj)"
      "leftInstanceBorderIndex b = rightObjectBorderIndex b"
      "rightInstanceBorderIndex b = rightObjectBorderIndex b + 1 + int (length inst)"
    with i show ?thesis by simp
  qed simp
  show ?thesis
    unfolding extractCounterInfoFromCounterPath_def Let_def b R C I bindR.simps o n
    by (simp add: obj)
qed

text \<open>The names \<open>formatPath\<close> may be given so that its output can be read back.\<close>

definition printable :: "string \<Rightarrow> string \<Rightarrow> string \<Rightarrow> string \<Rightarrow> bool" where
  "printable computer obj inst ctr \<longleftrightarrow>
     plainName computer \<and> closedName ctr
     \<and> (if inst = emptyInstance then plainName obj
        else closedName obj \<and> bracketedName inst)"

abbreviation isLocal :: "string \<Rightarrow> bool" where
  "isLocal computer \<equiv> computer = '''' \<or> computer = ''localhost''"

text \<open>The two parts of a printed path; \<open>x\<close> is its first byte, a backslash when printed.\<close>

definition localPath :: "string \<Rightarrow> string \<Rightarrow> string \<Rightarrow> string" where
  "localPath obj inst ctr =
     [bs] @ obj @ (if inst = emptyInstance then [] else ''('' @ inst @ '')'') @ [bs] @ ctr"

definition computerPrefix :: "char \<Rightarrow> string \<Rightarrow> string" where
  "computerPrefix x computer = (if isLocal computer then [] else [x, bs] @ computer)"

lemma formatPath_split:
  "formatPath computer obj inst ctr = computerPrefix bs computer @ localPath obj inst ctr"
  by (simp add: formatPath_def computerPrefix_def localPath_def)

lemma extract_prefixed:
  assumes "printable computer obj inst ctr" and "x \<noteq> CHR ''(''" and "x \<noteq> CHR '')''"
  shows "extractCounterInfoFromCounterPath (computerPrefix x computer @ localPath obj inst ctr) =
         Ok (if isLocal computer then '''' else computer, obj,
             if inst = emptyInstance then '''' else inst, ctr)"
proof -
  define mid where "mid = (if inst = emptyInstance then [] else ''('' @ inst @ '')'')"
  define pre where "pre = computerPrefix x computer"
  define loc where "loc = [bs] @ obj @ mid @ [bs] @ ctr"
  define l where "l = scanBorders loc (int (length pre)) noBorders"
  have l: "leftObjectBorderIndex l = int (length pre)"
    "leftComputerBorderIndex l = - 1" "bracketLevel l = 0"
    "leftCounterBorderIndex l = int (length pre + 1 + length obj + length mid)"
    and single: "inst = emptyInstance \<Longrightarrow> rightObjectBorderIndex l = - 1
       \<and> leftInstanceBorderIndex l = - 1 \<and> rightInstanceBorderIndex l = - 1"
    and multi: "inst \<noteq> emptyInstance \<Longrightarrow> rightObjectBorderIndex l = int (length pre + 1 + length obj)
       \<and> leftInstanceBorderIndex l = rightObjectBorderIndex l
       \<and> rightInstanceBorderIndex l = rightObjectBorderIndex l + 1 + int (length inst)"
    using scan_local_instance [of "int (length pre)" obj inst ctr]
      scan_local_single [of "int (length pre)" obj ctr] assms
    by (auto simp: printable_def l_def loc_def mid_def split: if_splits)
  have full: "scanBorders (pre @ loc) 0 noBorders =
      (if isLocal computer then l else l\<lparr>leftComputerBorderIndex := 1\<rparr>)"
  proof (cases "isLocal computer")
    case True
    then show ?thesis by (auto simp: l_def pre_def computerPrefix_def)
  next
    case False
    then have "scanBorders ([x, bs] @ computer @ loc) 0 noBorders = l\<lparr>leftComputerBorderIndex := 1\<rparr>"
      by (intro scan_computer)
         (use l assms in \<open>simp_all add: printable_def l_def pre_def computerPrefix_def add.commute\<close>)
    with False show ?thesis by (simp add: pre_def computerPrefix_def)
  qed
  have "localPath obj inst ctr = loc"
    by (simp add: localPath_def loc_def mid_def)
  moreover have "extractCounterInfoFromCounterPath (pre @ loc) =
      Ok (if isLocal computer then '''' else computer, obj,
          if inst = emptyInstance then '''' else inst, ctr)"
  proof (rule extract_parts [where pre = pre and mid = mid and x = x, OF _ full])
    show "pre @ loc = pre @ [bs] @ obj @ mid @ [bs] @ ctr" by (simp add: loc_def)
  qed (use l single multi in \<open>simp_all add: pre_def computerPrefix_def mid_def\<close>)
  ultimately show ?thesis by (simp add: pre_def)
qed

section \<open>The borders stay ordered\<close>

text \<open>
  The invariant of the scan once it has reached index \<open>i\<close> of a path of \<open>n\<close> bytes. A known
  border lies between \<open>i\<close> and \<open>n\<close>; the borders are found in the order counter, object,
  computer; the instance's right border is found before its left one, because until it is
  found the depth left of the counter border is not positive.
\<close>

definition index_at :: "int \<Rightarrow> int \<Rightarrow> int \<Rightarrow> bool" where
  "index_at n i x \<longleftrightarrow> x = - 1 \<or> i \<le> x \<and> x < n"

definition borders_inv :: "int \<Rightarrow> int \<Rightarrow> borders \<Rightarrow> bool" where
  "borders_inv n i b \<longleftrightarrow>
     index_at n i (leftCounterBorderIndex b) \<and> index_at n i (leftObjectBorderIndex b)
     \<and> index_at n i (leftComputerBorderIndex b) \<and> index_at n i (rightInstanceBorderIndex b)
     \<and> index_at n i (leftInstanceBorderIndex b)
     \<and> rightObjectBorderIndex b = leftInstanceBorderIndex b
     \<and> (leftObjectBorderIndex b \<noteq> - 1 \<longrightarrow>
          leftCounterBorderIndex b \<noteq> - 1 \<and> leftObjectBorderIndex b < leftCounterBorderIndex b)
     \<and> (leftComputerBorderIndex b \<noteq> - 1 \<longrightarrow>
          leftObjectBorderIndex b \<noteq> - 1 \<and> leftComputerBorderIndex b < leftObjectBorderIndex b)
     \<and> (leftInstanceBorderIndex b \<noteq> - 1 \<longrightarrow>
          rightInstanceBorderIndex b \<noteq> - 1 \<and> leftInstanceBorderIndex b < rightInstanceBorderIndex b
          \<and> leftObjectBorderIndex b < leftInstanceBorderIndex b)
     \<and> (rightInstanceBorderIndex b \<noteq> - 1 \<longrightarrow>
          leftCounterBorderIndex b \<noteq> - 1 \<and> rightInstanceBorderIndex b < leftCounterBorderIndex b)
     \<and> (leftCounterBorderIndex b \<noteq> - 1 \<longrightarrow> rightInstanceBorderIndex b = - 1 \<longrightarrow>
          bracketLevel b \<le> 0)"

lemma borders_inv_start: "borders_inv n n noBorders"
  by (simp add: borders_inv_def index_at_def noBorders_def)

lemma index_at_weaken: "index_at n (i + 1) x \<Longrightarrow> index_at n i x"
  by (auto simp: index_at_def)

lemma index_at_here: "0 \<le> i \<Longrightarrow> i < n \<Longrightarrow> index_at n i i"
  by (simp add: index_at_def)

lemma index_at_less: "index_at n (i + 1) x \<Longrightarrow> x \<noteq> - 1 \<Longrightarrow> i < x"
  by (auto simp: index_at_def)

lemmas border_steps = index_at_weaken index_at_here index_at_less

lemma borders_inv_weaken: "borders_inv n (i + 1) b \<Longrightarrow> borders_inv n i b"
  by (simp add: borders_inv_def border_steps)

lemma borders_inv_level:
  "borders_inv n (i + 1) b \<Longrightarrow>
   (leftCounterBorderIndex b \<noteq> - 1 \<Longrightarrow> rightInstanceBorderIndex b = - 1 \<Longrightarrow> l \<le> 0) \<Longrightarrow>
   borders_inv n i (b\<lparr>bracketLevel := l\<rparr>)"
  by (simp add: borders_inv_def border_steps)

lemma borders_inv_depth:
  "borders_inv n i b \<Longrightarrow> leftCounterBorderIndex b \<noteq> - 1 \<Longrightarrow> rightInstanceBorderIndex b = - 1 \<Longrightarrow>
   bracketLevel b \<le> 0"
  by (simp add: borders_inv_def)

lemma scanByte_inv_slash:
  assumes "borders_inv n (i + 1) b" "0 \<le> i" "i < n" "bracketLevel b = 0"
  shows "borders_inv n i (scanByte bs i b)"
proof -
  consider (Counter) "leftCounterBorderIndex b = - 1" | (Object) "leftCounterBorderIndex b \<noteq> - 1" "leftObjectBorderIndex b = - 1"
    | (Computer) "leftCounterBorderIndex b \<noteq> - 1" "leftObjectBorderIndex b \<noteq> - 1"
    by blast
  then show ?thesis
  proof cases
    case Counter
    with assms show ?thesis
      unfolding borders_inv_def by (elim conjE) (simp add: scanByte_def index_at_weaken [of n i] index_at_here [of i n] index_at_less [of n i])
  next
    case Object
    with assms show ?thesis
      unfolding borders_inv_def by (elim conjE) (simp add: scanByte_def index_at_weaken [of n i] index_at_here [of i n] index_at_less [of n i])
  next
    case Computer
    with assms show ?thesis
      unfolding borders_inv_def by (elim conjE) (simp add: scanByte_def index_at_weaken [of n i] index_at_here [of i n] index_at_less [of n i])
  qed
qed

lemma scanByte_inv_open:
  assumes "borders_inv n (i + 1) b" "0 \<le> i" "i < n"
  shows "borders_inv n i (scanByte (CHR ''('') i b)"
proof (cases "leftInstanceBorderIndex b = - 1 \<and> bracketLevel b = 1 \<and> leftObjectBorderIndex b = - 1
    \<and> leftCounterBorderIndex b > - 1")
  case True
  then have "rightInstanceBorderIndex b \<noteq> - 1"
    using assms(1) by (simp add: borders_inv_def)
  with True assms show ?thesis
    unfolding borders_inv_def by (elim conjE) (simp add: scanByte_def Let_def index_at_weaken [of n i] index_at_here [of i n] index_at_less [of n i])
next
  case False
  then have eq: "scanByte (CHR ''('') i b = b\<lparr>bracketLevel := bracketLevel b - 1\<rparr>"
    by (auto simp: scanByte_def Let_def)
  show ?thesis
    unfolding eq using borders_inv_depth [OF assms(1)]
    by (intro borders_inv_level [OF assms(1)]) force
qed

lemma scanByte_inv_close:
  assumes "borders_inv n (i + 1) b" "0 \<le> i" "i < n"
  shows "borders_inv n i (scanByte (CHR '')'') i b)"
proof (cases "rightInstanceBorderIndex b = - 1 \<and> bracketLevel b = 0 \<and> leftCounterBorderIndex b > - 1")
  case True
  with assms show ?thesis
    unfolding borders_inv_def by (elim conjE) (simp add: scanByte_def Let_def index_at_weaken [of n i] index_at_here [of i n] index_at_less [of n i])
next
  case False
  then have eq: "scanByte (CHR '')'') i b = b\<lparr>bracketLevel := bracketLevel b + 1\<rparr>"
    by (auto simp: scanByte_def Let_def)
  have "leftCounterBorderIndex b = - 1 \<or> leftCounterBorderIndex b > - 1"
    using assms by (auto simp: borders_inv_def index_at_def [of _ _ "leftCounterBorderIndex b"])
  then show ?thesis
    unfolding eq using False borders_inv_depth [OF assms(1)]
    by (intro borders_inv_level [OF assms(1)]) force
qed

lemma scanByte_inv:
  assumes inv: "borders_inv n (i + 1) b" and i: "0 \<le> i" "i < n"
  shows "borders_inv n i (scanByte c i b)"
proof (cases "c = bs \<and> bracketLevel b = 0 \<or> c = CHR ''('' \<or> c = CHR '')''")
  case True
  with assms show ?thesis
    using scanByte_inv_slash scanByte_inv_open scanByte_inv_close by blast
next
  case False
  then have "scanByte c i b = b" by (auto simp: scanByte_def)
  with inv show ?thesis by (simp add: borders_inv_weaken)
qed

lemma scanBorders_inv:
  assumes "0 \<le> i" and "borders_inv (i + int (length s)) (i + int (length s)) b"
  shows "borders_inv (i + int (length s)) i (scanBorders s i b)"
  using assms
proof (induction s arbitrary: i)
  case Nil
  then show ?case by simp
next
  case (Cons c s)
  have "borders_inv (i + 1 + int (length s)) (i + 1) (scanBorders s (i + 1) b)"
    using Cons.prems by (intro Cons.IH) (auto simp: algebra_simps)
  then have "borders_inv (i + int (length (c # s))) (i + 1) (scanBorders s (i + 1) b)"
    by (simp add: algebra_simps)
  with Cons.prems(1) show ?case
    using scanByte_inv [of "i + int (length (c # s))" i] by simp
qed

lemma scan_path_inv: "borders_inv (int (length p)) 0 (scanBorders p 0 noBorders)"
  using scanBorders_inv [of 0 p noBorders] borders_inv_start by simp

lemma slice_in_range: "0 \<le> lo \<Longrightarrow> lo \<le> hi \<Longrightarrow> hi \<le> int (length s) \<Longrightarrow> \<exists>t. slice s lo hi = Ok t"
  by (simp add: slice_def)

lemma extract_no_panic: "extractCounterInfoFromCounterPath path \<noteq> Panic msg"
proof -
  define b where "b = scanBorders path 0 noBorders"
  have inv: "borders_inv (int (length path)) 0 b"
    unfolding b_def by (rule scan_path_inv)
  define ro where "ro = (if rightObjectBorderIndex b = - 1 then leftCounterBorderIndex b
                         else rightObjectBorderIndex b)"
  have computer: "leftComputerBorderIndex b < leftObjectBorderIndex b"
    if "leftComputerBorderIndex b > - 1"
    using that inv by (simp add: borders_inv_def)
  have object: "0 \<le> leftObjectBorderIndex b" "leftObjectBorderIndex b < leftCounterBorderIndex b"
      "leftCounterBorderIndex b < int (length path)" if "leftObjectBorderIndex b \<noteq> - 1"
    using that inv unfolding borders_inv_def index_at_def by (elim conjE; auto)+
  have inst: "leftObjectBorderIndex b < leftInstanceBorderIndex b"
      "leftInstanceBorderIndex b < rightInstanceBorderIndex b"
      "rightInstanceBorderIndex b < int (length path)" if "leftInstanceBorderIndex b > - 1"
    using that inv unfolding borders_inv_def index_at_def by (elim conjE; auto)+
  have "rightObjectBorderIndex b = leftInstanceBorderIndex b"
    "leftInstanceBorderIndex b \<ge> - 1"
    using inv by (auto simp: borders_inv_def index_at_def [of _ _ "leftInstanceBorderIndex b"])
  then have ro: "leftObjectBorderIndex b < ro" "ro \<le> int (length path)"
    if "leftObjectBorderIndex b \<noteq> - 1"
    using object [OF that] inst by (auto simp: ro_def)
  have C: "slice path (leftComputerBorderIndex b + 1) (leftObjectBorderIndex b) \<noteq> Panic msg"
    if "leftComputerBorderIndex b > - 1"
  proof -
    from computer [OF that] that have "leftObjectBorderIndex b \<noteq> - 1" by simp
    with computer [OF that] object that show ?thesis by (simp add: slice_def)
  qed
  then have C2: "slice path 2 (leftObjectBorderIndex b) \<noteq> Panic msg"
    if "leftComputerBorderIndex b = 1" using that by simp
  have I: "slice path (leftInstanceBorderIndex b + 1) (rightInstanceBorderIndex b) \<noteq> Panic msg"
    if "leftInstanceBorderIndex b > - 1"
    using that inst [OF that] by (simp add: slice_def)
  have O: "slice path (leftObjectBorderIndex b + 1) ro \<noteq> Panic msg"
    and N: "slice path (leftCounterBorderIndex b + 1) (int (length path)) \<noteq> Panic msg"
    if "leftObjectBorderIndex b \<noteq> - 1"
    using object [OF that] ro [OF that] by (simp_all add: slice_def)
  show ?thesis
    unfolding extractCounterInfoFromCounterPath_def Let_def b_def [symmetric] ro_def [symmetric]
    using C I O N C2 by simp
qed

section \<open>Properties\<close>

text \<open>
  C7. Reading a counter path undoes printing it: for a plain computer name, a closed
  counter name, and an object and instance whose brackets are balanced,
  \<open>extractCounterInfoFromCounterPath\<close> of \<open>formatPath\<close> returns the object, the instance
  (empty for the placeholder \<open>------\<close>) and the counter unchanged, and the computer, which
  is empty when it was empty or \<open>localhost\<close>.
\<close>

theorem extract_formatPath:
  assumes "printable computer obj inst ctr"
  shows "extractCounterInfoFromCounterPath (formatPath computer obj inst ctr) =
         Ok (if computer = '''' \<or> computer = ''localhost'' then '''' else computer, obj,
             if inst = emptyInstance then '''' else inst, ctr)"
  using extract_prefixed [OF assms, of bs] by (simp add: formatPath_split)

theorem extract_formatPath_witness:
  "printable ''srv'' ''Process'' ''a(b)c'' ''% Time (x)'' \<and>
   extractCounterInfoFromCounterPath (formatPath ''srv'' ''Process'' ''a(b)c'' ''% Time (x)'') =
     Ok (''srv'', ''Process'', ''a(b)c'', ''% Time (x)'')"
proof -
  have h: "printable ''srv'' ''Process'' ''a(b)c'' ''% Time (x)''"
    by (simp add: printable_def plainName_def closedName_def bracketedName_def emptyInstance_def)
  show ?thesis using extract_formatPath [OF h] h by (simp add: emptyInstance_def)
qed

text \<open>
  C21. \<open>extractCounterInfoFromCounterPath\<close> never panics: whatever bytes the path holds, every
  slice it takes is within the path and has its bounds in order, so it returns a parse or
  an error.
\<close>

theorem extract_never_panics:
  "extractCounterInfoFromCounterPath path \<noteq> Panic msg"
  by (rule extract_no_panic)

text \<open>
  The first byte of a path with a computer name is not looked at: replacing the first of
  the two leading backslashes by any byte other than a bracket gives the same parse, so a
  path such as \<open>x\srv\Object\Counter\<close> is accepted as one of the computer \<open>srv\<close>.
\<close>

theorem extract_ignores_first_byte:
  assumes "printable computer obj inst ctr" and "computer \<noteq> ''''" and "computer \<noteq> ''localhost''"
    and "x \<noteq> CHR ''(''" and "x \<noteq> CHR '')''"
  shows "extractCounterInfoFromCounterPath (x # tl (formatPath computer obj inst ctr)) =
         Ok (computer, obj, if inst = emptyInstance then '''' else inst, ctr)"
proof -
  have "x # tl (formatPath computer obj inst ctr) =
      computerPrefix x computer @ localPath obj inst ctr"
    using assms(2,3) by (simp add: formatPath_split computerPrefix_def)
  with extract_prefixed [OF assms(1,4,5)] assms(2,3) show ?thesis by simp
qed

theorem extract_ignores_first_byte_witness:
  "extractCounterInfoFromCounterPath (''x'' @ [bs] @ ''srv'' @ [bs] @ ''Memory'' @ [bs] @ ''Pages'') =
     Ok (''srv'', ''Memory'', '''', ''Pages'')"
proof -
  have h: "printable ''srv'' ''Memory'' emptyInstance ''Pages''"
    by (simp add: printable_def plainName_def closedName_def)
  show ?thesis
    using extract_ignores_first_byte [OF h, of "CHR ''x''"]
    by (simp add: formatPath_def emptyInstance_def)
qed

end
