(* ===== verification/Sanitize.thy ===== *)
theory Sanitize
  imports CounterPath
begin

text \<open>
  The string replacer \<open>sanitizedChars\<close> of \<open>win_perf_counters.go\<close>, which makes field and
  measurement names from counter names. It is a \<open>strings.NewReplacer\<close>: a left-to-right scan
  without overlapping matches, trying the pairs in argument order at each position. The
  lemmas show which substrings can be left in its output and when a second application
  changes nothing.
\<close>

section \<open>Definitions\<close>

text \<open>The first pair, in argument order, whose old string starts at this position.\<close>

fun firstMatch :: "(string \<times> string) list \<Rightarrow> string \<Rightarrow> (string \<times> string) option" where
  "firstMatch [] s = None"
| "firstMatch ((old, new) # ps) s =
     (if hasPrefix s old then Some (old, new) else firstMatch ps s)"

text \<open>\<open>(*Replacer).Replace\<close> for pairs whose old strings are not empty.\<close>

fun replaceAll :: "(string \<times> string) list \<Rightarrow> string \<Rightarrow> string" where
  "replaceAll ps [] = []"
| "replaceAll ps (c # cs) = (case firstMatch ps (c # cs) of
       None \<Rightarrow> c # replaceAll ps cs
     | Some (old, new) \<Rightarrow> new @ replaceAll ps (drop (length old - 1) cs))"

definition sanitizedPairs :: "(string \<times> string) list" where
  "sanitizedPairs = [(''/sec'', ''_persec''), (''/Sec'', ''_persec''), ('' '', ''_''),
                     (''%'', ''Percent''), ([bs], '''')]"

definition sanitizedChars_Replace :: "string \<Rightarrow> string" where
  "sanitizedChars_Replace s = replaceAll sanitizedPairs s"

section \<open>The output of the replacer\<close>

text \<open>A string on which the replacer finds nothing to replace.\<close>

definition sanitized :: "string \<Rightarrow> bool" where
  "sanitized s \<longleftrightarrow> CHR '' '' \<notin> set s \<and> CHR ''%'' \<notin> set s \<and> bs \<notin> set s
     \<and> \<not> contains s ''/sec'' \<and> \<not> contains s ''/Sec''"

lemma sanitized_ConsD: "sanitized (c # s) \<Longrightarrow> sanitized s"
  by (auto simp: sanitized_def)

lemma Replace_sanitized: "sanitized s \<Longrightarrow> sanitizedChars_Replace s = s"
proof (induction s)
  case Nil
  show ?case by (simp add: sanitizedChars_Replace_def)
next
  case (Cons c s)
  have "firstMatch sanitizedPairs (c # s) = None"
    using Cons.prems by (auto simp: sanitizedPairs_def sanitized_def)
  with Cons.IH sanitized_ConsD [OF Cons.prems] show ?case
    by (simp add: sanitizedChars_Replace_def)
qed

text \<open>The cases of one position of the scan.\<close>

lemma Replace_cases:
  obtains (End) "s = []" "sanitizedChars_Replace s = []"
    | (PerSec) r where "s = ''/sec'' @ r \<or> s = ''/Sec'' @ r"
        "sanitizedChars_Replace s = ''_persec'' @ sanitizedChars_Replace r"
    | (Space) r where "s = '' '' @ r"
        "sanitizedChars_Replace s = ''_'' @ sanitizedChars_Replace r"
    | (PerCent) r where "s = ''%'' @ r"
        "sanitizedChars_Replace s = ''Percent'' @ sanitizedChars_Replace r"
    | (Slash) r where "s = [bs] @ r" "sanitizedChars_Replace s = sanitizedChars_Replace r"
    | (Copy) c r where "s = c # r" "c \<noteq> CHR '' ''" "c \<noteq> CHR ''%''" "c \<noteq> bs"
        "\<not> hasPrefix s ''/sec''" "\<not> hasPrefix s ''/Sec''"
        "sanitizedChars_Replace s = c # sanitizedChars_Replace r"
proof (cases s)
  case Nil
  then show thesis by (intro End) (simp_all add: sanitizedChars_Replace_def)
next
  case (Cons c cs)
  consider "hasPrefix s ''/sec''" | "hasPrefix s ''/Sec''" | "c = CHR '' ''" | "c = CHR ''%''"
    | "c = bs" | "\<not> hasPrefix s ''/sec''" "\<not> hasPrefix s ''/Sec''" "c \<noteq> CHR '' ''"
      "c \<noteq> CHR ''%''" "c \<noteq> bs" by blast
  then show thesis
  proof cases
    case 1
    then obtain r where "s = ''/sec'' @ r" by (auto simp: hasPrefix_iff)
    then show thesis
      by (intro PerSec [of r]) (simp_all add: sanitizedChars_Replace_def sanitizedPairs_def)
  next
    case 2
    then obtain r where "s = ''/Sec'' @ r" by (auto simp: hasPrefix_iff)
    then show thesis
      by (intro PerSec [of r]) (simp_all add: sanitizedChars_Replace_def sanitizedPairs_def)
  next
    case 3
    with Cons show thesis
      by (intro Space [of cs]) (simp_all add: sanitizedChars_Replace_def sanitizedPairs_def)
  next
    case 4
    with Cons show thesis
      by (intro PerCent [of cs]) (simp_all add: sanitizedChars_Replace_def sanitizedPairs_def)
  next
    case 5
    with Cons show thesis
      by (intro Slash [of cs]) (simp_all add: sanitizedChars_Replace_def sanitizedPairs_def)
  next
    case 6
    with Cons show thesis
      by (intro Copy [of c cs]) (simp_all add: sanitizedChars_Replace_def sanitizedPairs_def)
  qed
qed

text \<open>
  Letters the replacer does not produce come from the input, one for one, when no backslash
  is dropped between them.
\<close>

lemma Replace_prefix_from_input:
  "bs \<notin> set s \<Longrightarrow> CHR ''_'' \<notin> set t \<Longrightarrow> CHR ''P'' \<notin> set t \<Longrightarrow>
   hasPrefix (sanitizedChars_Replace s) t \<Longrightarrow> hasPrefix s t"
proof (induction t arbitrary: s)
  case Nil
  then show ?case by simp
next
  case (Cons x t)
  show ?case
  proof (cases s rule: Replace_cases)
    case (Copy c r)
    with Cons show ?thesis by simp
  qed (use Cons.prems in auto)
qed

lemma Replace_no_persec:
  assumes "bs \<notin> set s" and "t = ''/sec'' \<or> t = ''/Sec''"
  shows "\<not> contains (sanitizedChars_Replace s) t"
  using assms
proof (induction "length s" arbitrary: s rule: less_induct)
  case less
  show ?case
  proof (cases s rule: Replace_cases)
    case (Copy c r)
    with less have "\<not> contains (sanitizedChars_Replace r) t" by simp
    moreover have "\<not> hasPrefix (sanitizedChars_Replace s) t"
      using Replace_prefix_from_input [of s t] less.prems Copy by auto
    ultimately show ?thesis using Copy by simp
  qed (use less in auto)
qed

lemma Replace_clean_bytes:
  "x = CHR '' '' \<or> x = CHR ''%'' \<or> x = bs \<Longrightarrow> x \<notin> set (sanitizedChars_Replace s)"
proof (induction "length s" arbitrary: s rule: less_induct)
  case less
  show ?case
    by (cases s rule: Replace_cases) (use less in auto)
qed

lemma sanitized_Replace: "bs \<notin> set s \<Longrightarrow> sanitized (sanitizedChars_Replace s)"
  using Replace_no_persec Replace_clean_bytes by (auto simp: sanitized_def)

section \<open>Properties\<close>

text \<open>
  Sanitising is idempotent on names without a backslash: applying the replacer again,
  as \<open>addCounterMeasurement\<close> does to the name \<open>newCounter\<close> already sanitised, changes
  nothing, and the output holds no space, no percent sign, no backslash and neither
  \<open>/sec\<close> nor \<open>/Sec\<close>.
\<close>

theorem sanitizedChars_idempotent:
  assumes "bs \<notin> set s"
  shows "sanitizedChars_Replace (sanitizedChars_Replace s) = sanitizedChars_Replace s
    \<and> CHR '' '' \<notin> set (sanitizedChars_Replace s) \<and> CHR ''%'' \<notin> set (sanitizedChars_Replace s)
    \<and> bs \<notin> set (sanitizedChars_Replace s)
    \<and> \<not> contains (sanitizedChars_Replace s) ''/sec''
    \<and> \<not> contains (sanitizedChars_Replace s) ''/Sec''"
  using sanitized_Replace [OF assms] Replace_sanitized by (auto simp: sanitized_def)

theorem sanitizedChars_idempotent_witness:
  "sanitizedChars_Replace (sanitizedChars_Replace ''% Disk Reads/sec'') = ''Percent_Disk_Reads_persec''"
proof -
  have "bs \<notin> set ''% Disk Reads/sec''" by simp
  then show ?thesis
    using sanitizedChars_idempotent [of "''% Disk Reads/sec''"]
    by (simp add: sanitizedChars_Replace_def sanitizedPairs_def)
qed

text \<open>
  The hypothesis is needed: the replacer drops a backslash after it has passed the
  bytes before it, so \<open>/\sec\<close> becomes \<open>/sec\<close>, and a second application turns that
  into \<open>_persec\<close>.
\<close>

theorem sanitizedChars_not_idempotent:
  "sanitizedChars_Replace (''Reads/'' @ [bs] @ ''sec'') = ''Reads/sec''
   \<and> sanitizedChars_Replace (sanitizedChars_Replace (''Reads/'' @ [bs] @ ''sec'')) = ''Reads_persec''"
  by (simp add: sanitizedChars_Replace_def sanitizedPairs_def)

end
