(* ===== verification/Metric.thy ===== *)
theory Metric
  imports Query Sanitize
begin

text \<open>
  Counters, the choice of the values to report and the grouping of fields
  (\<open>win_perf_counters.go\<close>, \<open>utils.go\<close>). Field groups are Go maps of maps; the locales state
  what is used of such maps, and the lemmas show which value a field has after any sequence
  of measurements.
\<close>

section \<open>Definitions\<close>

record counter =
  counterPath :: string
  counter_computer :: string
  counter_objectName :: string
  counter_counter :: string
  counter_instance :: string
  counter_measurement :: string
  includeTotal :: bool
  useRawValue :: bool
  counterHandle :: pdhCounterHandle

definition newCounter ::
    "pdhCounterHandle \<Rightarrow> string \<Rightarrow> string \<Rightarrow> string \<Rightarrow> string \<Rightarrow> string \<Rightarrow> string \<Rightarrow> bool \<Rightarrow> bool \<Rightarrow> counter" where
  "newCounter handle path computer objectName inst counterName measurement inclTotal useRaw =
     (let measurementName0 = sanitizedChars_Replace measurement;
          measurementName = (if measurementName0 = '''' then ''win_perf_counters'' else measurementName0);
          newCounterName0 = sanitizedChars_Replace counterName;
          newCounterName = (if useRaw then newCounterName0 @ ''_Raw'' else newCounterName0)
      in \<lparr>counterPath = path, counter_computer = computer, counter_objectName = objectName,
          counter_counter = newCounterName, counter_instance = inst,
          counter_measurement = measurementName, includeTotal = inclTotal, useRawValue = useRaw,
          counterHandle = handle\<rparr>)"

record instanceGrouping =
  group_name :: string
  group_instance :: string
  group_objectName :: string

type_synonym fieldMap = "(string \<times> go_value) list"
type_synonym fieldGrouping = "(instanceGrouping \<times> fieldMap) list"

definition shouldIncludeMetric :: "counter \<Rightarrow> counterValue \<Rightarrow> bool" where
  "shouldIncludeMetric metric cValue =
     (if includeTotal metric then True
      else if counter_instance metric = ''*'' \<and> \<not> contains (Name cValue) ''_Total'' then True
      else if counter_instance metric = Name cValue then True
      else if counter_instance metric = emptyInstance then True
      else False)"

definition groupOf :: "counter \<Rightarrow> string \<Rightarrow> instanceGrouping" where
  "groupOf metric instanceName = \<lparr>group_name = counter_measurement metric,
     group_instance = instanceName, group_objectName = counter_objectName metric\<rparr>"

definition addCounterMeasurement ::
    "counter \<Rightarrow> string \<Rightarrow> go_value \<Rightarrow> fieldGrouping \<Rightarrow> fieldGrouping" where
  "addCounterMeasurement metric instanceName val collectFields =
     (let inst = groupOf metric instanceName;
          collectFields1 = (if map_of collectFields inst = None then upsert inst [] collectFields
                            else collectFields)
      in upsert inst (upsert (sanitizedChars_Replace (counter_counter metric)) val
                        (the (map_of collectFields1 inst))) collectFields1)"

section \<open>Maps and maps of maps\<close>

locale go_map =
  fixes lookup :: "'m \<Rightarrow> 'k \<Rightarrow> 'v option" and update :: "'k \<Rightarrow> 'v \<Rightarrow> 'm \<Rightarrow> 'm"
  assumes lookup_update: "lookup (update k v m) j = (if j = k then Some v else lookup m j)"
begin

lemma lookup_update_same [simp]: "lookup (update k v m) k = Some v"
  by (simp add: lookup_update)

lemma lookup_update_other [simp]: "j \<noteq> k \<Longrightarrow> lookup (update k v m) j = lookup m j"
  by (simp add: lookup_update)

text \<open>Of several assignments to a key the last one counts.\<close>

lemma lookup_fold:
  "lookup (fold (\<lambda>(k, v). update k v) kvs m) j =
     (case map_of (rev kvs) j of None \<Rightarrow> lookup m j | Some v \<Rightarrow> Some v)"
proof (induction kvs arbitrary: m)
  case (Cons kv kvs)
  then show ?case
    by (cases kv) (auto simp: lookup_update map_add_def split: option.splits)
qed simp

end

text \<open>A map whose values are maps, created on the first assignment below a key.\<close>

locale nested_map =
  outer: go_map lookup update + inner: go_map ilookup iupdate
  for lookup :: "'m \<Rightarrow> 'k \<Rightarrow> 'n option" and update :: "'k \<Rightarrow> 'n \<Rightarrow> 'm \<Rightarrow> 'm"
    and ilookup :: "'n \<Rightarrow> 'f \<Rightarrow> 'v option" and iupdate :: "'f \<Rightarrow> 'v \<Rightarrow> 'n \<Rightarrow> 'n" +
  fixes iempty :: 'n
  assumes ilookup_empty: "ilookup iempty f = None"
begin

definition assign :: "'k \<Rightarrow> 'f \<Rightarrow> 'v \<Rightarrow> 'm \<Rightarrow> 'm" where
  "assign k f v m = update k (iupdate f v (case lookup m k of None \<Rightarrow> iempty | Some n \<Rightarrow> n)) m"

definition field :: "'m \<Rightarrow> 'k \<times> 'f \<Rightarrow> 'v option" where
  "field m kf = Option.bind (lookup m (fst kf)) (\<lambda>n. ilookup n (snd kf))"

lemma field_assign:
  "field (assign k f v m) jg = (if jg = (k, f) then Some v else field m jg)"
proof (cases "fst jg = k")
  case True
  then show ?thesis
    by (cases jg) (auto simp: field_def assign_def inner.lookup_update ilookup_empty split: option.splits)
qed (auto simp: field_def assign_def)

sublocale pairs: go_map field "\<lambda>(k, f). assign k f"
  by unfold_locales (auto simp: field_assign split: if_splits)

end

interpretation fields: nested_map map_of upsert map_of upsert "[] :: fieldMap"
  by unfold_locales simp_all

section \<open>Groups\<close>

lemma addCounterMeasurement_assign:
  "addCounterMeasurement metric name val cf =
     fields.assign (groupOf metric name) (sanitizedChars_Replace (counter_counter metric)) val cf"
proof (cases "map_of cf (groupOf metric name)")
  case None
  then have "upsert g n (upsert g [] cf) = upsert g n cf" if "g = groupOf metric name" for g n
    using that by (induction g n cf rule: upsert.induct) (auto split: if_splits)
  with None show ?thesis
    by (simp add: addCounterMeasurement_def fields.assign_def Let_def)
qed (simp add: addCounterMeasurement_def fields.assign_def Let_def)

definition fieldValue :: "fieldGrouping \<Rightarrow> instanceGrouping \<Rightarrow> string \<Rightarrow> go_value option" where
  "fieldValue cf g f = (case map_of cf g of None \<Rightarrow> None | Some fs \<Rightarrow> map_of fs f)"

lemma fieldValue_field: "fieldValue cf g f = fields.field cf (g, f)"
  by (simp add: fieldValue_def fields.field_def split: option.splits)

lemma fieldValue_add:
  "fieldValue (addCounterMeasurement metric name val cf) g f =
     (if g = groupOf metric name \<and> f = sanitizedChars_Replace (counter_counter metric) then Some val
      else fieldValue cf g f)"
  by (simp add: fieldValue_field addCounterMeasurement_assign fields.field_assign)

text \<open>Each group occurs once and has at least one field, each field once.\<close>

definition wfGroups :: "fieldGrouping \<Rightarrow> bool" where
  "wfGroups cf \<longleftrightarrow> distinct (map fst cf) \<and> (\<forall>(g, fs) \<in> set cf. fs \<noteq> [] \<and> distinct (map fst fs))"

lemma upsert_nonempty [simp]: "upsert k v kvs \<noteq> []"
  by (cases "(k, v, kvs)" rule: upsert.cases) auto

lemma wfGroups_upsert:
  "wfGroups cf \<Longrightarrow> fs \<noteq> [] \<Longrightarrow> distinct (map fst fs) \<Longrightarrow> wfGroups (upsert g fs cf)"
  using set_upsert_subset [of g fs cf] by (auto simp: wfGroups_def simp del: keys_upsert)

lemma wfGroups_add: "wfGroups cf \<Longrightarrow> wfGroups (addCounterMeasurement metric name val cf)"
proof -
  assume wf: "wfGroups cf"
  have "distinct (map fst fs)" if "map_of cf g = Some fs" for g fs
    using wf map_of_SomeD [OF that] by (auto simp: wfGroups_def)
  then show ?thesis
    using wf by (auto simp: addCounterMeasurement_assign fields.assign_def intro!: wfGroups_upsert
        simp del: keys_upsert split: option.splits)
qed

lemma wfGroups_Nil [simp]: "wfGroups []"
  by (simp add: wfGroups_def)

section \<open>Names\<close>

lemma contains_append_Raw:
  "t = ''/sec'' \<or> t = ''/Sec'' \<Longrightarrow> contains (s @ ''_Raw'') t = contains s t"
proof (induction s)
  case (Cons c s)
  have "hasPrefix (c # s @ ''_Raw'') t = hasPrefix (c # s) t"
    using Cons.prems by (cases s; cases "tl s"; cases "tl (tl s)") auto
  with Cons show ?case by simp
qed auto

lemma sanitized_append_Raw: "sanitized s \<Longrightarrow> sanitized (s @ ''_Raw'')"
  using contains_append_Raw [of "''/sec''" s] contains_append_Raw [of "''/Sec''" s]
  by (auto simp: sanitized_def)

section \<open>Properties\<close>

text \<open>
  A field holds the last value measured for it: after any sequence of calls of
  \<open>addCounterMeasurement\<close> on an empty grouping, the value under a group (measurement,
  instance, object) and a field name is that of the last call with this group and this
  sanitised counter name, and there is none without such a call.
\<close>

theorem measurement_last_wins:
  "fieldValue (fold (\<lambda>(metric, name, val). addCounterMeasurement metric name val) ms []) g f =
     map_of (rev (map (\<lambda>(metric, name, val).
       ((groupOf metric name, sanitizedChars_Replace (counter_counter metric)), val)) ms)) (g, f)"
proof -
  let ?key = "\<lambda>(metric, name, val). ((groupOf metric name, sanitizedChars_Replace (counter_counter metric)), val)"
  have "fold (\<lambda>(metric, name, val). addCounterMeasurement metric name val) ms cf
      = fold (\<lambda>(k, v). (case k of (g, f) \<Rightarrow> fields.assign g f) v) (map ?key ms) cf" for cf
    by (induction ms arbitrary: cf) (auto simp: addCounterMeasurement_assign)
  then show ?thesis
    using fields.pairs.lookup_fold [of "map ?key ms" "[]" "(g, f)"]
    by (simp add: fieldValue_field fields.field_def split: option.splits)
qed

text \<open>
  The groups of a sample are well formed: measuring keeps each group single and non-empty,
  and each field of a group single.
\<close>

theorem measurements_wellformed:
  "wfGroups (fold (\<lambda>(metric, name, val). addCounterMeasurement metric name val) ms [])"
proof -
  have "wfGroups cf \<Longrightarrow> wfGroups (fold (\<lambda>(metric, name, val). addCounterMeasurement metric name val) ms cf)" for cf
    by (induction ms arbitrary: cf) (auto intro: wfGroups_add)
  then show ?thesis by simp
qed

text \<open>
  A counter's field has its sanitised name: for a counter name without a backslash, a value
  measured for the counter that \<open>newCounter\<close> makes is found under the name sanitised once,
  with \<open>_Raw\<close> added for raw values, although the name is sanitised a second time on the way.
\<close>

theorem field_name_of_newCounter:
  assumes "bs \<notin> set counterName"
  shows "fieldValue (addCounterMeasurement
           (newCounter handle path computer objectName inst counterName measurement inclTotal useRaw)
           name val cf)
         \<lparr>group_name = (if sanitizedChars_Replace measurement = '''' then ''win_perf_counters''
                        else sanitizedChars_Replace measurement),
          group_instance = name, group_objectName = objectName\<rparr>
         (sanitizedChars_Replace counterName @ (if useRaw then ''_Raw'' else '''')) = Some val"
  using sanitized_Replace [OF assms] Replace_sanitized sanitized_append_Raw
  by (simp add: fieldValue_add groupOf_def newCounter_def Let_def)

theorem field_name_of_newCounter_witness:
  "fieldValue (addCounterMeasurement
     (newCounter 1 ''p'' '''' ''Disk'' ''*'' ''% Reads/sec'' '''' False True) ''C:'' (IntValue 7) [])
     \<lparr>group_name = ''win_perf_counters'', group_instance = ''C:'', group_objectName = ''Disk''\<rparr>
     ''Percent_Reads_persec_Raw'' = Some (IntValue 7)"
proof -
  have "bs \<notin> set ''% Reads/sec''" by simp
  from field_name_of_newCounter [OF this, of 1 "''p''" "''''" "''Disk''" "''*''" "''''" False True
      "''C:''" "IntValue 7" "[]"]
  show ?thesis by (simp add: sanitizedChars_Replace_def sanitizedPairs_def)
qed

end
