(* ===== verification/Logger.thy ===== *)
theory Logger
  imports Prelude
begin

text \<open>
  The logger of \<open>log.go\<close>. Each method hands a line to the standard logger or does nothing; a
  line is kept as the operands of \<open>log.Printf\<close> or \<open>log.Print\<close>, and the log is the list of the
  lines written so far.
\<close>

section \<open>Definitions\<close>

record Logger =
  LoggerName :: string
  Quiet :: bool

datatype logged = Printf string "fmt_arg list" | Print "fmt_arg list"

type_synonym log = "logged list"

definition tagged :: "string \<Rightarrow> Logger \<Rightarrow> string" where
  "tagged level l = ''['' @ level @ ''] ['' @ LoggerName l @ ''] ''"

definition Logger_AddAttribute :: "Logger \<Rightarrow> string \<Rightarrow> fmt_arg \<Rightarrow> log \<Rightarrow> log" where
  "Logger_AddAttribute l key val log = log"

definition Logger_Errorf :: "Logger \<Rightarrow> string \<Rightarrow> fmt_arg list \<Rightarrow> log \<Rightarrow> log" where
  "Logger_Errorf l format args log = log @ [Printf (tagged ''ERROR'' l @ format) args]"

definition Logger_Error :: "Logger \<Rightarrow> fmt_arg list \<Rightarrow> log \<Rightarrow> log" where
  "Logger_Error l args log = log @ [Print (AStr (tagged ''ERROR'' l) # args)]"

definition Logger_Warnf :: "Logger \<Rightarrow> string \<Rightarrow> fmt_arg list \<Rightarrow> log \<Rightarrow> log" where
  "Logger_Warnf l format args log = log @ [Printf (tagged ''WARN'' l @ format) args]"

definition Logger_Warn :: "Logger \<Rightarrow> fmt_arg list \<Rightarrow> log \<Rightarrow> log" where
  "Logger_Warn l args log = log @ [Print (AStr (tagged ''WARN'' l) # args)]"

definition Logger_Infof :: "Logger \<Rightarrow> string \<Rightarrow> fmt_arg list \<Rightarrow> log \<Rightarrow> log" where
  "Logger_Infof l format args log =
     (if \<not> Quiet l then log @ [Printf (tagged ''INFO'' l @ format) args] else log)"

definition Logger_Info :: "Logger \<Rightarrow> fmt_arg list \<Rightarrow> log \<Rightarrow> log" where
  "Logger_Info l args log =
     (if \<not> Quiet l then log @ [Print (AStr (tagged ''INFO'' l) # args)] else log)"

definition Logger_Debugf :: "Logger \<Rightarrow> string \<Rightarrow> fmt_arg list \<Rightarrow> log \<Rightarrow> log" where
  "Logger_Debugf l format args log =
     (if \<not> Quiet l then log @ [Printf (tagged ''DEBUG'' l @ format) args] else log)"

definition Logger_Debug :: "Logger \<Rightarrow> fmt_arg list \<Rightarrow> log \<Rightarrow> log" where
  "Logger_Debug l args log =
     (if \<not> Quiet l then log @ [Print (AStr (tagged ''DEBUG'' l) # args)] else log)"

definition Logger_Tracef :: "Logger \<Rightarrow> string \<Rightarrow> fmt_arg list \<Rightarrow> log \<Rightarrow> log" where
  "Logger_Tracef l format args log =
     (if \<not> Quiet l then log @ [Printf (tagged ''TRACE'' l @ format) args] else log)"

definition Logger_Trace :: "Logger \<Rightarrow> fmt_arg list \<Rightarrow> log \<Rightarrow> log" where
  "Logger_Trace l args log =
     (if \<not> Quiet l then log @ [Print (AStr (tagged ''TRACE'' l) # args)] else log)"

lemmas logger_defs = Logger_AddAttribute_def Logger_Errorf_def Logger_Error_def Logger_Warnf_def
  Logger_Warn_def Logger_Infof_def Logger_Info_def Logger_Debugf_def Logger_Debug_def
  Logger_Tracef_def Logger_Trace_def

section \<open>The contract of a log method\<close>

text \<open>
  A method appends at most one line, the same whatever was logged before; \<open>loud\<close> tells
  whether it does.
\<close>

locale log_method =
  fixes emit :: "Logger \<Rightarrow> 'a \<Rightarrow> log \<Rightarrow> log" and line :: "Logger \<Rightarrow> 'a \<Rightarrow> logged" and loud :: "Logger \<Rightarrow> bool"
  assumes emit_line: "emit l a log = (if loud l then log @ [line l a] else log)"
begin

lemma emit_keeps: "\<exists>new. emit l a log = log @ new \<and> length new \<le> 1"
  by (simp add: emit_line)

lemma emit_append: "emit l a (log @ log') = log @ emit l a log'"
  by (simp add: emit_line)

lemma emit_many: "fold (emit l) as log = log @ (if loud l then map (line l) as else [])"
  by (induction as arbitrary: log) (simp_all add: emit_line)

end

interpretation errorf: log_method "\<lambda>l (f, as). Logger_Errorf l f as"
    "\<lambda>l (f, as). Printf (tagged ''ERROR'' l @ f) as" "\<lambda>l. True"
  by unfold_locales (auto simp: Logger_Errorf_def)

interpretation warnf: log_method "\<lambda>l (f, as). Logger_Warnf l f as"
    "\<lambda>l (f, as). Printf (tagged ''WARN'' l @ f) as" "\<lambda>l. True"
  by unfold_locales (auto simp: Logger_Warnf_def)

interpretation infof: log_method "\<lambda>l (f, as). Logger_Infof l f as"
    "\<lambda>l (f, as). Printf (tagged ''INFO'' l @ f) as" "\<lambda>l. \<not> Quiet l"
  by unfold_locales (auto simp: Logger_Infof_def)

interpretation debugf: log_method "\<lambda>l (f, as). Logger_Debugf l f as"
    "\<lambda>l (f, as). Printf (tagged ''DEBUG'' l @ f) as" "\<lambda>l. \<not> Quiet l"
  by unfold_locales (auto simp: Logger_Debugf_def)

section \<open>Properties\<close>

text \<open>
  Quiet silences information, debugging and tracing, and nothing else: any number of
  \<open>Infof\<close> and \<open>Debugf\<close> calls add nothing to the log of a quiet logger and one line each to
  that of another, while each error and each warning adds its line in both.
\<close>

theorem quiet_logger:
  "fold (\<lambda>(f, as). Logger_Infof l f as) msgs log
     = log @ (if Quiet l then [] else map (\<lambda>(f, as). Printf (tagged ''INFO'' l @ f) as) msgs)
   \<and> fold (\<lambda>(f, as). Logger_Debugf l f as) msgs log
     = log @ (if Quiet l then [] else map (\<lambda>(f, as). Printf (tagged ''DEBUG'' l @ f) as) msgs)
   \<and> fold (\<lambda>(f, as). Logger_Warnf l f as) msgs log
     = log @ map (\<lambda>(f, as). Printf (tagged ''WARN'' l @ f) as) msgs
   \<and> fold (\<lambda>(f, as). Logger_Errorf l f as) msgs log
     = log @ map (\<lambda>(f, as). Printf (tagged ''ERROR'' l @ f) as) msgs"
  using infof.emit_many [of l msgs log] debugf.emit_many [of l msgs log]
    warnf.emit_many [of l msgs log] errorf.emit_many [of l msgs log]
  by simp

end
