(* ===== verification/SamplePlatform.thy ===== *)
theory SamplePlatform
  imports Pdh
begin

text \<open>
  A concrete machine, at which the properties that rest on documented behaviour of Windows
  are instantiated. Its state does not change: memory holds the given bytes at address 4096,
  where every object is allocated; a call that fills a buffer asks for \<open>need\<close> elements and
  reports \<open>n\<close> items; handles are 1; every other call succeeds.
\<close>

definition samplePlatform :: "arch \<Rightarrow> u8 list \<Rightarrow> u32 \<Rightarrow> u32 \<Rightarrow> unit platform" where
  "samplePlatform a bytes need n = \<lparr>
     build = a,
     mem = (\<lambda>w. bytesAt 4096 bytes),
     newObject = (\<lambda>k w. (4096, w)),
     timeNow = (\<lambda>w. (0, w)),
     timeSleep = (\<lambda>d w. w),
     osHostname = (\<lambda>w. (Some ''host'', w)),
     rangePerm = (\<lambda>k w. ([0..<k], w)),
     libPdhHandle = 1,
     FORMAT_MESSAGE_FROM_HMODULE = 2048,
     FORMAT_MESSAGE_ARGUMENT_ARRAY = 8192,
     FORMAT_MESSAGE_IGNORE_INSERTS = 512,
     FormatMessage = (\<lambda>flags h i l buf k w. (Some ''no message'', w)),
     PdhAddCounterW = (\<lambda>q p d w. (0, 1, w)),
     PdhAddEnglishCounterW = Some (\<lambda>q p d w. (0, 1, w)),
     PdhCloseQuery = (\<lambda>q w. (0, w)),
     PdhCollectQueryData = (\<lambda>q w. (0, w)),
     PdhCollectQueryDataWithTime =
       Some (\<lambda>q w. (0, \<lparr>dwLowDateTime = 0xD53E8000, dwHighDateTime = 0x019DB1DE\<rparr>, w)),
     PdhGetFormattedCounterValue = (\<lambda>h f p w. (0, w)),
     PdhGetFormattedCounterArrayW =
       (\<lambda>h f sz k buf w. if sz < need then (0x800007D2, need, 0, w) else (0, need, n, w)),
     PdhOpenQuery = (\<lambda>s d w. (0, 1, w)),
     PdhExpandWildCardPathW =
       (\<lambda>s p buf sz f w. if sz < need then (0x800007D2, need, w) else (0, need, w)),
     PdhGetCounterInfoW =
       (\<lambda>h e sz buf w. if sz < need then (0x800007D2, need, w) else (0, need, w)),
     PdhGetRawCounterValue = (\<lambda>h p w. (0, w)),
     PdhGetRawCounterArrayW =
       (\<lambda>h sz k buf w. if sz < need then (0x800007D2, need, 0, w) else (0, need, n, w)),
     PdhValidatePathW = (\<lambda>p w. (0, w)),
     LocalFileTimeToFileTime = (\<lambda>ft w. (1, ft, w))\<rparr>"

lemma samplePlatform_sel [simp]:
  "build (samplePlatform a bytes need n) = a"
  "mem (samplePlatform a bytes need n) w = bytesAt 4096 bytes"
  "newObject (samplePlatform a bytes need n) k w = (4096, w)"
  by (simp_all add: samplePlatform_def)

end
