(* ===== verification/QueryLifecycle.thy ===== *)
theory QueryLifecycle
  imports Query SamplePlatform
begin

text \<open>
  The life cycle of a query (\<open>performance_query.go\<close>): the contract of opening and closing that
  the collector relies on, an abstract machine with the two states closed and open, the
  proof that the methods refine it, and the reading of single values.
\<close>

lemmas query_defs = Open_def openHandle_def Close_def AddCounterToQuery_def
  AddEnglishCounterToQuery_def CollectData_def CollectDataWithTime_def GetRawCounterValue_def

lemma failPdh_outcome:
  "failPdh pf code w = Some (Err (fst (newPdhError pf code w)), snd (newPdhError pf code w))"
  by (simp add: failPdh_def case_prod_unfold Let_def)

lemma withMachine_failPdh:
  "withMachine (failPdh pf code) (m, w)
   = Some (Err (fst (newPdhError pf code w)), (m, snd (newPdhError pf code w)))"
  by (simp add: withMachine_def failPdh_outcome)

lemma newPdhError_code [simp]: "as_pdhError (fst (newPdhError pf code w)) = Some code"
  by (simp add: newPdhError_def case_prod_unfold Let_def)

section \<open>The contract of opening and closing\<close>

locale query_handle =
  fixes isOpen :: "'q \<Rightarrow> bool" and openQ :: "('q \<times> 'w, unit) prog" and closeQ :: "('q \<times> 'w, unit) prog"
  assumes close_closed:
      "\<not> isOpen q \<Longrightarrow> closeQ (q, w) = Some (Err errUninitializedQuery, (q, w))"
    and close_open:
      "isOpen q \<Longrightarrow> (\<exists>q' w'. closeQ (q, w) = Some (Ok (), (q', w')) \<and> \<not> isOpen q')
         \<or> (\<exists>e w'. closeQ (q, w) = Some (Err e, (q, w')))"
    and open_outcome:
      "(\<exists>s. openQ (q, w) = Some (Ok (), s))
         \<or> (\<exists>e q' w'. openQ (q, w) = Some (Err e, (q', w')) \<and> (isOpen q' \<longrightarrow> q' = q))"
begin

lemma close_outcome:
  obtains q' w' where "closeQ (q, w) = Some (Ok (), (q', w'))" "isOpen q" "\<not> isOpen q'"
  | e w' where "closeQ (q, w) = Some (Err e, (q, w'))"
  using close_closed close_open by (cases "isOpen q") (blast | fastforce)+

lemma close_returns: "closeQ (q, w) \<noteq> None"
  by (rule close_outcome [of q w]) auto

lemma close_never_panics: "closeQ (q, w) \<noteq> Some (Panic p, s)"
  by (rule close_outcome [of q w]) auto

lemma closed_after_close: "closeQ (q, w) = Some (Ok (), (q', w')) \<Longrightarrow> isOpen q \<and> \<not> isOpen q'"
  by (rule close_outcome [of q w]) auto

lemma close_twice:
  "closeQ (q, w) = Some (Ok (), s) \<Longrightarrow> closeQ s = Some (Err errUninitializedQuery, s)"
  using closed_after_close close_closed by (cases s) blast

lemma close_error_keeps: "closeQ (q, w) = Some (Err e, (q', w')) \<Longrightarrow> q' = q"
  by (rule close_outcome [of q w]) auto

lemma open_returns: "openQ (q, w) \<noteq> None"
  using open_outcome [of q w] by auto

lemma open_never_panics: "openQ (q, w) \<noteq> Some (Panic p, s)"
  using open_outcome [of q w] by auto

lemma open_error_closed:
  "openQ (q, w) = Some (Err e, (q', w')) \<Longrightarrow> \<not> isOpen q \<Longrightarrow> \<not> isOpen q'"
  using open_outcome [of q w] by auto

end

definition isOpen :: "performanceQueryImpl \<Rightarrow> bool" where
  "isOpen m \<longleftrightarrow> queryHandle m \<noteq> 0"

lemma openHandle_outcome:
  "(\<exists>h w'. openHandle pf (m, w) = Some (Ok (), (m\<lparr>queryHandle := h\<rparr>, w')))
   \<or> (\<exists>e w'. openHandle pf (m, w) = Some (Err e, (m, w')))"
  by (auto simp: openHandle_def withMachine_failPdh split: prod.splits)

lemma Close_outcome:
  "isOpen m \<Longrightarrow>
     (\<exists>w'. Close pf (m, w) = Some (Ok (), (m\<lparr>queryHandle := 0\<rparr>, w')))
   \<or> (\<exists>e w'. Close pf (m, w) = Some (Err e, (m, w')))"
  by (auto simp: Close_def isOpen_def withMachine_failPdh split: prod.splits)

lemma Open_outcome:
  "(\<exists>h w'. Open pf (m, w) = Some (Ok (), (m\<lparr>queryHandle := h\<rparr>, w')))
   \<or> (\<exists>e w'. Open pf (m, w) = Some (Err e, (m, w')))
   \<or> (\<exists>e w'. Open pf (m, w) = Some (Err e, (m\<lparr>queryHandle := 0\<rparr>, w')))"
proof (cases "isOpen m")
  case False
  then show ?thesis using openHandle_outcome [of pf m w] by (auto simp: Open_def isOpen_def)
next
  case True
  then have seq: "Open pf (m, w) = bindP (Close pf) (\<lambda>_. openHandle pf) (m, w)"
    by (simp add: Open_def isOpen_def seqP_apply)
  from Close_outcome [OF True, of pf w] show ?thesis
  proof (elim disjE exE)
    fix w' assume "Close pf (m, w) = Some (Ok (), (m\<lparr>queryHandle := 0\<rparr>, w'))"
    then show ?thesis
      using openHandle_outcome [of pf "m\<lparr>queryHandle := 0\<rparr>" w'] by (auto simp: seq bindP_apply)
  qed (auto simp: seq bindP_apply)
qed

interpretation query: query_handle isOpen "Open pf" "Close pf" for pf
proof
  fix q w
  show "\<not> isOpen q \<Longrightarrow> Close pf (q, w) = Some (Err errUninitializedQuery, (q, w))"
    by (simp add: Close_def isOpen_def)
  show "isOpen q \<Longrightarrow> (\<exists>q' w'. Close pf (q, w) = Some (Ok (), (q', w')) \<and> \<not> isOpen q')
      \<or> (\<exists>e w'. Close pf (q, w) = Some (Err e, (q, w')))"
    using Close_outcome [of q pf w] by (auto simp: isOpen_def)
  show "(\<exists>s. Open pf (q, w) = Some (Ok (), s))
      \<or> (\<exists>e q' w'. Open pf (q, w) = Some (Err e, (q', w')) \<and> (isOpen q' \<longrightarrow> q' = q))"
    using Open_outcome [of pf q w] by (auto simp: isOpen_def)
qed

section \<open>The abstract machine\<close>

datatype queryOp =
    OpenOp | CloseOp | AddOp string | AddEnglishOp string | CollectOp | CollectWithTimeOp
  | RawValueOp pdhCounterHandle

text \<open>A call of a method, with what its result says about success.\<close>

fun runOp :: "'w platform \<Rightarrow> queryOp \<Rightarrow> ('w, unit) qprog" where
  "runOp pf OpenOp = Open pf"
| "runOp pf CloseOp = Close pf"
| "runOp pf (AddOp path) =
     (\<lambda>(m, w). seqP (withMachine (AddCounterToQuery pf m path)) (retP ()) (m, w))"
| "runOp pf (AddEnglishOp path) =
     (\<lambda>(m, w). seqP (withMachine (AddEnglishCounterToQuery pf m path)) (retP ()) (m, w))"
| "runOp pf CollectOp = (\<lambda>(m, w). withMachine (CollectData pf m) (m, w))"
| "runOp pf CollectWithTimeOp =
     (\<lambda>(m, w). bindP (withMachine (CollectDataWithTime pf m))
        (\<lambda>(t, err). case err of None \<Rightarrow> retP () | Some e \<Rightarrow> failP e) (m, w))"
| "runOp pf (RawValueOp h) =
     (\<lambda>(m, w). seqP (withMachine (GetRawCounterValue pf m h)) (retP ()) (m, w))"

definition usesHandle :: "queryOp \<Rightarrow> bool" where
  "usesHandle op \<longleftrightarrow> op \<noteq> OpenOp \<and> op \<noteq> CloseOp"

text \<open>
  The specification: a query is open or closed; closing and using a closed one is refused
  with the uninitialized-query error; using an open one keeps it open, however it ends; a
  successful \<open>Open\<close> leaves it open. A failed \<open>Open\<close> may leave an open query closed, since it is
  closed first.
\<close>

inductive queryStep :: "bool \<Rightarrow> queryOp \<Rightarrow> unit result \<Rightarrow> bool \<Rightarrow> bool" where
  open_ok: "queryStep b OpenOp (Ok ()) True"
| open_refused: "queryStep b OpenOp (Err e) False"
| open_not_closed: "queryStep True OpenOp (Err e) True"
| close_ok: "queryStep True CloseOp (Ok ()) False"
| close_failed: "queryStep True CloseOp (Err e) True"
| close_closed: "queryStep False CloseOp (Err errUninitializedQuery) False"
| use_open: "usesHandle op \<Longrightarrow> queryStep True op r True"
| use_closed: "usesHandle op \<Longrightarrow> queryStep False op (Err errUninitializedQuery) False"

inductive_cases queryStep_closedE: "queryStep False op r b"
inductive_simps queryStep_close_iff: "queryStep b CloseOp r b'"

inductive queryTrace :: "bool \<Rightarrow> (queryOp \<times> unit result) list \<Rightarrow> bool \<Rightarrow> bool" where
  trace_nil: "queryTrace b [] b"
| trace_step: "queryStep b op r b' \<Longrightarrow> queryTrace b' tr b'' \<Longrightarrow> queryTrace b ((op, r) # tr) b''"

section \<open>Refinement\<close>

text \<open>Windows hands out non-null query handles.\<close>

definition nonzeroHandles :: "'w platform \<Rightarrow> bool" where
  "nonzeroHandles pf \<longleftrightarrow>
     (\<forall>s d w ret h w'. PdhOpenQuery pf s d w = (ret, h, w') \<longrightarrow> (ucast ret :: u32) = errorSuccess \<longrightarrow> h \<noteq> 0)"

lemma openHandle_open:
  assumes "nonzeroHandles pf" and "openHandle pf (m, w) = Some (Ok (), (m', w'))"
  shows "isOpen m'"
proof -
  obtain ret h w1 where call: "PdhOpenQuery pf 0 0 w = (ret, h, w1)" by (metis prod_cases3)
  then have "(ucast ret :: u32) = errorSuccess" and "m' = m\<lparr>queryHandle := h\<rparr>"
    using assms(2)
    by (auto simp: openHandle_def pdhOpenQuery_def withMachine_failPdh split: if_splits)
  moreover from this call have "h \<noteq> 0" using assms(1) unfolding nonzeroHandles_def by blast
  ultimately show ?thesis by (simp add: isOpen_def)
qed

lemma Open_open:
  assumes "nonzeroHandles pf" and "Open pf (m, w) = Some (Ok (), (m', w'))"
  shows "isOpen m'"
proof -
  obtain m1 w1 where "openHandle pf (m1, w1) = Some (Ok (), (m', w'))"
    using assms(2) by (auto simp: Open_def seqP_apply bindP_eq_Ok split: if_splits)
  with assms(1) show ?thesis by (rule openHandle_open)
qed

text \<open>A method that takes the query by value leaves the object alone, and always returns.\<close>

lemma withMachine_outcome:
  "p w \<noteq> None \<Longrightarrow> \<exists>r w'. withMachine p (m, w) = Some (r, (m, w'))"
  by (auto simp: withMachine_def)

lemma value_method_returns:
  "AddCounterToQuery pf m path w \<noteq> None" "AddEnglishCounterToQuery pf m path w \<noteq> None"
  "CollectData pf m w \<noteq> None" "CollectDataWithTime pf m w \<noteq> None" "GetRawCounterValue pf m h w \<noteq> None"
  by (auto simp: query_defs singleValue_def failP_def failPdh_outcome Let_def
      split: prod.splits result.splits)

lemma seq_withMachine_outcome:
  "p w \<noteq> None \<Longrightarrow> \<exists>r w'. seqP (withMachine p) (retP ()) (m, w) = Some (r, (m, w'))"
  by (auto simp: withMachine_def seqP_apply bindP_apply retP_apply split: result.splits)

lemma time_withMachine_outcome:
  "p w \<noteq> None \<Longrightarrow>
   \<exists>r w'. bindP (withMachine p) (\<lambda>(t, err). case err of None \<Rightarrow> retP () | Some e \<Rightarrow> failP e) (m, w)
     = Some (r, (m, w'))"
  by (auto simp: withMachine_def bindP_apply retP_apply failP_apply
      split: result.splits option.splits)

lemma runOp_open_outcome:
  assumes "usesHandle op"
  shows "\<exists>r w'. runOp pf op (m, w) = Some (r, (m, w'))"
  using assms
  by (cases op)
     (simp_all add: usesHandle_def value_method_returns withMachine_outcome
        seq_withMachine_outcome time_withMachine_outcome del: not_None_eq)

lemma runOp_closed_outcome:
  assumes "usesHandle op" and "\<not> isOpen m"
  shows "\<exists>w'. runOp pf op (m, w) = Some (Err errUninitializedQuery, (m, w'))
           \<and> (op \<noteq> CollectWithTimeOp \<longrightarrow> w' = w)"
  using assms
  by (cases op)
     (auto simp: usesHandle_def isOpen_def query_defs withMachine_def seqP_apply bindP_apply
        failP_apply Let_def split: prod.splits)

lemma runOp_refines:
  assumes "nonzeroHandles pf"
  shows "\<exists>r m' w'. runOp pf op (m, w) = Some (r, (m', w')) \<and> queryStep (isOpen m) op r (isOpen m')"
proof (cases "usesHandle op")
  case True
  then show ?thesis
    using runOp_open_outcome [OF True, of pf m w] runOp_closed_outcome [OF True, of m pf w]
    by (cases "isOpen m") (auto intro: queryStep.intros)
next
  case False
  then consider "op = OpenOp" | "op = CloseOp" by (auto simp: usesHandle_def)
  then show ?thesis
  proof cases
    case 1
    show ?thesis
    proof (cases "\<exists>s. Open pf (m, w) = Some (Ok (), s)")
      case True
      then show ?thesis using 1 Open_open [OF assms] by (auto intro: queryStep.intros)
    next
      case False
      then obtain e m' w' where "Open pf (m, w) = Some (Err e, (m', w'))" "isOpen m' \<longrightarrow> m' = m"
        using query.open_outcome [where q = m and w = w and pf = pf] by blast
      then show ?thesis using 1 by (cases "isOpen m'") (auto intro: queryStep.intros)
    qed
  next
    case 2
    then show ?thesis
      using query.close_closed [of m pf w] query.close_open [of m pf w]
      by (cases "isOpen m") (auto intro: queryStep.intros)
  qed
qed

text \<open>A sequence of calls and their outcomes; a panic ends it.\<close>

primrec runOps ::
    "'w platform \<Rightarrow> queryOp list \<Rightarrow> performanceQueryImpl \<times> 'w
     \<Rightarrow> ((queryOp \<times> unit result) list \<times> (performanceQueryImpl \<times> 'w)) option" where
  "runOps pf [] s = Some ([], s)"
| "runOps pf (op # ops) s = (case runOp pf op s of
      None \<Rightarrow> None
    | Some (Panic p, s') \<Rightarrow> Some ([(op, Panic p)], s')
    | Some (r, s') \<Rightarrow> map_option (\<lambda>(tr, t). ((op, r) # tr, t)) (runOps pf ops s'))"

lemma runOps_refines:
  assumes "nonzeroHandles pf"
  shows "\<exists>tr m' w'. runOps pf ops (m, w) = Some (tr, (m', w')) \<and> queryTrace (isOpen m) tr (isOpen m')"
proof (induction ops arbitrary: m w)
  case Nil
  show ?case by (auto intro: trace_nil)
next
  case (Cons op ops)
  obtain r m1 w1 where run: "runOp pf op (m, w) = Some (r, (m1, w1))"
    and step: "queryStep (isOpen m) op r (isOpen m1)"
    using runOp_refines [OF assms] by blast
  show ?case
  proof (cases r)
    case (Panic p)
    then show ?thesis using run step by (auto intro: trace_step trace_nil)
  qed (use Cons.IH [of m1 w1] run step in \<open>auto intro: trace_step\<close>)
qed

lemma runOps_ops:
  "runOps pf ops s = Some (tr, t) \<Longrightarrow> fst ` set tr \<subseteq> set ops"
  by (induction ops arbitrary: s tr) (fastforce split: option.splits result.splits)+

text \<open>What the abstract machine promises of a closed query, on every trace.\<close>

lemma queryTrace_closed:
  assumes "queryTrace b tr b'" and "\<not> b" and "\<forall>(op, r) \<in> set tr. op \<noteq> OpenOp"
  shows "\<not> b' \<and> (\<forall>(op, r) \<in> set tr. r = Err errUninitializedQuery)"
  using assms
proof induction
  case (trace_step b op r b' tr b'')
  then have "op \<noteq> OpenOp" by auto
  then have "r = Err errUninitializedQuery \<and> \<not> b'"
    using trace_step.hyps(1) trace_step.prems(1) by (auto elim: queryStep_closedE)
  with trace_step.IH trace_step.prems(2) show ?case by auto
qed simp

section \<open>Properties\<close>



text \<open>
  A query that is not open never reaches Windows: adding a counter, collecting, reading a
  raw value and closing all end with the uninitialized-query error, the query object is
  unchanged, and so is the machine, apart from the clock that \<open>CollectDataWithTime\<close> reads.
\<close>

theorem closed_query_refused:
  assumes "queryHandle m = 0" and "op \<noteq> OpenOp"
  shows "\<exists>w'. runOp pf op (m, w) = Some (Err errUninitializedQuery, (m, w'))
           \<and> (op \<noteq> CollectWithTimeOp \<longrightarrow> w' = w)"
proof (cases "op = CloseOp")
  case True
  then show ?thesis using assms(1) query.close_closed [of m pf w] by (simp add: isOpen_def)
next
  case False
  with assms show ?thesis
    by (intro runOp_closed_outcome) (auto simp: usesHandle_def isOpen_def)
qed

theorem closed_query_refused_witness:
  "runOp (samplePlatform AMD64 [] 0 0) (AddOp ''x'') (NewPerformanceQuery 1024, ())
   = Some (Err errUninitializedQuery, (NewPerformanceQuery 1024, ()))"
  using closed_query_refused [of "NewPerformanceQuery 1024" "AddOp ''x''" "samplePlatform AMD64 [] 0 0" "()"]
  by (simp add: NewPerformanceQuery_def newPerformanceQuery_def del: runOp.simps)

text \<open>
  A closed query stays closed until it is opened again: after a successful \<open>Close\<close>, every
  further call of a sequence without \<open>Open\<close>, whatever its length, ends with the
  uninitialized-query error, and the object is closed at the end.
\<close>

theorem closed_until_opened:
  assumes "nonzeroHandles pf" and "Close pf (m, w) = Some (Ok (), (m1, w1))" and "OpenOp \<notin> set ops"
    and "runOps pf ops (m1, w1) = Some (tr, (m', w'))"
  shows "queryHandle m' = 0 \<and> (\<forall>(op, r) \<in> set tr. r = Err errUninitializedQuery)"
proof -
  have "queryTrace (isOpen m1) tr (isOpen m')"
    using runOps_refines [OF assms(1), of ops m1 w1] assms(4) by auto
  moreover have "\<not> isOpen m1" using query.closed_after_close [OF assms(2)] by blast
  moreover have "\<forall>(op, r) \<in> set tr. op \<noteq> OpenOp"
    using runOps_ops [OF assms(4)] assms(3) by fastforce
  ultimately have "\<not> isOpen m' \<and> (\<forall>(op, r) \<in> set tr. r = Err errUninitializedQuery)"
    by (rule queryTrace_closed)
  then show ?thesis by (simp add: isOpen_def)
qed

theorem closed_until_opened_witness:
  "\<exists>m' w' tr. runOps (samplePlatform AMD64 [] 0 0) [CollectOp, CloseOp]
      (\<lparr>maxBufferSize = 1024, queryHandle = 0\<rparr>, ()) = Some (tr, (m', w'))
    \<and> queryHandle m' = 0 \<and> (\<forall>(op, r) \<in> set tr. r = Err errUninitializedQuery)"
proof -
  let ?pf = "samplePlatform AMD64 [] 0 0" and ?m = "\<lparr>maxBufferSize = 1024, queryHandle = 0\<rparr>"
  have nz: "nonzeroHandles ?pf" by (simp add: nonzeroHandles_def samplePlatform_def)
  have closed: "Close ?pf (\<lparr>maxBufferSize = 1024, queryHandle = 1\<rparr>, ()) = Some (Ok (), (?m, ()))"
    by (simp add: Close_def pdhCloseQuery_def samplePlatform_def)
  have run: "runOps ?pf [CollectOp, CloseOp] (?m, ())
      = Some ([(CollectOp, Err errUninitializedQuery), (CloseOp, Err errUninitializedQuery)], (?m, ()))"
    by (simp add: CollectData_def Close_def withMachine_def)
  show ?thesis using closed_until_opened [OF nz closed _ run] run by auto
qed

subsection \<open>Single values\<close>

lemma GetFormattedCounterValueDouble_outcome:
  assumes "newObject pf (sizeOf (windowsABI (build pf)) documentedFmtValue) w = (p, wa)"
    and "pdhGetFormattedCounterValueDouble pf h p wa = (ret, wb)"
    and "le32 (mem pf wb) (p + of_nat (offsetOf (windowsABI (build pf)) documentedFmtValue ''CStatus'')) = status"
    and "le64 (mem pf wb) (p + of_nat (offsetOf (windowsABI (build pf)) documentedFmtValue ''Value'')) = v"
  shows "GetFormattedCounterValueDouble pf m h w =
    (if ret \<noteq> errorSuccess then failPdh pf ret wb else if validStatus status then Some (Ok v, wb) else failPdh pf status wb)"
proof -
  have fit: "sizeOf (goABI a) (pdhFmtCounterValueDouble a) = sizeOf (windowsABI a) documentedFmtValue"
    "fieldAddr a (pdhFmtCounterValueDouble a) ''CStatus'' p
     = p + of_nat (offsetOf (windowsABI a) documentedFmtValue ''CStatus'')"
    "loadDouble a m' p = le64 m' (p + of_nat (offsetOf (windowsABI a) documentedFmtValue ''Value''))" for a m'
    by (cases a; simp add: layout_simps fieldAddr_def loadDouble_def)+
  show ?thesis using assms by (simp add: GetFormattedCounterValueDouble_def singleValue_def fit)
qed

lemma GetRawCounterValue_outcome:
  assumes "newObject pf (sizeOf (windowsABI (build pf)) documentedRawCounter) w = (p, wa)"
    and "pdhGetRawCounterValue pf h p wa = (ret, wb)"
    and "le32 (mem pf wb) (p + of_nat (offsetOf (windowsABI (build pf)) documentedRawCounter ''CStatus'')) = status"
    and "le64 (mem pf wb) (p + of_nat (offsetOf (windowsABI (build pf)) documentedRawCounter ''FirstValue'')) = v"
    and "build pf \<noteq> I386" and "queryHandle m \<noteq> 0"
  shows "GetRawCounterValue pf m h w =
    (if ret \<noteq> errorSuccess then failPdh pf ret wb else if validStatus status then Some (Ok v, wb) else failPdh pf status wb)"
proof -
  have fit: "sizeOf (goABI a) (pdhRawCounter a) = sizeOf (windowsABI a) documentedRawCounter"
    "fieldAddr a (pdhRawCounter a) ''CStatus'' p
     = p + of_nat (offsetOf (windowsABI a) documentedRawCounter ''CStatus'')"
    "loadFirst a m' p = le64 m' (p + of_nat (offsetOf (windowsABI a) documentedRawCounter ''FirstValue''))" if "a \<noteq> I386" for a m'
    using that by (cases a; simp add: layout_simps fieldAddr_def loadFirst_def)+
  show ?thesis using assms by (simp add: GetRawCounterValue_def singleValue_def fit)
qed

text \<open>
  C29. A displayable value is read exactly as Windows wrote it, on every architecture: when the
  call succeeds and leaves the status and the value at the documented offsets of the
  allocated structure, \<open>GetFormattedCounterValueDouble\<close> returns the value if the status is
  valid or new, and otherwise an error that carries the status.
\<close>

theorem GetFormattedCounterValueDouble_exact:
  assumes "newObject pf (sizeOf (windowsABI (build pf)) documentedFmtValue) w = (p, wa)"
    and "pdhGetFormattedCounterValueDouble pf h p wa = (errorSuccess, wb)"
    and "le32 (mem pf wb) (p + of_nat (offsetOf (windowsABI (build pf)) documentedFmtValue ''CStatus'')) = status"
    and "le64 (mem pf wb) (p + of_nat (offsetOf (windowsABI (build pf)) documentedFmtValue ''Value'')) = v"
  shows "GetFormattedCounterValueDouble pf m h w =
    (if status = pdhCstatusValidData \<or> status = pdhCstatusNewData then Some (Ok v, wb)
     else Some (Err (fst (newPdhError pf status wb)), snd (newPdhError pf status wb)))"
  using GetFormattedCounterValueDouble_outcome [OF assms] by (simp add: failPdh_outcome validStatus_def)

theorem GetFormattedCounterValueDouble_exact_witness:
  "GetFormattedCounterValueDouble
     (samplePlatform I386 [1,0,0,0, 0,0,0,0, 0,0,0,0,0,0,0xF0,0x3F] 0 0) (NewPerformanceQuery 1024) 1 ()
   = Some (Ok 0x3FF0000000000000, ())"
  by (subst GetFormattedCounterValueDouble_exact [where p = 4096 and wa = "()" and wb = "()"
        and status = 1 and v = "0x3FF0000000000000"])
     (simp_all add: samplePlatform_def pdhGetFormattedCounterValueDouble_def layout_simps
        bytesAt_def le64_def le32_def)

text \<open>
  C39. A long value is not read from where Windows writes it: whatever value the call leaves at
  the documented offset 8, \<open>GetFormattedCounterValueLong\<close> returns the four bytes at offset 4,
  which are padding of the documented structure, on every architecture.
\<close>

theorem GetFormattedCounterValueLong_reads_padding:
  assumes "newObject pf (if build pf = I386 then 12 else 8) w = (p, wa)"
    and "pdhGetFormattedCounterValueLong pf h p wa = (errorSuccess, wb)"
    and "le32 (mem pf wb) p = pdhCstatusValidData"
  shows "GetFormattedCounterValueLong pf m h w = Some (Ok (le32 (mem pf wb) (p + 4)), wb)
    \<and> offsetOf (windowsABI (build pf)) documentedFmtValue ''Value'' = 8"
proof -
  have fit: "sizeOf (goABI a) (pdhFmtCounterValueLong a) = (if a = I386 then 12 else 8)"
    "fieldAddr a (pdhFmtCounterValueLong a) ''CStatus'' p = p"
    "loadLong a m' p = le32 m' (p + 4)"
    "offsetOf (windowsABI a) documentedFmtValue ''Value'' = 8" for a m'
    by (cases a; simp add: layout_simps fieldAddr_def loadLong_def)+
  show ?thesis
    using assms by (simp add: GetFormattedCounterValueLong_def singleValue_def fit validStatus_def)
qed

theorem GetFormattedCounterValueLong_reads_padding_witness:
  "GetFormattedCounterValueLong
     (samplePlatform AMD64 [0,0,0,0, 0,0,0,0, 42,0,0,0, 0,0,0,0] 0 0) (NewPerformanceQuery 1024) 1 () = Some (Ok 0, ())"
proof -
  let ?pf = "samplePlatform AMD64 [0,0,0,0, 0,0,0,0, 42,0,0,0, 0,0,0,0] 0 0"
  have "GetFormattedCounterValueLong ?pf (NewPerformanceQuery 1024) 1 () = Some (Ok (le32 (mem ?pf ()) (4096 + 4)), ())
      \<and> offsetOf (windowsABI (build ?pf)) documentedFmtValue ''Value'' = 8"
    by (rule GetFormattedCounterValueLong_reads_padding [where p = 4096 and wa = "()" and wb = "()"])
       (simp_all add: pdhGetFormattedCounterValueLong_def samplePlatform_def bytesAt_def le32_def)
  then show ?thesis by (simp add: bytesAt_def le32_def)
qed

end
