(* ===== verification/WinPerf.thy ===== *)
theory WinPerf
  imports Metric Logger QueryLifecycle
begin

text \<open>
  The collector's configuration and its set-up (\<open>win_perf_counters.go\<close>): the records, \<open>Init\<close>,
  the creation of counters from the configuration (\<open>parseConfig\<close>, \<open>addItem\<close>) and the
  release of the queries (\<open>cleanQueries\<close>). The methods are programs over a runtime state,
  which holds the collector, the machine, the log and the measurements handed to the
  callback. Lemmas and properties are in the theories \<open>Config\<close>, \<open>Parsing\<close> and \<open>Expansion\<close>.
\<close>

section \<open>State\<close>

record perfObject =
  object_Sources :: "string list"
  ObjectName :: string
  Counters :: "string list"
  Instances :: "string list"
  Measurement :: string
  WarnOnMissing :: bool
  FailOnMissing :: bool
  IncludeTotal :: bool
  UseRawValues :: bool

record hostCountersInfo =
  host_computer :: string
  host_tag :: string
  host_counters :: "counter list"
  host_query :: performanceQueryImpl
  host_timestamp :: Time

text \<open>
  \<open>hostCounters\<close> is a Go map from computer names (nil and empty are not told apart by the
  code); \<open>hasCollect\<close> says whether the callback \<open>collect\<close> is set. \<open>queryCreator\<close> is always
  the creator of \<open>performance_query.go\<close>.
\<close>

record WinPerfCounters =
  PrintValid :: bool
  PreVistaSupport :: bool
  UsePerfCounterTime :: bool
  Object :: "perfObject list"
  CountersRefreshInterval :: Duration
  UseWildcardsExpansion :: bool
  LocalizeWildcardsExpansion :: bool
  IgnoredErrors :: "string list"
  MaxBufferSize :: int
  Sources :: "string list"
  Log :: Logger
  lastRefreshed :: Time
  hostCounters :: "(string \<times> hostCountersInfo) list"
  cachedHostname :: string
  hasCollect :: bool

record metric =
  metric_name :: string
  metric_fields :: fieldMap
  metric_tags :: "(string \<times> string) list"
  metric_time :: Time

record 'w runtime =
  wpc :: WinPerfCounters
  world :: 'w
  loglines :: log
  emitted :: "metric list"

type_synonym ('w, 'a) rprog = "('w runtime, 'a) prog"

definition defaultMaxBufferSize :: int where
  "defaultMaxBufferSize = 100 * 1024 * 1024"

definition NewWinPerfCounters :: "bool \<Rightarrow> WinPerfCounters" where
  "NewWinPerfCounters collectFunc = \<lparr>
     PrintValid = False, PreVistaSupport = False, UsePerfCounterTime = False, Object = [],
     CountersRefreshInterval = second * 60, UseWildcardsExpansion = False,
     LocalizeWildcardsExpansion = True, IgnoredErrors = [], MaxBufferSize = defaultMaxBufferSize,
     Sources = [], Log = \<lparr>LoggerName = ''win_perf_counters'', Quiet = False\<rparr>,
     lastRefreshed = zeroTime, hostCounters = [], cachedHostname = '''',
     hasCollect = collectFunc\<rparr>"

text \<open>The text of the embedded file \<open>sample.conf\<close> is an argument.\<close>

definition SampleConfig :: "string \<Rightarrow> WinPerfCounters \<Rightarrow> string" where
  "SampleConfig sampleConfig m = sampleConfig"

section \<open>Access to the state\<close>

text \<open>A program over the machine, and a pure result, as programs over the runtime.\<close>

definition machine :: "('w, 'a) prog \<Rightarrow> ('w, 'a) rprog" where
  "machine p = (\<lambda>s. map_option (\<lambda>(r, w). (r, s\<lparr>world := w\<rparr>)) (p (world s)))"

definition liftR :: "'a result \<Rightarrow> ('s, 'a) prog" where
  "liftR r = (\<lambda>s. Some (r, s))"

definition cfg :: "(WinPerfCounters \<Rightarrow> 'a) \<Rightarrow> ('w, 'a) rprog" where
  "cfg f = getP (\<lambda>s. f (wpc s))"

definition setCfg :: "(WinPerfCounters \<Rightarrow> WinPerfCounters) \<Rightarrow> ('w, unit) rprog" where
  "setCfg f = modifyP (\<lambda>s. s\<lparr>wpc := f (wpc s)\<rparr>)"

definition logWith :: "(Logger \<Rightarrow> log \<Rightarrow> log) \<Rightarrow> ('w, unit) rprog" where
  "logWith f = modifyP (\<lambda>s. s\<lparr>loglines := f (Log (wpc s)) (loglines s)\<rparr>)"

text \<open>
  The entry of a host is a pointer of the map; reading and writing through it goes through
  its key.
\<close>

definition host :: "string \<Rightarrow> 'w runtime \<Rightarrow> hostCountersInfo option" where
  "host key s = map_of (hostCounters (wpc s)) key"

definition setHost :: "string \<Rightarrow> hostCountersInfo \<Rightarrow> 'w runtime \<Rightarrow> 'w runtime" where
  "setHost key h s = s\<lparr>wpc := (wpc s)\<lparr>hostCounters := upsert key h (hostCounters (wpc s))\<rparr>\<rparr>"

definition onHost :: "string \<Rightarrow> (hostCountersInfo \<Rightarrow> ('w, 'a) rprog) \<Rightarrow> ('w, 'a) rprog" where
  "onHost key f = (\<lambda>s. case host key s of
      None \<Rightarrow> Some (Panic ''nil pointer dereference'', s)
    | Some h \<Rightarrow> f h s)"

text \<open>A method of the host's query that does not change the query object, and one that does.\<close>

definition readQuery :: "string \<Rightarrow> (performanceQueryImpl \<Rightarrow> ('w, 'a) prog) \<Rightarrow> ('w, 'a) rprog" where
  "readQuery key p = onHost key (\<lambda>h. machine (p (host_query h)))"

definition changeQuery :: "string \<Rightarrow> ('w, 'a) qprog \<Rightarrow> ('w, 'a) rprog" where
  "changeQuery key p = onHost key (\<lambda>h s.
     map_option (\<lambda>(r, (q, w)). (r, (setHost key (h\<lparr>host_query := q\<rparr>) s)\<lparr>world := w\<rparr>))
       (p (host_query h, world s)))"

definition appendCounter :: "string \<Rightarrow> counter \<Rightarrow> ('w, unit) rprog" where
  "appendCounter key c = onHost key (\<lambda>h.
     modifyP (setHost key (h\<lparr>host_counters := host_counters h @ [c]\<rparr>)))"

text \<open>The keys of the map in the order in which Go happens to walk it.\<close>

definition rangeHosts :: "'w platform \<Rightarrow> ('w, string list) rprog" where
  "rangeHosts pf = (\<lambda>s.
     let keys = map fst (hostCounters (wpc s));
         (order, w) = rangePerm pf (length keys) (world s)
     in Some (Ok (map (\<lambda>i. keys ! i) order), s\<lparr>world := w\<rparr>))"

lemmas runtime_defs = machine_def liftR_def cfg_def setCfg_def logWith_def host_def setHost_def
  onHost_def readQuery_def changeQuery_def appendCounter_def rangeHosts_def

section \<open>\<open>Init\<close>\<close>

definition wildcards :: "string list" where
  "wildcards = [''*'', ''?'']"

text \<open>The wildcards of the configuration, each with the line that reports it.\<close>

definition objectWildcards :: "perfObject \<Rightarrow> (string \<times> fmt_arg list) list" where
  "objectWildcards obj =
     map (\<lambda>wc. (''Object: %s, contains wildcard %s'', [AStr (ObjectName obj), AStr wc]))
       (filter (contains (ObjectName obj)) wildcards)
     @ concat (map (\<lambda>ctr.
         map (\<lambda>wc. (''Object: %s, counter: %s contains wildcard %s'',
                     [AStr (ObjectName obj), AStr ctr, AStr wc]))
           (filter (contains ctr) wildcards))
         (Counters obj))"

definition Init :: "('w, unit) rprog" where
  "Init =
     bindP (cfg MaxBufferSize) (\<lambda>sz.
     if sz < uint initialBufferSize
     then failP (Errorf ''maximum buffer size should at least be %d'' [AInt (uint (2 * initialBufferSize))] None)
     else if sz > 2 ^ 32 - 1
     then failP (Errorf ''maximum buffer size should be smaller than %d'' [AInt (2 ^ 32 - 1)] None)
     else bindP (cfg (\<lambda>m. UseWildcardsExpansion m \<and> \<not> LocalizeWildcardsExpansion m)) (\<lambda>forbidden.
     if forbidden
     then bindP (cfg (\<lambda>m. concat (map objectWildcards (Object m)))) (\<lambda>found.
          seqP (forP found (\<lambda>(format, args). logWith (\<lambda>l. Logger_Errorf l format args)))
            (if found \<noteq> []
             then failP (ErrorsNew (''wildcards can'' @ [CHR 0x27] @ ''t be used with LocalizeWildcardsExpansion=false''))
             else retP ()))
     else retP ()))"

section \<open>\<open>hostname\<close> and \<open>addItem\<close>\<close>

definition hostname :: "'w platform \<Rightarrow> ('w, string) rprog" where
  "hostname pf =
     bindP (cfg cachedHostname) (\<lambda>cached.
     if cached \<noteq> '''' then retP cached
     else bindP (machine (\<lambda>w. let (name, w') = osHostname pf w in Some (Ok name, w'))) (\<lambda>name.
       seqP (setCfg (\<lambda>m. m\<lparr>cachedHostname := (case name of None \<Rightarrow> ''localhost'' | Some n \<Rightarrow> n)\<rparr>))
         (cfg cachedHostname)))"

text \<open>A new host enters the map before its query is opened, and stays there if that fails.\<close>

definition ensureHost :: "'w platform \<Rightarrow> string \<Rightarrow> string \<Rightarrow> ('w, unit) rprog" where
  "ensureHost pf computer sourceTag =
     bindP (getP (host computer)) (\<lambda>known.
     if known \<noteq> None then retP ()
     else bindP (cfg MaxBufferSize) (\<lambda>sz.
       seqP (modifyP (setHost computer \<lparr>host_computer = computer, host_tag = sourceTag,
               host_counters = [], host_query = newPerformanceQuery computer (word_of_int sz),
               host_timestamp = zeroTime\<rparr>))
         (changeQuery computer (Open pf))))"

definition addToQuery :: "'w platform \<Rightarrow> string \<Rightarrow> string \<Rightarrow> ('w, pdhCounterHandle) rprog" where
  "addToQuery pf key path =
     (if \<not> IsVistaOrNewer pf then readQuery key (\<lambda>q. AddCounterToQuery pf q path)
      else readQuery key (\<lambda>q. AddEnglishCounterToQuery pf q path))"

definition logValid :: "string \<Rightarrow> ('w, unit) rprog" where
  "logValid path =
     bindP (cfg PrintValid) (\<lambda>print.
     if print then logWith (\<lambda>l. Logger_Infof l ''Valid: %s'' [AStr path]) else retP ())"

text \<open>The body of the loop over the expanded paths.\<close>

definition addExpanded ::
    "'w platform \<Rightarrow> string \<Rightarrow> string \<Rightarrow> string \<Rightarrow> string \<Rightarrow> string \<Rightarrow> bool \<Rightarrow> bool \<Rightarrow> string \<Rightarrow> ('w, unit) rprog" where
  "addExpanded pf key origInstance origObjectName origCounterName measurement inclTotal useRaw path =
     bindP (readQuery key (\<lambda>q. AddCounterToQuery pf q path)) (\<lambda>_.
     bindP (liftR (extractCounterInfoFromCounterPath path)) (\<lambda>(computer, objectName, inst, counterName).
     bindP (cfg LocalizeWildcardsExpansion) (\<lambda>localize.
     bindP
       (if \<not> localize then
          (let newInstance = (if inst = '''' then emptyInstance else inst);
               path' = formatPath computer origObjectName newInstance origCounterName
           in bindP (readQuery key (\<lambda>q. AddEnglishCounterToQuery pf q path')) (\<lambda>handle.
              retP (path', newCounter handle path' computer origObjectName inst origCounterName
                             measurement inclTotal useRaw)))
        else
          bindP (readQuery key (\<lambda>q. AddCounterToQuery pf q path)) (\<lambda>handle.
            retP (path, newCounter handle path computer objectName inst counterName
                          measurement inclTotal useRaw)))
       (\<lambda>(path', newItem).
        if inst = ''_Total'' \<and> origInstance = ''*'' \<and> \<not> inclTotal then retP ()
        else seqP (appendCounter key newItem) (logValid path')))))"

definition addItem ::
    "'w platform \<Rightarrow> string \<Rightarrow> string \<Rightarrow> string \<Rightarrow> string \<Rightarrow> string \<Rightarrow> string \<Rightarrow> bool \<Rightarrow> bool \<Rightarrow> ('w, unit) rprog" where
  "addItem pf path computer objectName inst counterName measurement inclTotal useRaw =
     bindP (if computer = ''localhost'' then hostname pf else retP computer) (\<lambda>sourceTag.
     seqP (ensureHost pf computer sourceTag) (
     bindP (addToQuery pf computer path) (\<lambda>handle.
     bindP (cfg UseWildcardsExpansion) (\<lambda>expand.
     if expand then
       bindP (readQuery computer (\<lambda>q. GetCounterPath pf q handle)) (\<lambda>fullPath.
       bindP (readQuery computer (\<lambda>q. ExpandWildCardPath pf q fullPath)) (\<lambda>counters.
       bindP (liftR (extractCounterInfoFromCounterPath path)) (\<lambda>(_, origObjectName, _, origCounterName).
       forP counters
         (addExpanded pf computer inst origObjectName origCounterName measurement inclTotal useRaw))))
     else
       seqP (appendCounter computer (newCounter handle path computer objectName inst counterName
                                       measurement inclTotal useRaw))
         (logValid path)))))"

section \<open>\<open>parseConfig\<close> and \<open>cleanQueries\<close>\<close>

definition addInstance :: "'w platform \<Rightarrow> perfObject \<Rightarrow> string \<Rightarrow> string \<Rightarrow> string \<Rightarrow> ('w, unit) rprog" where
  "addInstance pf obj computer ctr inst =
     (let path = formatPath computer (ObjectName obj) inst ctr in
      bindP (attemptP (addItem pf path computer (ObjectName obj) inst ctr (Measurement obj)
                         (IncludeTotal obj) (UseRawValues obj)))
        (case_sum (\<lambda>err.
            seqP (if FailOnMissing obj \<or> WarnOnMissing obj
                  then logWith (\<lambda>l. Logger_Errorf l ''Invalid counterPath %q: %s'' [AStr path, AErr err])
                  else retP ())
              (if FailOnMissing obj then failP err else retP ()))
          (\<lambda>_. retP ())))"

definition addCounters :: "'w platform \<Rightarrow> perfObject \<Rightarrow> string \<Rightarrow> ('w, unit) rprog" where
  "addCounters pf obj computer =
     forP (Counters obj) (\<lambda>ctr.
       seqP (if Instances obj = []
             then logWith (\<lambda>l. Logger_Warnf l (''Missing '' @ [CHR 0x27] @ ''Instances'' @ [CHR 0x27]
                    @ '' param for object %q'') [AStr (ObjectName obj)])
             else retP ())
         (forP (Instances obj) (addInstance pf obj computer ctr)))"

definition parseConfig :: "'w platform \<Rightarrow> ('w, unit) rprog" where
  "parseConfig pf =
     seqP (setCfg (\<lambda>m. if Sources m = [] then m\<lparr>Sources := [''localhost'']\<rparr> else m)) (
     bindP (cfg Object) (\<lambda>objects.
     if objects = [] then failP (ErrorsNew ''no performance objects configured'')
     else forP objects (\<lambda>obj.
       bindP (cfg Sources) (\<lambda>sources.
       forP (if object_Sources obj = [] then sources else object_Sources obj) (\<lambda>computer.
         addCounters pf obj (if computer = '''' then ''localhost'' else computer))))))"

definition cleanQueries :: "'w platform \<Rightarrow> ('w, unit) rprog" where
  "cleanQueries pf =
     bindP (rangeHosts pf) (\<lambda>keys.
     seqP (forP keys (\<lambda>key. changeQuery key (Close pf)))
       (setCfg (\<lambda>m. m\<lparr>hostCounters := []\<rparr>)))"

end
