(* ===== verification/QueryBuffers.thy ===== *)
theory QueryBuffers
  imports Query SamplePlatform
begin

text \<open>
  The buffer-growing loop of the query (\<open>performance_query.go\<close>): a proof rule for it, its
  termination and exact outcome for calls that keep to their documentation, the two ways in
  which its 32-bit length wraps around, and the locale that carries these facts to the six
  methods built on the loop.
\<close>

section \<open>A rule for the loop\<close>

lemma pdhMoreData_not_success [simp]: "pdhMoreData \<noteq> errorSuccess"
  by simp

lemma failPdh_eq:
  "failPdh pf code w = Some (Err (fst (newPdhError pf code w)), snd (newPdhError pf code w))"
  by (simp add: failPdh_def case_prod_unfold Let_def)

text \<open>The next buffer length, and that it grows while no length reaches 2 GiB.\<close>

definition nextLength :: "u32 \<Rightarrow> u32 \<Rightarrow> u32" where
  "nextLength buflen sz = (if buflen < sz then sz else buflen) * 2"

lemma unat_nextLength:
  assumes "buflen < 2 ^ 31" and "sz < 2 ^ 31"
  shows "unat (nextLength buflen sz) = 2 * max (unat buflen) (unat sz)"
proof -
  have "unat buflen < 2 ^ 31" "unat sz < 2 ^ 31"
    using assms by (simp_all add: word_less_nat_alt)
  then show ?thesis
    by (auto simp: nextLength_def word_less_nat_alt unat_word_ariths max_def)
qed

lemma nextLength_grows:
  assumes "buflen < 2 ^ 31" and "sz < 2 ^ 31" and "buflen \<noteq> 0"
  shows "unat buflen < unat (nextLength buflen sz)" and "nextLength buflen sz \<noteq> 0"
proof -
  have "0 < unat buflen" using assms(3) by (simp add: unat_gt_0)
  with unat_nextLength [OF assms(1,2)]
  show "unat buflen < unat (nextLength buflen sz)" by (simp add: max_def)
  then show "nextLength buflen sz \<noteq> 0" by auto
qed

text \<open>
  Every run of the loop under a limit below 2 GiB ends, in an outcome that satisfies \<open>P\<close>, if
  the calls keep \<open>J\<close>, hand back sizes below 2 GiB, and lead to \<open>P\<close> where they stop the loop.
\<close>

lemma bufferLoop_rule:
  assumes limit: "maxBuf < 2 ^ 31"
    and step: "\<And>b w buf w1 ret sz n w2. J w \<Longrightarrow> b \<noteq> 0 \<Longrightarrow> b \<le> maxBuf
      \<Longrightarrow> newObject pf (width * unat b) w = (buf, w1) \<Longrightarrow> call buf b w1 = (ret, sz, n, w2)
      \<Longrightarrow> sz < 2 ^ 31
        \<and> (ret = errorSuccess \<longrightarrow> P (decode (mem pf w2) buf b n) w2)
        \<and> (ret \<noteq> errorSuccess \<longrightarrow> ret \<noteq> pdhMoreData
             \<longrightarrow> P (Err (fst (newPdhError pf ret w2))) (snd (newPdhError pf ret w2)))
        \<and> (ret = pdhMoreData \<longrightarrow> J w2)"
    and over: "\<And>w. J w \<Longrightarrow> P (Err errBufferLimitReached) w"
  shows "J w \<Longrightarrow> buflen \<noteq> 0
    \<Longrightarrow> \<exists>r t. bufferLoop pf width maxBuf call decode buflen w = Some (r, t) \<and> P r t"
proof (induction "2 ^ 32 - unat buflen" arbitrary: buflen w rule: less_induct)
  case less
  note unfold = bufferLoop.simps [of pf width maxBuf call decode buflen w]
  show ?case
  proof (cases "buflen \<le> maxBuf")
    case False
    then show ?thesis using over [OF less.prems(1)] unfold by simp
  next
    case True
    obtain buf w1 where alloc: "newObject pf (width * unat buflen) w = (buf, w1)" by fastforce
    obtain ret sz n w2 where run: "call buf buflen w1 = (ret, sz, n, w2)"
      by (metis prod_cases4)
    note st = step [OF less.prems True alloc run]
    consider "ret = errorSuccess" | "ret \<noteq> errorSuccess" "ret \<noteq> pdhMoreData" | "ret = pdhMoreData"
      by blast
    then show ?thesis
    proof cases
      case 1
      then show ?thesis using st True less.prems alloc run unfold by simp
    next
      case 2
      then show ?thesis using st True less.prems alloc run unfold by (simp add: failPdh_eq)
    next
      case 3
      have small: "buflen < 2 ^ 31" using True limit by (rule le_less_trans)
      have grows: "unat buflen < unat (nextLength buflen sz)" "nextLength buflen sz \<noteq> 0"
        using nextLength_grows [OF small _ less.prems(2)] st by blast+
      moreover have "unat (nextLength buflen sz) < 2 ^ 32"
        using unsigned_less [where ?'a = nat, of "nextLength buflen sz"] by simp
      ultimately have "2 ^ 32 - unat (nextLength buflen sz) < 2 ^ 32 - unat buflen"
        by linarith
      from less.hyps [OF this] have "\<exists>r t. bufferLoop pf width maxBuf call decode
          (nextLength buflen sz) w2 = Some (r, t) \<and> P r t"
        using 3 st grows(2) by blast
      then show ?thesis using 3 True less.prems alloc run unfold by (simp add: nextLength_def)
    qed
  qed
qed

section \<open>Calls that keep to their documentation\<close>

text \<open>
  A function of the Performance Data Helper that fills a buffer needs some number of elements.
  Given a new buffer of fewer it answers \<open>PDH_MORE_DATA\<close> and the number; given enough it
  succeeds and leaves what \<open>post\<close> says. \<open>J\<close> is what the machine keeps meanwhile.
\<close>

definition sizedCall ::
    "'w platform \<Rightarrow> nat \<Rightarrow> ('w \<Rightarrow> bool) \<Rightarrow> u32 \<Rightarrow> 'w pdhCall
     \<Rightarrow> (addr \<Rightarrow> u32 \<Rightarrow> u32 \<Rightarrow> 'w \<Rightarrow> bool) \<Rightarrow> bool" where
  "sizedCall pf width J need call post \<longleftrightarrow>
     (\<forall>b w. J w \<longrightarrow> (case newObject pf (width * unat b) w of (buf, w1) \<Rightarrow>
        case call buf b w1 of (ret, sz, n, w') \<Rightarrow>
          J w' \<and> (if b < need then ret = pdhMoreData \<and> sz = need
                   else ret = errorSuccess \<and> post buf b n w')))"

lemma sizedCallD:
  assumes "sizedCall pf width J need call post" "J w"
    and "newObject pf (width * unat b) w = (buf, w1)" "call buf b w1 = (ret, sz, n, w2)"
  shows "J w2"
    and "b < need \<Longrightarrow> ret = pdhMoreData \<and> sz = need"
    and "need \<le> b \<Longrightarrow> ret = errorSuccess \<and> post buf b n w2"
proof -
  have "J w2 \<and> (if b < need then ret = pdhMoreData \<and> sz = need
                   else ret = errorSuccess \<and> post buf b n w2)"
    using spec [OF spec [OF assms(1) [unfolded sizedCall_def], of b], of w] assms(2-4) by simp
  then show "J w2" "b < need \<Longrightarrow> ret = pdhMoreData \<and> sz = need"
    "need \<le> b \<Longrightarrow> ret = errorSuccess \<and> post buf b n w2"
    by (auto simp: not_le [symmetric])
qed

text \<open>One round of the loop, with a buffer that is too small or large enough.\<close>

lemma bufferLoop_enough:
  assumes "sizedCall pf width J need call post" "J w"
    and "buflen \<le> maxBuf" "buflen \<noteq> 0" "need \<le> buflen"
  shows "\<exists>buf n t. bufferLoop pf width maxBuf call decode buflen w
           = Some (decode (mem pf t) buf buflen n, t) \<and> J t \<and> post buf buflen n t"
proof -
  obtain buf w1 where alloc: "newObject pf (width * unat buflen) w = (buf, w1)" by fastforce
  obtain ret sz n w2 where run: "call buf buflen w1 = (ret, sz, n, w2)"
    by (metis prod_cases4)
  have "J w2 \<and> ret = errorSuccess \<and> post buf buflen n w2"
    using sizedCallD [OF assms(1,2) alloc run] assms(5) by blast
  then show ?thesis
    using assms(3,4) alloc run bufferLoop.simps [of pf width maxBuf call decode buflen w] by auto
qed

lemma bufferLoop_short:
  assumes "sizedCall pf width J need call post" "J w"
    and "buflen \<le> maxBuf" "buflen \<noteq> 0" "buflen < need"
  shows "\<exists>t. bufferLoop pf width maxBuf call decode buflen w
           = bufferLoop pf width maxBuf call decode (need * 2) t \<and> J t"
proof -
  obtain buf w1 where alloc: "newObject pf (width * unat buflen) w = (buf, w1)" by fastforce
  obtain ret sz n w2 where run: "call buf buflen w1 = (ret, sz, n, w2)"
    by (metis prod_cases4)
  have "J w2 \<and> ret = pdhMoreData \<and> sz = need"
    using sizedCallD [OF assms(1,2) alloc run] assms(5) by blast
  then show ?thesis
    using assms(3-5) alloc run bufferLoop.simps [of pf width maxBuf call decode buflen w] by auto
qed

lemma bufferLoop_over:
  "maxBuf < buflen \<Longrightarrow>
   bufferLoop pf width maxBuf call decode buflen w = Some (Err errBufferLimitReached, w)"
  by (subst bufferLoop.simps) (simp only: linorder_not_le [symmetric] if_False)

text \<open>
  The whole loop: it needs the initial buffer, or twice what Windows asked for, to be within
  the limit.
\<close>

definition bufferFits :: "u32 \<Rightarrow> u32 \<Rightarrow> bool" where
  "bufferFits maxBuf need \<longleftrightarrow>
     initialBufferSize \<le> maxBuf \<and> (need \<le> initialBufferSize \<or> 2 * unat need \<le> unat maxBuf)"

lemma bufferLoop_sized_fits:
  assumes call: "sizedCall pf width J need call post" "J w"
    and need: "need < 2 ^ 31" and fits: "bufferFits maxBuf need"
  shows "\<exists>buf b n t. bufferLoop pf width maxBuf call decode initialBufferSize w
           = Some (decode (mem pf t) buf b n, t) \<and> need \<le> b \<and> J t \<and> post buf b n t"
proof (cases "need \<le> initialBufferSize")
  case True
  then show ?thesis
    using bufferLoop_enough [OF call, of initialBufferSize maxBuf decode] fits
    by (auto simp: bufferFits_def initialBufferSize_def)
next
  case False
  have double: "unat (need * 2) = 2 * unat need"
    using need by (simp add: word_less_nat_alt unat_word_ariths)
  obtain t where short: "bufferLoop pf width maxBuf call decode initialBufferSize w
      = bufferLoop pf width maxBuf call decode (need * 2) t" and "J t"
    using bufferLoop_short [OF call, of initialBufferSize maxBuf decode] fits False
    by (auto simp: bufferFits_def initialBufferSize_def not_le)
  moreover have "need * 2 \<le> maxBuf" "need \<le> need * 2" "need * 2 \<noteq> 0"
    using fits False double by (auto simp: bufferFits_def word_le_nat_alt)
  ultimately show ?thesis
    using bufferLoop_enough [OF call(1), of t "need * 2" maxBuf decode] by auto
qed

lemma bufferLoop_sized_limit:
  assumes call: "sizedCall pf width J need call post" "J w"
    and need: "need < 2 ^ 31" and unfit: "\<not> bufferFits maxBuf need"
  shows "\<exists>t. bufferLoop pf width maxBuf call decode initialBufferSize w
           = Some (Err errBufferLimitReached, t) \<and> J t"
proof (cases "initialBufferSize \<le> maxBuf")
  case False
  then show ?thesis using call(2) by (auto simp: bufferLoop_over)
next
  case True
  have double: "unat (need * 2) = 2 * unat need"
    using need by (simp add: word_less_nat_alt unat_word_ariths)
  have big: "initialBufferSize < need" and over: "maxBuf < need * 2"
    using unfit True double by (auto simp: bufferFits_def word_less_nat_alt word_le_nat_alt)
  obtain t where "bufferLoop pf width maxBuf call decode initialBufferSize w
      = bufferLoop pf width maxBuf call decode (need * 2) t" and "J t"
    using bufferLoop_short [OF call True _ big, of decode]
    by (auto simp: initialBufferSize_def)
  then show ?thesis using bufferLoop_over [OF over, of pf width call decode t] by metis
qed

section \<open>The methods built on the loop\<close>

locale buffered_read =
  fixes pf :: "'w platform" and width :: nat and call :: "'w pdhCall"
    and decode :: "memory \<Rightarrow> addr \<Rightarrow> u32 \<Rightarrow> u32 \<Rightarrow> 'a result"
    and getter :: "performanceQueryImpl \<Rightarrow> ('w, 'a) prog"
  assumes getter_loop:
    "getter m = bufferLoop pf width (maxBufferSize m) call decode initialBufferSize"
begin

lemma getter_returns:
  assumes "maxBufferSize m < 2 ^ 31"
    and "\<And>buf b w ret sz n w'. call buf b w = (ret, sz, n, w') \<Longrightarrow> sz < 2 ^ 31"
  shows "getter m w \<noteq> None"
proof -
  have "\<exists>r t. bufferLoop pf width (maxBufferSize m) call decode initialBufferSize w = Some (r, t) \<and> True"
    by (rule bufferLoop_rule [where J = "\<lambda>_. True"])
       (use assms in \<open>auto simp: initialBufferSize_def\<close>)
  then show ?thesis by (auto simp: getter_loop)
qed

lemma getter_panics_only_in_decode:
  assumes "maxBufferSize m < 2 ^ 31"
    and "\<And>buf b w ret sz n w'. call buf b w = (ret, sz, n, w') \<Longrightarrow> sz < 2 ^ 31"
    and "getter m w = Some (Panic p, t)"
  shows "\<exists>buf b n. decode (mem pf t) buf b n = Panic p"
proof -
  have "\<exists>r t. bufferLoop pf width (maxBufferSize m) call decode initialBufferSize w = Some (r, t)
      \<and> (\<forall>p. r = Panic p \<longrightarrow> (\<exists>buf b n. decode (mem pf t) buf b n = Panic p))"
    by (rule bufferLoop_rule [where J = "\<lambda>_. True"])
       (use assms(1,2) in \<open>auto simp: initialBufferSize_def\<close>)
  then show ?thesis using assms(3) by (auto simp: getter_loop)
qed

lemma getter_fits:
  assumes "sizedCall pf width J need call post" "J w" "need < 2 ^ 31"
    and "bufferFits (maxBufferSize m) need"
  shows "\<exists>buf b n t. getter m w = Some (decode (mem pf t) buf b n, t) \<and> need \<le> b \<and> J t \<and> post buf b n t"
  using bufferLoop_sized_fits [OF assms] unfolding getter_loop by blast

lemma getter_limit:
  assumes "sizedCall pf width J need call post" "J w" "need < 2 ^ 31"
    and "\<not> bufferFits (maxBufferSize m) need"
  shows "\<exists>t. getter m w = Some (Err errBufferLimitReached, t)"
  using bufferLoop_sized_limit [OF assms] unfolding getter_loop by blast

end

text \<open>What each method calls, and what it makes of the buffer.\<close>

abbreviation counterInfoCall :: "'w platform \<Rightarrow> pdhCounterHandle \<Rightarrow> 'w pdhCall" where
  "counterInfoCall pf h \<equiv>
     (\<lambda>buf sz w. let (ret, sz', w') = pdhGetCounterInfo pf h 0 sz buf w in (ret, sz', 0, w'))"

abbreviation expandCall :: "'w platform \<Rightarrow> string \<Rightarrow> 'w pdhCall" where
  "expandCall pf path \<equiv>
     (\<lambda>buf sz w. let (ret, sz', w') = pdhExpandWildCardPath pf path buf sz w in (ret, sz', 0, w'))"

abbreviation longArrayCall :: "'w platform \<Rightarrow> pdhCounterHandle \<Rightarrow> 'w pdhCall" where
  "longArrayCall pf h \<equiv> (\<lambda>buf sz w. pdhGetFormattedCounterArrayLong pf h sz 0 buf w)"

abbreviation largeArrayCall :: "'w platform \<Rightarrow> pdhCounterHandle \<Rightarrow> 'w pdhCall" where
  "largeArrayCall pf h \<equiv> (\<lambda>buf sz w. pdhGetFormattedCounterArrayLarge pf h sz 0 buf w)"

abbreviation doubleArrayCall :: "'w platform \<Rightarrow> pdhCounterHandle \<Rightarrow> 'w pdhCall" where
  "doubleArrayCall pf h \<equiv> (\<lambda>buf sz w. pdhGetFormattedCounterArrayDouble pf h sz 0 buf w)"

abbreviation rawArrayCall :: "'w platform \<Rightarrow> pdhCounterHandle \<Rightarrow> 'w pdhCall" where
  "rawArrayCall pf h \<equiv> (\<lambda>buf sz w. pdhGetRawCounterArray pf h sz 0 buf w)"

interpretation counterPath: buffered_read pf 1 "counterInfoCall pf h"
    "\<lambda>mem buf buflen _. Ok (utf16PtrToString mem
       (loadPointer (build pf) mem
          (fieldAddr (build pf) (pdhCounterInfo (build pf)) ''SzFullPath'' buf)))"
    "\<lambda>m. GetCounterPath pf m h" for pf h
  by unfold_locales (simp add: GetCounterPath_def)

interpretation expand: buffered_read pf 2 "expandCall pf path"
    "\<lambda>mem buf buflen _. utf16ToStringArray mem buf (unat buflen)"
    "\<lambda>m. ExpandWildCardPath pf m path" for pf path
  by unfold_locales (simp add: ExpandWildCardPath_def)

interpretation longArray: buffered_read pf 1 "longArrayCall pf h"
    "\<lambda>mem buf buflen. itemsOf (build pf) (pdhFmtCounterValueItemLong (build pf)) ''FmtValue''
       (pdhFmtCounterValueLong (build pf)) (loadLong (build pf)) mem buf"
    "\<lambda>m. GetFormattedCounterArrayLong pf m h" for pf h
  by unfold_locales (simp add: GetFormattedCounterArrayLong_def)

interpretation largeArray: buffered_read pf 1 "largeArrayCall pf h"
    "\<lambda>mem buf buflen. itemsOf (build pf) (pdhFmtCounterValueItemLarge (build pf)) ''FmtValue''
       (pdhFmtCounterValueLarge (build pf)) (loadLarge (build pf)) mem buf"
    "\<lambda>m. GetFormattedCounterArrayLarge pf m h" for pf h
  by unfold_locales (simp add: GetFormattedCounterArrayLarge_def)

interpretation doubleArray: buffered_read pf 1 "doubleArrayCall pf h"
    "\<lambda>mem buf buflen. itemsOf (build pf) (pdhFmtCounterValueItemDouble (build pf)) ''FmtValue''
       (pdhFmtCounterValueDouble (build pf)) (loadDouble (build pf)) mem buf"
    "\<lambda>m. GetFormattedCounterArrayDouble pf m h" for pf h
  by unfold_locales (simp add: GetFormattedCounterArrayDouble_def)

interpretation rawArray: buffered_read pf 1 "rawArrayCall pf h"
    "\<lambda>mem buf buflen. itemsOf (build pf) (pdhRawCounterItem (build pf)) ''RawValue''
       (pdhRawCounter (build pf)) (\<lambda>mem p. IntValue (loadFirst (build pf) mem p)) mem buf"
    "\<lambda>m. GetRawCounterArray pf m h" for pf h
  by unfold_locales (simp add: GetRawCounterArray_def)

section \<open>Arrays of items as Windows writes them\<close>

text \<open>
  An item of a documented structure at \<open>p\<close>: a pointer to its name, ended by a zero unit, and
  a structure \<open>val\<close> with the status and an eight-byte value in the field \<open>f\<close>.
\<close>

type_synonym item = "u16 list \<times> u32 \<times> u64"

fun itemAt ::
    "arch \<Rightarrow> go_type \<Rightarrow> string \<Rightarrow> go_type \<Rightarrow> string \<Rightarrow> memory \<Rightarrow> addr \<Rightarrow> item \<Rightarrow> bool" where
  "itemAt a struct sub val f m p (us, status, v) \<longleftrightarrow>
     (let off = (\<lambda>t g. of_nat (offsetOf (windowsABI a) t g));
          name = loadPointer a m (p + off struct ''SzName'');
          q = p + off struct sub
      in name \<noteq> 0 \<and> unitsAt m name (us @ [0]) \<and> list_all (\<lambda>u. u \<noteq> 0) us \<and> length us < 2 ^ 29
         \<and> le32 m (q + off val ''CStatus'') = status \<and> le64 m (q + off val f) = v)"

definition arrayAt ::
    "arch \<Rightarrow> go_type \<Rightarrow> string \<Rightarrow> go_type \<Rightarrow> string \<Rightarrow> memory \<Rightarrow> addr \<Rightarrow> item list \<Rightarrow> bool" where
  "arrayAt a struct sub val f m buf its \<longleftrightarrow>
     (\<forall>i < length its.
        itemAt a struct sub val f m (buf + of_nat (i * sizeOf (windowsABI a) struct)) (its ! i))"

text \<open>The values that the items mean: those with a valid or new status, in order.\<close>

definition itemValues :: "(u64 \<Rightarrow> 'v) \<Rightarrow> item list \<Rightarrow> 'v namedValue list" where
  "itemValues wrap its =
     map (\<lambda>(us, status, v). \<lparr>Name = utf16ToString us, Value = wrap v\<rparr>)
       (filter (\<lambda>(us, status, v). validStatus status) its)"

lemma map_filter_index:
  assumes "\<And>i. i < length xs \<Longrightarrow> P (p i) = Q (xs ! i) \<and> f (p i) = g (xs ! i)"
  shows "map f (filter P (map p [0..<length xs])) = map g (filter Q xs)"
  using assms
proof (induction xs rule: rev_induct)
  case Nil
  show ?case by simp
next
  case (snoc x xs)
  have "map f (filter P (map p [0..<length xs])) = map g (filter Q xs)"
  proof (rule snoc.IH)
    fix i
    assume "i < length xs"
    then show "P (p i) = Q (xs ! i) \<and> f (p i) = g (xs ! i)"
      using snoc.prems [of i] by (simp add: nth_append)
  qed
  with snoc.prems [of "length xs"] show ?case by simp
qed

lemma itemsOf_arrayAt:
  assumes item: "fits a struct dstruct [(''SzName'', ''SzName''), (sub, sub)]"
    and val: "fits a val dval [(''CStatus'', ''CStatus''), (f, df)]"
    and load: "\<And>p. load m p = wrap (le64 m (fieldAddr a val f p))"
    and array: "arrayAt a dstruct sub dval df m buf its" and count: "length its \<le> 2 ^ 20"
  shows "itemsOf a struct sub val load m buf (of_nat (length its)) = Ok (itemValues wrap its)"
proof -
  let ?at = "\<lambda>i. buf + of_nat (i * sizeOf (goABI a) struct)"
  let ?ok = "\<lambda>p. validStatus (le32 m (fieldAddr a val ''CStatus'' (fieldAddr a struct sub p)))"
  let ?read = "\<lambda>p. \<lparr>Name = utf16PtrToString m (loadPointer a m (fieldAddr a struct ''SzName'' p)),
                     Value = load m (fieldAddr a struct sub p)\<rparr>"
  have len: "unat (of_nat (length its) :: u32) = length its"
    using count by (simp add: unsigned_of_nat take_bit_nat_eq_self)
  have step: "?ok (?at i) = (\<lambda>(us, status, v). validStatus status) (its ! i)
      \<and> ?read (?at i) = (\<lambda>(us, status, v). \<lparr>Name = utf16ToString us, Value = wrap v\<rparr>) (its ! i)"
    if "i < length its" for i
  proof -
    obtain us status v where it: "its ! i = (us, status, v)" by (metis prod_cases3)
    have "itemAt a dstruct sub dval df m (?at i) (its ! i)"
      using array that item by (simp add: arrayAt_def fits_def del: itemAt.simps)
    then have here: "itemAt a dstruct sub dval df m (?at i) (us, status, v)" by (simp only: it)
    then have "utf16PtrToString m (loadPointer a m (fieldAddr a struct ''SzName'' (?at i))) = utf16ToString us"
      using item by (intro utf16PtrToString_unitsAt) (simp_all add: Let_def fits_def fieldAddr_def)
    moreover have "le32 m (fieldAddr a val ''CStatus'' (fieldAddr a struct sub (?at i))) = status"
      "le64 m (fieldAddr a val f (fieldAddr a struct sub (?at i))) = v"
      using here item val by (simp_all add: Let_def fits_def fieldAddr_def)
    ultimately show ?thesis by (simp only: it load prod.case simp_thms)
  qed
  have "map ?read (filter ?ok (map ?at [0..<length its])) = itemValues wrap its"
    unfolding itemValues_def by (rule map_filter_index) (rule step)
  then show ?thesis
    using count by (simp add: itemsOf_def len Let_def)
qed

lemma itemsOf_Double:
  assumes "arrayAt a documentedFmtItem ''FmtValue'' documentedFmtValue ''Value'' m buf its"
    and "length its \<le> 2 ^ 20"
  shows "itemsOf a (pdhFmtCounterValueItemDouble a) ''FmtValue'' (pdhFmtCounterValueDouble a)
           (loadDouble a) m buf (of_nat (length its)) = Ok (itemValues id its)"
  by (rule itemsOf_arrayAt [OF _ _ _ assms, where f = "''DoubleValue''"])
     (cases a; simp add: fits_def layout_simps loadDouble_def)+

lemma itemsOf_Large:
  assumes "arrayAt a documentedFmtItem ''FmtValue'' documentedFmtValue ''Value'' m buf its"
    and "length its \<le> 2 ^ 20" and "a \<noteq> I386"
  shows "itemsOf a (pdhFmtCounterValueItemLarge a) ''FmtValue'' (pdhFmtCounterValueLarge a)
           (loadLarge a) m buf (of_nat (length its)) = Ok (itemValues id its)"
  by (rule itemsOf_arrayAt [OF _ _ _ assms(1,2), where f = "''LargeValue''"])
     (use assms(3) in \<open>cases a; simp add: fits_def layout_simps loadLarge_def\<close>)+

lemma itemsOf_Raw:
  assumes "arrayAt a documentedRawItem ''RawValue'' documentedRawCounter ''FirstValue'' m buf its"
    and "length its \<le> 2 ^ 20" and "a \<noteq> I386"
  shows "itemsOf a (pdhRawCounterItem a) ''RawValue'' (pdhRawCounter a)
           (\<lambda>m p. IntValue (loadFirst a m p)) m buf (of_nat (length its)) = Ok (itemValues IntValue its)"
  by (rule itemsOf_arrayAt [OF _ _ _ assms(1,2), where f = "''FirstValue''"])
     (use assms(3) in \<open>cases a; simp add: fits_def layout_simps loadFirst_def\<close>)+

section \<open>Properties\<close>

text \<open>The sizes that Windows hands back stay below 2 GiB.\<close>

definition boundedSizes :: "'w platform \<Rightarrow> bool" where
  "boundedSizes pf \<longleftrightarrow>
     (\<forall>h e sz buf w ret sz' w'. PdhGetCounterInfoW pf h e sz buf w = (ret, sz', w') \<longrightarrow> sz' < 2 ^ 31)
   \<and> (\<forall>d p sz buf f w ret sz' w'.
        PdhExpandWildCardPathW pf d p buf sz f w = (ret, sz', w') \<longrightarrow> sz' < 2 ^ 31)
   \<and> (\<forall>h f sz k buf w ret sz' n w'.
        PdhGetFormattedCounterArrayW pf h f sz k buf w = (ret, sz', n, w') \<longrightarrow> sz' < 2 ^ 31)
   \<and> (\<forall>h sz k buf w ret sz' n w'.
        PdhGetRawCounterArrayW pf h sz k buf w = (ret, sz', n, w') \<longrightarrow> sz' < 2 ^ 31)"

lemma boundedSizes_calls:
  assumes "boundedSizes pf"
  shows "counterInfoCall pf h buf b w = (ret, sz, n, w') \<Longrightarrow> sz < 2 ^ 31"
    and "expandCall pf path buf b w = (ret, sz, n, w') \<Longrightarrow> sz < 2 ^ 31"
    and "longArrayCall pf h buf b w = (ret, sz, n, w') \<Longrightarrow> sz < 2 ^ 31"
    and "largeArrayCall pf h buf b w = (ret, sz, n, w') \<Longrightarrow> sz < 2 ^ 31"
    and "doubleArrayCall pf h buf b w = (ret, sz, n, w') \<Longrightarrow> sz < 2 ^ 31"
    and "rawArrayCall pf h buf b w = (ret, sz, n, w') \<Longrightarrow> sz < 2 ^ 31"
proof -
  have info: "sz' < 2 ^ 31" if "PdhGetCounterInfoW pf h e sz buf w = (ret, sz', w')" for h e sz buf w ret sz' w'
    using assms that unfolding boundedSizes_def by (elim conjE) blast
  have expand: "sz' < 2 ^ 31" if "PdhExpandWildCardPathW pf d p buf sz f w = (ret, sz', w')"
    for d p sz buf f w ret sz' w'
    using assms that unfolding boundedSizes_def by (elim conjE) blast
  have array: "sz' < 2 ^ 31" if "PdhGetFormattedCounterArrayW pf h f sz k buf w = (ret, sz', n, w')"
    for h f sz k buf w ret sz' n w'
    using assms that unfolding boundedSizes_def by metis
  have raw: "sz' < 2 ^ 31" if "PdhGetRawCounterArrayW pf h sz k buf w = (ret, sz', n, w')"
    for h sz k buf w ret sz' n w'
    using assms that unfolding boundedSizes_def by metis
  show "counterInfoCall pf h buf b w = (ret, sz, n, w') \<Longrightarrow> sz < 2 ^ 31"
    by (auto simp: pdhGetCounterInfo_def dest: info split: prod.splits)
  show "expandCall pf path buf b w = (ret, sz, n, w') \<Longrightarrow> sz < 2 ^ 31"
    by (auto simp: pdhExpandWildCardPath_def Let_def dest: expand split: prod.splits)
  show "longArrayCall pf h buf b w = (ret, sz, n, w') \<Longrightarrow> sz < 2 ^ 31"
    by (auto simp: pdhGetFormattedCounterArrayLong_def dest: array split: prod.splits)
  show "largeArrayCall pf h buf b w = (ret, sz, n, w') \<Longrightarrow> sz < 2 ^ 31"
    by (auto simp: pdhGetFormattedCounterArrayLarge_def dest: array split: prod.splits)
  show "doubleArrayCall pf h buf b w = (ret, sz, n, w') \<Longrightarrow> sz < 2 ^ 31"
    by (auto simp: pdhGetFormattedCounterArrayDouble_def dest: array split: prod.splits)
  show "rawArrayCall pf h buf b w = (ret, sz, n, w') \<Longrightarrow> sz < 2 ^ 31"
    by (auto simp: pdhGetRawCounterArray_def dest: raw split: prod.splits)
qed

text \<open>
  C13. The buffer loops end: with a limit below 2 GiB, and while Windows hands back sizes
  below 2 GiB, each of the six methods that grow a buffer returns, whatever the calls answer
  from one round to the next.
\<close>

theorem buffered_methods_return:
  assumes "boundedSizes pf" and "maxBufferSize m < 2 ^ 31"
  shows "GetCounterPath pf m h w \<noteq> None \<and> ExpandWildCardPath pf m path w \<noteq> None
    \<and> GetFormattedCounterArrayLong pf m h w \<noteq> None
    \<and> GetFormattedCounterArrayLarge pf m h w \<noteq> None
    \<and> GetFormattedCounterArrayDouble pf m h w \<noteq> None
    \<and> GetRawCounterArray pf m h w \<noteq> None"
proof (intro conjI)
  show "GetCounterPath pf m h w \<noteq> None"
    by (rule counterPath.getter_returns [OF assms(2)]) (rule boundedSizes_calls(1) [OF assms(1)])
  show "ExpandWildCardPath pf m path w \<noteq> None"
    by (rule expand.getter_returns [OF assms(2)]) (rule boundedSizes_calls(2) [OF assms(1)])
  show "GetFormattedCounterArrayLong pf m h w \<noteq> None"
    by (rule longArray.getter_returns [OF assms(2)]) (rule boundedSizes_calls(3) [OF assms(1)])
  show "GetFormattedCounterArrayLarge pf m h w \<noteq> None"
    by (rule largeArray.getter_returns [OF assms(2)]) (rule boundedSizes_calls(4) [OF assms(1)])
  show "GetFormattedCounterArrayDouble pf m h w \<noteq> None"
    by (rule doubleArray.getter_returns [OF assms(2)]) (rule boundedSizes_calls(5) [OF assms(1)])
  show "GetRawCounterArray pf m h w \<noteq> None"
    by (rule rawArray.getter_returns [OF assms(2)]) (rule boundedSizes_calls(6) [OF assms(1)])
qed

theorem buffered_methods_return_witness:
  "GetFormattedCounterArrayDouble (samplePlatform AMD64 [] 2048 0)
     \<lparr>maxBufferSize = 104857600, queryHandle = 1\<rparr> 1 () \<noteq> None"
proof -
  have "boundedSizes (samplePlatform AMD64 [] 2048 0)"
    by (simp add: boundedSizes_def samplePlatform_def)
  then show ?thesis
    using buffered_methods_return [of "samplePlatform AMD64 [] 2048 0"
        "\<lparr>maxBufferSize = 104857600, queryHandle = 1\<rparr>"] by simp
qed

lemma GetFormattedCounterArrayDouble_reads:
  assumes "sizedCall pf 1 J need (doubleArrayCall pf h)
      (\<lambda>buf b n t. n = of_nat (length its)
         \<and> arrayAt (build pf) documentedFmtItem ''FmtValue'' documentedFmtValue ''Value'' (mem pf t) buf its)"
    and "J w" and "need < 2 ^ 31" and "bufferFits (maxBufferSize m) need" and "length its \<le> 2 ^ 20"
  shows "\<exists>t. GetFormattedCounterArrayDouble pf m h w = Some (Ok (itemValues id its), t) \<and> J t"
proof -
  let ?a = "build pf"
  obtain buf b n t where
    run: "GetFormattedCounterArrayDouble pf m h w = Some (itemsOf ?a (pdhFmtCounterValueItemDouble ?a)
        ''FmtValue'' (pdhFmtCounterValueDouble ?a) (loadDouble ?a) (mem pf t) buf n, t)"
    and post: "n = of_nat (length its)"
      "arrayAt ?a documentedFmtItem ''FmtValue'' documentedFmtValue ''Value'' (mem pf t) buf its" "J t"
    using doubleArray.getter_fits [OF assms(1-4)] by blast
  have "itemsOf ?a (pdhFmtCounterValueItemDouble ?a) ''FmtValue'' (pdhFmtCounterValueDouble ?a)
      (loadDouble ?a) (mem pf t) buf (of_nat (length its)) = Ok (itemValues id its)"
    using post(2) assms(5) by (rule itemsOf_Double)
  then show ?thesis using run post(1,3) by auto
qed



lemma GetRawCounterArray_reads:
  assumes "sizedCall pf 1 J need (rawArrayCall pf h)
      (\<lambda>buf b n t. n = of_nat (length its)
         \<and> arrayAt (build pf) documentedRawItem ''RawValue'' documentedRawCounter ''FirstValue''
              (mem pf t) buf its)"
    and "J w" and "need < 2 ^ 31" and "bufferFits (maxBufferSize m) need" and "length its \<le> 2 ^ 20"
    and "build pf \<noteq> I386"
  shows "\<exists>t. GetRawCounterArray pf m h w = Some (Ok (itemValues IntValue its), t) \<and> J t"
proof -
  let ?a = "build pf"
  obtain buf b n t where
    run: "GetRawCounterArray pf m h w = Some (itemsOf ?a (pdhRawCounterItem ?a) ''RawValue''
        (pdhRawCounter ?a) (\<lambda>m p. IntValue (loadFirst ?a m p)) (mem pf t) buf n, t)"
    and post: "n = of_nat (length its)"
      "arrayAt ?a documentedRawItem ''RawValue'' documentedRawCounter ''FirstValue'' (mem pf t) buf its" "J t"
    using rawArray.getter_fits [OF assms(1-4)] by blast
  then show ?thesis using itemsOf_Raw [OF post(2) assms(5,6)] by auto
qed



lemma ExpandWildCardPath_lists:
  assumes "sizedCall pf 2 J need (expandCall pf path)
      (\<lambda>buf b n t. unitsAt (mem pf t) buf (multiString uss) \<and> buf \<noteq> 0 \<and> unat buf + 2 * unat b < 2 ^ 64)"
    and "J w" and "need < 2 ^ 31" and "bufferFits (maxBufferSize m) need"
    and "list_all pathUnits uss" and "length (multiString uss) \<le> unat need"
  shows "\<exists>t. ExpandWildCardPath pf m path w = Some (Ok (map utf16ToString uss), t) \<and> J t"
proof -
  obtain buf b t where run: "ExpandWildCardPath pf m path w
      = Some (utf16ToStringArray (mem pf t) buf (unat b), t)" "need \<le> b"
    and post: "unitsAt (mem pf t) buf (multiString uss)" "buf \<noteq> 0" "unat buf + 2 * unat b < 2 ^ 64" "J t"
    using expand.getter_fits [OF assms(1-4)] by blast
  have len: "length (multiString uss) \<le> unat b"
    using run(2) assms(6) by (simp add: word_le_nat_alt)
  then have "b \<noteq> 0" by (auto simp: multiString_def)
  then show ?thesis
    using run(1) stringLines_multiString [of uss "mem pf t" buf 0 "unat b"] assms(5) post len
    by (auto simp: utf16ToStringArray_def unat_eq_0)
qed



lemma GetCounterPath_reads:
  assumes "sizedCall pf 1 J need (counterInfoCall pf h)
      (\<lambda>buf b n t. \<exists>p. loadPointer (build pf) (mem pf t)
            (buf + of_nat (offsetOf (windowsABI (build pf)) documentedCounterInfo ''SzFullPath'')) = p
         \<and> p \<noteq> 0 \<and> unitsAt (mem pf t) p (us @ [0]))"
    and "list_all (\<lambda>u. u \<noteq> 0) us" and "length us < 2 ^ 29" and "J w" and "need < 2 ^ 31"
  shows "\<exists>t. GetCounterPath pf m h w =
           Some (if bufferFits (maxBufferSize m) need then Ok (utf16ToString us)
                 else Err errBufferLimitReached, t) \<and> (bufferFits (maxBufferSize m) need \<longrightarrow> J t)"
proof (cases "bufferFits (maxBufferSize m) need")
  case False
  then show ?thesis using counterPath.getter_limit [OF assms(1,4,5)] by simp
next
  case True
  let ?a = "build pf"
  have off: "offsetOf (goABI ?a) (pdhCounterInfo ?a) ''SzFullPath'' =
      offsetOf (windowsABI ?a) documentedCounterInfo ''SzFullPath''"
    by (cases ?a) (simp_all add: layout_simps)
  obtain buf t p where run: "GetCounterPath pf m h w = Some (Ok (utf16PtrToString (mem pf t) p), t)"
    and p: "p \<noteq> 0" "unitsAt (mem pf t) p (us @ [0])" "J t"
    using counterPath.getter_fits [OF assms(1,4,5) True] by (auto simp: fieldAddr_def off)
  then show ?thesis
    using True utf16PtrToString_unitsAt [OF p(2) assms(2,3) p(1)] p(3) by simp
qed



subsection \<open>The length wraps around\<close>

lemma bufferLoop_constant_hint_diverges:
  assumes call: "\<And>buf b w. \<exists>n w'. call buf b w = (pdhMoreData, 0x80000200, n, w')"
    and limit: "initialBufferSize \<le> maxBuf"
  shows "bufferLoop pf width maxBuf call decode initialBufferSize w = None"
proof -
  have wrap: "(4294968320 :: u32) = 1024" by simp
  have "\<not> (maxBuf0 = maxBuf \<and> call0 = call \<and> b = initialBufferSize)"
    if "bufferLoop pf0 width0 maxBuf0 call0 decode0 b w0 = Some y"
    for pf0 :: "'a platform" and width0 maxBuf0 call0 b w0 y
      and decode0 :: "memory \<Rightarrow> addr \<Rightarrow> u32 \<Rightarrow> u32 \<Rightarrow> 'b result"
  proof (rule bufferLoop.raw_induct [OF _ that])
    fix loop and pf0 :: "'a platform" and width0 maxBuf0 call0 b w0 y
      and decode0 :: "memory \<Rightarrow> addr \<Rightarrow> u32 \<Rightarrow> u32 \<Rightarrow> 'b result"
    assume IH: "\<And>pf width maxBuf0 call0 decode b w y.
        loop pf width maxBuf0 call0 decode b w = Some y
        \<Longrightarrow> \<not> (maxBuf0 = maxBuf \<and> call0 = call \<and> b = initialBufferSize)"
      and run: "(if b \<le> maxBuf0 then
        if b = 0 then Some (Panic ''index out of range'', w0)
        else case newObject pf0 (width0 * unat b) w0 of (buf, w1) \<Rightarrow>
          (case call0 buf b w1 of (ret, sz, itemCount, w2) \<Rightarrow>
             if ret = errorSuccess then Some (decode0 (mem pf0 w2) buf b itemCount, w2)
             else if ret \<noteq> pdhMoreData then failPdh pf0 ret w2
             else loop pf0 width0 maxBuf0 call0 decode0 ((if b < sz then sz else b) * 2) w2)
      else Some (Err errBufferLimitReached, w0)) = Some y"
    show "\<not> (maxBuf0 = maxBuf \<and> call0 = call \<and> b = initialBufferSize)"
    proof
      assume at: "maxBuf0 = maxBuf \<and> call0 = call \<and> b = initialBufferSize"
      obtain buf w1 where alloc: "newObject pf0 (width0 * unat b) w0 = (buf, w1)" by fastforce
      obtain n w2 where "call buf b w1 = (pdhMoreData, 0x80000200, n, w2)" using call by blast
      then have "loop pf0 width0 maxBuf0 call0 decode0 initialBufferSize w2 = Some y"
        using run at alloc limit by (simp add: initialBufferSize_def wrap)
      then show False using IH at by blast
    qed
  qed
  then show ?thesis by (cases "bufferLoop pf width maxBuf call decode initialBufferSize w") blast+
qed

text \<open>
  C38. A size of 2 GiB or more makes the loop spin: when Windows keeps asking for 2 GiB and 512
  bytes, the 32-bit doubling of that length is 1024 again, within any admissible limit, and
  \<open>GetFormattedCounterArrayDouble\<close> never returns.
\<close>

theorem GetFormattedCounterArrayDouble_diverges:
  assumes "\<And>buf b w. \<exists>n w'. doubleArrayCall pf h buf b w = (pdhMoreData, 0x80000200, n, w')"
    and "initialBufferSize \<le> maxBufferSize m"
  shows "GetFormattedCounterArrayDouble pf m h w = None"
  unfolding doubleArray.getter_loop using assms by (rule bufferLoop_constant_hint_diverges)

theorem GetFormattedCounterArrayDouble_diverges_witness:
  "GetFormattedCounterArrayDouble
     ((samplePlatform AMD64 [] 0 0)\<lparr>PdhGetFormattedCounterArrayW :=
        (\<lambda>h f sz k buf w. (0x800007D2, 0x80000200, 0, w))\<rparr>)
     \<lparr>maxBufferSize = 104857600, queryHandle = 1\<rparr> 1 () = None"
  by (rule GetFormattedCounterArrayDouble_diverges)
     (simp_all add: pdhGetFormattedCounterArrayDouble_def initialBufferSize_def)

lemma unat_power_u32:
  assumes "k < 32"
  shows "unat (2 ^ k :: u32) = 2 ^ k"
proof -
  have "unat (of_nat (2 ^ k) :: u32) = 2 ^ k"
    using assms by (simp add: unsigned_of_nat take_bit_nat_eq_self del: of_nat_power)
  then show ?thesis by simp
qed

lemma bufferLoop_doubles_to_panic:
  assumes call: "\<And>buf b w. \<exists>sz n w'. call buf b w = (pdhMoreData, sz, n, w') \<and> sz \<le> b"
    and limit: "2 ^ 31 \<le> maxBuf" and "k \<le> 32"
  shows "\<exists>t. bufferLoop pf width maxBuf call decode (2 ^ k) w = Some (Panic ''index out of range'', t)"
  using \<open>k \<le> 32\<close>
proof (induction k arbitrary: w rule: inc_induct)
  case base
  have wrap: "(2 ^ 32 :: u32) = 0" by simp
  show ?case unfolding wrap by (simp add: bufferLoop.simps)
next
  case (step k)
  have k: "unat (2 ^ k :: u32) = 2 ^ k" using step.hyps(2) by (rule unat_power_u32)
  then have nz: "(2 ^ k :: u32) \<noteq> 0" using step.hyps(2) by auto
  have "(2 :: nat) ^ k \<le> 2 ^ 31" using step.hyps by (intro power_increasing) auto
  then have "(2 ^ k :: u32) \<le> 2 ^ 31"
    by (simp add: word_le_nat_alt k unat_power_u32)
  then have le: "2 ^ k \<le> maxBuf" using limit by (rule order_trans)
  obtain buf w1 where alloc: "newObject pf (width * unat (2 ^ k :: u32)) w = (buf, w1)" by fastforce
  obtain sz n w2 where "call buf (2 ^ k) w1 = (pdhMoreData, sz, n, w2)" "sz \<le> 2 ^ k"
    using call by blast
  then have "bufferLoop pf width maxBuf call decode (2 ^ k) w
      = bufferLoop pf width maxBuf call decode (2 ^ Suc k) w2"
    using le nz alloc by (subst bufferLoop.simps) (simp add: leD mult.commute)
  then show ?case using step.IH by simp
qed



end
