(* ===== verification/Config.thy ===== *)
theory Config
  imports WinPerf QueryBuffers
begin

text \<open>
  Properties of the set-up of the collector (\<open>Init\<close>, \<open>addItem\<close>, \<open>parseConfig\<close>,
  \<open>cleanQueries\<close> of \<open>win_perf_counters.go\<close>): the invariant of the runtime state, which every
  method keeps, errors and panics included, while it returns; what \<open>Init\<close> guarantees; which
  failures \<open>parseConfig\<close> passes on; what \<open>cleanQueries\<close> leaves.
\<close>

section \<open>The invariant\<close>

text \<open>
  The hosts of the collector: each key once, each entry under its own computer name, with a
  query whose limit is the configured one cut to 32 bits, and counters with a non-empty
  measurement name. The limit itself is below 2 GiB.
\<close>

definition wfHost :: "int \<Rightarrow> string \<Rightarrow> hostCountersInfo \<Rightarrow> bool" where
  "wfHost limit key h \<longleftrightarrow> host_computer h = key
     \<and> maxBufferSize (host_query h) = word_of_int limit
     \<and> (\<forall>c \<in> set (host_counters h). counter_measurement c \<noteq> '''')"

definition wfHosts :: "WinPerfCounters \<Rightarrow> bool" where
  "wfHosts m \<longleftrightarrow> distinct (map fst (hostCounters m))
     \<and> (\<forall>(key, h) \<in> set (hostCounters m). wfHost (MaxBufferSize m) key h)"

definition goodRuntime :: "'w runtime \<Rightarrow> bool" where
  "goodRuntime s \<longleftrightarrow> wfHosts (wpc s) \<and> 0 \<le> MaxBufferSize (wpc s) \<and> MaxBufferSize (wpc s) < 2 ^ 31"

lemma goodRuntime_update [simp]:
  "goodRuntime (s\<lparr>world := w\<rparr>) = goodRuntime s"
  "goodRuntime (s\<lparr>loglines := l\<rparr>) = goodRuntime s"
  "goodRuntime (s\<lparr>emitted := e\<rparr>) = goodRuntime s"
  "goodRuntime (s\<lparr>wpc := (wpc s)\<lparr>cachedHostname := name\<rparr>\<rparr>) = goodRuntime s"
  "goodRuntime (s\<lparr>wpc := (wpc s)\<lparr>Sources := sources\<rparr>\<rparr>) = goodRuntime s"
  "goodRuntime (s\<lparr>wpc := (wpc s)\<lparr>lastRefreshed := t\<rparr>\<rparr>) = goodRuntime s"
  by (simp_all add: goodRuntime_def wfHosts_def)

lemma wfHosts_upsert:
  "wfHosts m \<Longrightarrow> wfHost (MaxBufferSize m) key h \<Longrightarrow> wfHosts (m\<lparr>hostCounters := upsert key h (hostCounters m)\<rparr>)"
  using set_upsert_subset [of key h "hostCounters m"] by (auto simp: wfHosts_def simp del: keys_upsert)

lemma goodRuntime_setHost:
  "goodRuntime s \<Longrightarrow> wfHost (MaxBufferSize (wpc s)) key h \<Longrightarrow> goodRuntime (setHost key h s)"
  by (simp add: goodRuntime_def setHost_def wfHosts_upsert)

lemma goodRuntime_host:
  assumes "goodRuntime s" and "host key s = Some h"
  shows "wfHost (MaxBufferSize (wpc s)) key h" and "maxBufferSize (host_query h) < 2 ^ 31"
proof -
  show wf: "wfHost (MaxBufferSize (wpc s)) key h"
    using assms map_of_SomeD by (fastforce simp: goodRuntime_def wfHosts_def host_def)
  have "uint (word_of_int (MaxBufferSize (wpc s)) :: u32) < 2 ^ 31"
    using assms(1) by (simp add: goodRuntime_def unsigned_of_int take_bit_int_eq_self)
  then show "maxBufferSize (host_query h) < 2 ^ 31"
    using wf by (simp add: wfHost_def word_less_def)
qed

lemma newCounter_measurement [simp]:
  "counter_measurement (newCounter h p c ob i ct me it ur) \<noteq> ''''"
  by (simp add: newCounter_def Let_def)

section \<open>Invariants of the set-up\<close>

lemma keeps_liftR [keeps_rules]: "keeps J (liftR r)"
  by (simp add: keeps_def liftR_def)

lemma keeps_cfg [keeps_rules]: "keeps J (cfg f)"
  by (simp add: cfg_def keeps_getP)

text \<open>
  A property of the runtime state that the single steps of the set-up keep is kept by all of
  it, however it ends.
\<close>

locale setup_invariant =
  fixes pf :: "'w platform" and J :: "'w runtime \<Rightarrow> bool"
  assumes logging: "J s \<Longrightarrow> J (s\<lparr>loglines := l\<rparr>)"
    and ranging: "J s \<Longrightarrow> J (s\<lparr>world := snd (rangePerm pf n (world s))\<rparr>)"
    and naming: "J s \<Longrightarrow> J (s\<lparr>world := snd (osHostname pf (world s))\<rparr>)"
    and caching: "J s \<Longrightarrow> J (s\<lparr>wpc := (wpc s)\<lparr>cachedHostname := name\<rparr>\<rparr>)"
    and sourcing: "J s \<Longrightarrow> J (s\<lparr>wpc := (wpc s)\<lparr>Sources := sources\<rparr>\<rparr>)"
    and entering: "keeps J (ensureHost pf computer tag)"
    and adding: "keeps J (readQuery key (\<lambda>q. AddCounterToQuery pf q path))"
      "keeps J (readQuery key (\<lambda>q. AddEnglishCounterToQuery pf q path))"
    and expanding: "keeps J (readQuery key (\<lambda>q. GetCounterPath pf q handle))"
      "keeps J (readQuery key (\<lambda>q. ExpandWildCardPath pf q path))"
    and appending: "counter_measurement c \<noteq> '''' \<Longrightarrow> keeps J (appendCounter key c)"
    and cleaning: "keeps J (cleanQueries pf)"
begin

lemmas setup_steps [keeps_rules] = entering adding expanding appending cleaning

lemma keeps_logWith [keeps_rules]: "keeps J (logWith f)"
  by (simp add: logWith_def keeps_modifyP logging)

lemma keeps_rangeHosts [keeps_rules]: "keeps J (rangeHosts pf)"
  by (rule keepsI) (simp add: rangeHosts_def Let_def case_prod_unfold ranging)

lemma keeps_hostname [keeps_rules]: "keeps J (hostname pf)"
proof -
  have "keeps J (machine (\<lambda>w. let (name, w') = osHostname pf w in Some (Ok name, w')))"
    by (rule keepsI) (simp add: machine_def Let_def case_prod_unfold naming)
  moreover have "keeps J (setCfg (\<lambda>m. m\<lparr>cachedHostname := name\<rparr>))" for name
    unfolding setCfg_def by (intro keeps_modifyP caching)
  ultimately show ?thesis unfolding hostname_def by (intro keeps_rules)
qed

lemma keeps_logValid [keeps_rules]: "keeps J (logValid path)"
  unfolding logValid_def by (intro keeps_rules)

lemma keeps_addToQuery [keeps_rules]: "keeps J (addToQuery pf key path)"
  unfolding addToQuery_def by (intro keeps_rules)

lemma keeps_addExpanded [keeps_rules]: "keeps J (addExpanded pf key oi oo oc me it ur path)"
  unfolding addExpanded_def Let_def bindP_laws prod.case by (intro keeps_rules) simp_all

lemma keeps_addItem [keeps_rules]:
  "keeps J (addItem pf path computer objectName inst counterName me it ur)"
  unfolding addItem_def by (intro keeps_rules) simp_all

lemma keeps_addInstance [keeps_rules]: "keeps J (addInstance pf obj computer ctr inst)"
  unfolding addInstance_def Let_def by (intro keeps_rules)

lemma keeps_addCounters [keeps_rules]: "keeps J (addCounters pf obj computer)"
  unfolding addCounters_def by (intro keeps_rules)

lemma keeps_parseConfig [keeps_rules]: "keeps J (parseConfig pf)"
proof -
  have "keeps J (setCfg (\<lambda>m. if Sources m = [] then m\<lparr>Sources := [''localhost'']\<rparr> else m))"
    unfolding setCfg_def by (rule keeps_modifyP) (simp add: sourcing)
  then show ?thesis unfolding parseConfig_def by (intro keeps_rules)
qed

end

section \<open>The collector stays well formed\<close>

lemma keeps_onHost:
  assumes "\<And>s h. goodRuntime s \<Longrightarrow> host key s = Some h \<Longrightarrow> \<exists>r t. f h s = Some (r, t) \<and> goodRuntime t"
  shows "keeps goodRuntime (onHost key f)"
  by (rule keepsI) (use assms in \<open>auto simp: onHost_def split: option.splits\<close>)

lemma keeps_readQuery [keeps_rules]:
  assumes "\<And>q w. maxBufferSize q < 2 ^ 31 \<Longrightarrow> p q w \<noteq> None"
  shows "keeps goodRuntime (readQuery key p)"
  unfolding readQuery_def
proof (rule keeps_onHost)
  fix s :: "'a runtime" and h
  assume good: "goodRuntime s" and "host key s = Some h"
  then have "p (host_query h) (world s) \<noteq> None"
    by (intro assms goodRuntime_host(2))
  then show "\<exists>r t. machine (p (host_query h)) s = Some (r, t) \<and> goodRuntime t"
    using good by (auto simp: machine_def)
qed

lemma keeps_changeQuery:
  assumes "\<And>q w. \<exists>r q' w'. p (q, w) = Some (r, (q', w')) \<and> maxBufferSize q' = maxBufferSize q"
  shows "keeps goodRuntime (changeQuery key p)"
  unfolding changeQuery_def
proof (rule keeps_onHost)
  fix s :: "'a runtime" and h
  assume good: "goodRuntime s" and h: "host key s = Some h"
  obtain r q w where run: "p (host_query h, world s) = Some (r, (q, w))"
    and limit: "maxBufferSize q = maxBufferSize (host_query h)"
    using assms by blast
  have "goodRuntime (setHost key (h\<lparr>host_query := q\<rparr>) s)"
    using goodRuntime_host(1) [OF good h] limit by (intro goodRuntime_setHost good) (simp add: wfHost_def)
  then show "\<exists>r t. map_option (\<lambda>(r, q, w). (r, setHost key (h\<lparr>host_query := q\<rparr>) s\<lparr>world := w\<rparr>))
      (p (host_query h, world s)) = Some (r, t) \<and> goodRuntime t"
    by (simp add: run)
qed

lemma keeps_appendCounter [keeps_rules]:
  "counter_measurement c \<noteq> '''' \<Longrightarrow> keeps goodRuntime (appendCounter key c)"
  unfolding appendCounter_def
  by (rule keeps_onHost) (auto simp: modifyP_def wfHost_def dest: goodRuntime_host intro!: goodRuntime_setHost)

lemma keeps_Open [keeps_rules]: "keeps goodRuntime (changeQuery key (Open pf))"
  by (rule keeps_changeQuery) (use Open_outcome in \<open>fastforce\<close>)

lemma keeps_Close [keeps_rules]: "keeps goodRuntime (changeQuery key (Close pf))"
proof (rule keeps_changeQuery)
  fix q w
  show "\<exists>r q' w'. Close pf (q, w) = Some (r, (q', w')) \<and> maxBufferSize q' = maxBufferSize q"
    using Close_outcome [of q pf w] query.close_closed [of q pf w] by (cases "isOpen q") auto
qed

lemma keeps_ensureHost [keeps_rules]: "keeps goodRuntime (ensureHost pf computer tag)"
proof (rule keepsI)
  fix s :: "'a runtime"
  assume good: "goodRuntime s"
  let ?new = "setHost computer \<lparr>host_computer = computer, host_tag = tag, host_counters = [],
      host_query = newPerformanceQuery computer (word_of_int (MaxBufferSize (wpc s))),
      host_timestamp = zeroTime\<rparr> s"
  have "goodRuntime ?new"
    by (intro goodRuntime_setHost good) (simp add: wfHost_def newPerformanceQuery_def)
  then have "\<exists>r t. changeQuery computer (Open pf) ?new = Some (r, t) \<and> goodRuntime t"
    using keeps_Open [of computer pf] unfolding keeps_def by blast
  with good show "\<exists>r t. ensureHost pf computer tag s = Some (r, t) \<and> goodRuntime t"
    by (simp add: ensureHost_def prog_simps cfg_def)
qed

text \<open>The query's methods that the collector calls all return.\<close>

lemma query_methods_return:
  assumes "boundedSizes pf" and "maxBufferSize q < 2 ^ 31"
  shows "GetCounterPath pf q h w \<noteq> None" and "ExpandWildCardPath pf q path w \<noteq> None"
    and "GetFormattedCounterArrayDouble pf q h w \<noteq> None" and "GetRawCounterArray pf q h w \<noteq> None"
proof -
  show "GetCounterPath pf q h w \<noteq> None"
    by (rule counterPath.getter_returns [OF assms(2)]) (rule boundedSizes_calls(1) [OF assms(1)])
  show "ExpandWildCardPath pf q path w \<noteq> None"
    by (rule expand.getter_returns [OF assms(2)]) (rule boundedSizes_calls(2) [OF assms(1)])
  show "GetFormattedCounterArrayDouble pf q h w \<noteq> None"
    by (rule doubleArray.getter_returns [OF assms(2)]) (rule boundedSizes_calls(5) [OF assms(1)])
  show "GetRawCounterArray pf q h w \<noteq> None"
    by (rule rawArray.getter_returns [OF assms(2)]) (rule boundedSizes_calls(6) [OF assms(1)])
qed

lemma keeps_setCfg:
  "(\<And>m. wfHosts m \<Longrightarrow> wfHosts (f m)) \<Longrightarrow> (\<And>m. MaxBufferSize (f m) = MaxBufferSize m)
   \<Longrightarrow> keeps goodRuntime (setCfg f)"
  unfolding setCfg_def by (rule keeps_modifyP) (simp add: goodRuntime_def)

lemma keeps_cleanQueries: "keeps goodRuntime (cleanQueries pf)"
proof -
  have "keeps goodRuntime (rangeHosts pf)"
    by (rule keepsI) (simp add: rangeHosts_def Let_def case_prod_unfold)
  then show ?thesis
    unfolding cleanQueries_def by (intro keeps_rules keeps_setCfg) (auto simp: wfHosts_def)
qed

lemma keeps_with: "(\<And>s. P \<Longrightarrow> keeps J m) \<Longrightarrow> keeps (\<lambda>s. P \<and> J s) m"
  by (fastforce simp: keeps_def)

interpretation good: setup_invariant pf "\<lambda>s. boundedSizes pf \<and> goodRuntime s" for pf
  by unfold_locales
     (simp | (intro keeps_with keeps_ensureHost keeps_cleanQueries keeps_readQuery keeps_appendCounter
         value_method_returns query_methods_return; assumption))+

section \<open>\<open>Init\<close>\<close>

definition wildcardFree :: "string \<Rightarrow> bool" where
  "wildcardFree name \<longleftrightarrow> CHR ''*'' \<notin> set name \<and> CHR ''?'' \<notin> set name"

lemma no_wildcards: "filter (contains name) wildcards = [] \<longleftrightarrow> wildcardFree name"
  by (simp add: wildcards_def wildcardFree_def)

lemma objectWildcards_Nil:
  "objectWildcards obj = [] \<longleftrightarrow> wildcardFree (ObjectName obj) \<and> (\<forall>ctr \<in> set (Counters obj). wildcardFree ctr)"
  by (simp add: objectWildcards_def no_wildcards)

lemma logAll:
  "\<exists>l. forP msgs (\<lambda>(format, args). logWith (\<lambda>l. Logger_Errorf l format args)) s
       = Some (Ok (), s\<lparr>loglines := loglines s @ l\<rparr>) \<and> length l = length msgs"
proof (induction msgs arbitrary: s)
  case Nil
  show ?case by (simp add: retP_def)
next
  case (Cons msg msgs)
  obtain format args where msg: "msg = (format, args)" by fastforce
  let ?s = "s\<lparr>loglines := loglines s @ [Printf (tagged ''ERROR'' (Log (wpc s)) @ format) args]\<rparr>"
  obtain l where "forP msgs (\<lambda>(format, args). logWith (\<lambda>l. Logger_Errorf l format args)) ?s
      = Some (Ok (), ?s\<lparr>loglines := loglines ?s @ l\<rparr>)" "length l = length msgs"
    using Cons.IH by blast
  then show ?case
    by (intro exI [of _ "Printf (tagged ''ERROR'' (Log (wpc s)) @ format) args # l"])
       (simp add: msg bindP_def logWith_def modifyP_def Logger_Errorf_def)
qed

text \<open>What \<open>Init\<close> accepts.\<close>

definition acceptable :: "WinPerfCounters \<Rightarrow> bool" where
  "acceptable m \<longleftrightarrow> 1024 \<le> MaxBufferSize m \<and> MaxBufferSize m < 2 ^ 32
     \<and> (UseWildcardsExpansion m \<and> \<not> LocalizeWildcardsExpansion m \<longrightarrow>
         (\<forall>obj \<in> set (Object m). wildcardFree (ObjectName obj)
            \<and> (\<forall>ctr \<in> set (Counters obj). wildcardFree ctr)))"

lemma initialBufferSize_int [simp]: "uint initialBufferSize = 1024"
  by (simp add: initialBufferSize_def)

lemma Init_outcome:
  "\<exists>r l. Init s = Some (r, s\<lparr>loglines := loglines s @ l\<rparr>)
     \<and> (acceptable (wpc s) \<longrightarrow> r = Ok () \<and> l = []) \<and> (\<not> acceptable (wpc s) \<longrightarrow> (\<exists>e. r = Err e))"
proof -
  let ?m = "wpc s" and ?found = "concat (map objectWildcards (Object (wpc s)))"
  have found: "?found = [] \<longleftrightarrow> (\<forall>obj \<in> set (Object ?m). wildcardFree (ObjectName obj)
      \<and> (\<forall>ctr \<in> set (Counters obj). wildcardFree ctr))"
    using objectWildcards_Nil by auto
  consider "MaxBufferSize ?m < 1024 \<or> MaxBufferSize ?m > 2 ^ 32 - 1"
    | "1024 \<le> MaxBufferSize ?m" "MaxBufferSize ?m \<le> 2 ^ 32 - 1"
      "\<not> (UseWildcardsExpansion ?m \<and> \<not> LocalizeWildcardsExpansion ?m)"
    | "1024 \<le> MaxBufferSize ?m" "MaxBufferSize ?m \<le> 2 ^ 32 - 1"
      "UseWildcardsExpansion ?m \<and> \<not> LocalizeWildcardsExpansion ?m"
    by linarith
  then show ?thesis
  proof cases
    case 1
    then show ?thesis
      by (intro exI [of _ "fst (the (Init s))"] exI [of _ "[]"])
         (auto simp: Init_def prog_simps cfg_def acceptable_def)
  next
    case 2
    then show ?thesis
      by (intro exI [of _ "Ok ()"] exI [of _ "[]"]) (auto simp: Init_def prog_simps cfg_def acceptable_def)
  next
    case 3
    obtain l where "forP ?found (\<lambda>(format, args). logWith (\<lambda>l. Logger_Errorf l format args)) s
        = Some (Ok (), s\<lparr>loglines := loglines s @ l\<rparr>)" and len: "length l = length ?found"
      using logAll by blast
    moreover have "?found = [] \<Longrightarrow> l = []" using len by (metis length_0_conv)
    ultimately show ?thesis
      using 3 found
      by (intro exI [of _ "fst (the (Init s))"] exI [of _ l])
         (auto simp: Init_def prog_simps cfg_def acceptable_def)
  qed
qed

section \<open>Properties\<close>

text \<open>
  C20. \<open>Init\<close> accepts exactly the usable configurations: it returns nil if and only if the
  buffer limit is at least 1024 and fits in 32 bits and, when wildcards are expanded without
  localisation, no object or counter name holds a wildcard; otherwise it returns an error.
  It changes nothing but the log, and does not write to it when it accepts.
\<close>

theorem Init_exact:
  "\<exists>r l. Init s = Some (r, s\<lparr>loglines := loglines s @ l\<rparr>)
     \<and> (r = Ok () \<longleftrightarrow> acceptable (wpc s)) \<and> (r = Ok () \<longleftrightarrow> (\<forall>e. r \<noteq> Err e)) \<and> (r = Ok () \<longrightarrow> l = [])"
  using Init_outcome [of s] by (metis result.distinct(1))

theorem Init_exact_witness:
  "\<exists>r l. Init \<lparr>wpc = NewWinPerfCounters True, world = (), loglines = [], emitted = []\<rparr>
     = Some (r, \<lparr>wpc = NewWinPerfCounters True, world = (), loglines = l, emitted = []\<rparr>) \<and> r = Ok ()"
proof -
  have "acceptable (NewWinPerfCounters True)"
    by (simp add: acceptable_def NewWinPerfCounters_def defaultMaxBufferSize_def)
  then show ?thesis
    using Init_exact [of "\<lparr>wpc = NewWinPerfCounters True, world = (), loglines = [], emitted = []\<rparr>"] by auto
qed

subsection \<open>Which failures \<open>parseConfig\<close> passes on\<close>

definition neverFails :: "('s, 'a) prog \<Rightarrow> bool" where
  "neverFails m \<longleftrightarrow> (\<forall>s e t. m s \<noteq> Some (Err e, t))"

lemma neverFails_bindP:
  "neverFails m \<Longrightarrow> (\<And>a. neverFails (f a)) \<Longrightarrow> neverFails (bindP m f)"
  by (auto simp: neverFails_def bindP_def split: option.splits result.splits)

lemma neverFails_seqP: "neverFails m \<Longrightarrow> neverFails k \<Longrightarrow> neverFails (seqP m k)"
  by (simp add: seqP_def neverFails_bindP)

lemma neverFails_basic:
  "neverFails (retP a)" "neverFails (getP g)" "neverFails (modifyP h)" "neverFails (cfg k)"
  "neverFails (setCfg u)" "neverFails (logWith l)" "neverFails (attemptP m)"
  by (auto simp: neverFails_def retP_def getP_def modifyP_def cfg_def setCfg_def logWith_def
      attemptP_never_Err)

lemma neverFails_forP: "(\<And>x. x \<in> set xs \<Longrightarrow> neverFails (f x)) \<Longrightarrow> neverFails (forP xs f)"
  by (induction xs) (auto intro: neverFails_bindP neverFails_basic)

lemma neverFails_addCounters:
  "\<not> FailOnMissing obj \<Longrightarrow> neverFails (addCounters pf obj computer)"
  unfolding addCounters_def addInstance_def Let_def
  by (intro neverFails_forP neverFails_seqP neverFails_bindP)
     (auto simp: neverFails_basic intro!: neverFails_seqP split: sum.split)

text \<open>
  C28. A counter that cannot be added does not stop the configuration unless that was asked
  for: with at least one object and no object marked \<open>FailOnMissing\<close>, \<open>parseConfig\<close> never
  returns an error, whatever Windows answers.
\<close>

theorem parseConfig_tolerant:
  assumes "Object (wpc s) \<noteq> []" and "\<forall>obj \<in> set (Object (wpc s)). \<not> FailOnMissing obj"
  shows "parseConfig pf s \<noteq> Some (Err e, t)"
proof -
  let ?s = "s\<lparr>wpc := (if Sources (wpc s) = [] then (wpc s)\<lparr>Sources := [''localhost'']\<rparr> else wpc s)\<rparr>"
  let ?loop = "forP (Object (wpc s)) (\<lambda>obj. bindP (cfg Sources) (\<lambda>sources.
      forP (if object_Sources obj = [] then sources else object_Sources obj) (\<lambda>computer.
        addCounters pf obj (if computer = '''' then ''localhost'' else computer))))"
  have "neverFails ?loop"
    using assms(2)
    by (intro neverFails_forP neverFails_bindP neverFails_addCounters neverFails_basic) auto
  moreover have "Object (wpc ?s) = Object (wpc s)" by simp
  then have "parseConfig pf s = ?loop ?s"
    using assms(1) by (simp add: parseConfig_def prog_simps setCfg_def cfg_def)
  ultimately show ?thesis by (simp add: neverFails_def)
qed

theorem parseConfig_tolerant_witness:
  "\<forall>e t. parseConfig (samplePlatform AMD64 [] 0 0)
     \<lparr>wpc = (NewWinPerfCounters True)\<lparr>Object := [\<lparr>object_Sources = [], ObjectName = ''Processor'',
        Counters = [''% Idle Time''], Instances = [''*''], Measurement = '''', WarnOnMissing = True,
        FailOnMissing = False, IncludeTotal = False, UseRawValues = False\<rparr>]\<rparr>,
      world = (), loglines = [], emitted = []\<rparr> \<noteq> Some (Err e, t)"
  by (intro allI parseConfig_tolerant) simp_all

text \<open>
  Setting up and tearing down always return, and keep the collector well formed: with a
  limit below 2 GiB, and while Windows hands back sizes below 2 GiB, \<open>parseConfig\<close> and
  \<open>cleanQueries\<close> come back from every well-formed state and leave a well-formed one, also when
  they end with an error or a panic.
\<close>

theorem setup_keeps_invariant:
  assumes "boundedSizes pf" and "goodRuntime s"
  shows "(\<exists>r t. parseConfig pf s = Some (r, t) \<and> goodRuntime t)
       \<and> (\<exists>r t. cleanQueries pf s = Some (r, t) \<and> goodRuntime t)"
  using good.keeps_parseConfig [of pf] keeps_cleanQueries [of pf] assms
  unfolding keeps_def by blast

theorem setup_keeps_invariant_witness:
  "\<exists>r t. parseConfig (samplePlatform AMD64 [] 16 0)
     \<lparr>wpc = NewWinPerfCounters True, world = (), loglines = [], emitted = []\<rparr> = Some (r, t)
   \<and> goodRuntime t"
proof -
  have 1: "boundedSizes (samplePlatform AMD64 [] 16 0)"
    by (simp add: boundedSizes_def samplePlatform_def)
  have 2: "goodRuntime \<lparr>wpc = NewWinPerfCounters True, world = (), loglines = [], emitted = []\<rparr>"
    by (simp add: goodRuntime_def wfHosts_def NewWinPerfCounters_def defaultMaxBufferSize_def)
  show ?thesis using setup_keeps_invariant [OF 1 2] by blast
qed

section \<open>Closing and stranded hosts\<close>

text \<open>Walking a map visits every key once.\<close>

definition fairRange :: "'w platform \<Rightarrow> bool" where
  "fairRange pf \<longleftrightarrow>
     (\<forall>n w. distinct (fst (rangePerm pf n w)) \<and> set (fst (rangePerm pf n w)) = {0..<n})"

lemma rangeHosts_keys:
  assumes "fairRange pf"
  shows "\<exists>keys w. rangeHosts pf s = Some (Ok keys, s\<lparr>world := w\<rparr>)
           \<and> set keys = fst ` set (hostCounters (wpc s))"
proof -
  let ?keys = "map fst (hostCounters (wpc s))"
  obtain order w where perm: "rangePerm pf (length ?keys) (world s) = (order, w)" by fastforce
  then have "set order = {0..<length ?keys}" using assms unfolding fairRange_def by (metis fst_conv)
  then have "set (map (\<lambda>i. ?keys ! i) order) = set ?keys"
    by (simp only: set_map) (metis list.set_map map_nth set_upt)
  then show ?thesis
    using perm by (intro exI [of _ "map (\<lambda>i. ?keys ! i) order"] exI [of _ w]) (simp add: rangeHosts_def)
qed

text \<open>A host that is in the map with a query that is not open.\<close>

definition stranded :: "string \<Rightarrow> 'w runtime \<Rightarrow> bool" where
  "stranded key s \<longleftrightarrow> (\<exists>h. host key s = Some h \<and> \<not> isOpen (host_query h))"

text \<open>States that differ only in the machine, the log and the hosts, and in the same hosts.\<close>

definition sameSetup :: "'w runtime \<Rightarrow> 'w runtime \<Rightarrow> bool" where
  "sameSetup s t \<longleftrightarrow> (wpc t)\<lparr>hostCounters := []\<rparr> = (wpc s)\<lparr>hostCounters := []\<rparr>
     \<and> map fst (hostCounters (wpc t)) = map fst (hostCounters (wpc s))
     \<and> emitted t = emitted s"

lemma sameSetup_refl [simp]: "sameSetup s s" "sameSetup s (s\<lparr>world := w\<rparr>)"
  by (simp_all add: sameSetup_def)

lemma sameSetup_trans: "sameSetup s t \<Longrightarrow> sameSetup t u \<Longrightarrow> sameSetup s u"
  by (simp add: sameSetup_def)

lemma host_setHost: "host j (setHost key h s) = (if j = key then Some h else host j s)"
  by (simp add: host_def setHost_def)

lemma host_world [simp]: "host j (s\<lparr>world := w\<rparr>) = host j s"
  by (simp add: host_def)

lemma setHost_world: "setHost key h (s\<lparr>world := w\<rparr>) = (setHost key h s)\<lparr>world := w\<rparr>"
  by (simp add: setHost_def)

lemma sameSetup_setHost:
  "host key s \<noteq> None \<Longrightarrow> sameSetup s (setHost key h s)"
  by (auto simp: sameSetup_def setHost_def host_def map_of_eq_None_iff)

text \<open>Closing the query of one host.\<close>

lemma closeHost_outcome:
  assumes "host key s = Some h"
  obtains (closed) t where "changeQuery key (Close pf) s = Some (Ok (), t)" "isOpen (host_query h)"
      "sameSetup s t" "stranded key t" "\<And>j. j \<noteq> key \<Longrightarrow> host j t = host j s"
  | (failed) e t where "changeQuery key (Close pf) s = Some (Err e, t)" "sameSetup s t"
      "\<And>j. host j t = host j s"
proof (rule query.close_outcome [of pf "host_query h" "world s"])
  fix q w
  assume run: "Close pf (host_query h, world s) = Some (Ok (), (q, w))"
    and "isOpen (host_query h)" "\<not> isOpen q"
  moreover have "changeQuery key (Close pf) s
      = Some (Ok (), (setHost key (h\<lparr>host_query := q\<rparr>) s)\<lparr>world := w\<rparr>)"
    by (simp add: changeQuery_def onHost_def assms run)
  ultimately show thesis
    using sameSetup_trans [OF sameSetup_setHost [of key s "h\<lparr>host_query := q\<rparr>"] sameSetup_refl(2)] assms
    by (intro closed [of "(setHost key (h\<lparr>host_query := q\<rparr>) s)\<lparr>world := w\<rparr>"])
       (auto simp: stranded_def host_setHost)
next
  fix e w
  assume run: "Close pf (host_query h, world s) = Some (Err e, (host_query h, w))"
  have "changeQuery key (Close pf) s = Some (Err e, (setHost key h s)\<lparr>world := w\<rparr>)"
    by (simp add: changeQuery_def onHost_def assms run)
  then show thesis
    using sameSetup_trans [OF sameSetup_setHost [of key s h] sameSetup_refl(2)] assms
    by (intro failed [of e "(setHost key h s)\<lparr>world := w\<rparr>"]) (auto simp: host_setHost)
qed

lemma closeAll_stranded:
  assumes "stranded key s" and "key \<in> set keys" and "set keys \<subseteq> fst ` set (hostCounters (wpc s))"
  shows "\<exists>e t. forP keys (\<lambda>k. changeQuery k (Close pf)) s = Some (Err e, t)
           \<and> stranded key t \<and> sameSetup s t"
  using assms
proof (induction keys arbitrary: s)
  case (Cons k keys)
  have "k \<in> fst ` set (hostCounters (wpc s))" using Cons.prems(3) by simp
  then obtain h where h: "host k s = Some h"
    by (auto simp: host_def) (metis domD domI dom_map_of_conv_image_fst fst_conv image_eqI)
  show ?case
  proof (cases rule: closeHost_outcome [OF h, of pf])
    case (2 e t)
    then show ?thesis using Cons.prems(1) by (auto simp: bindP_def stranded_def)
  next
    case closed: (1 t)
    then have k: "k \<noteq> key" using Cons.prems(1) h by (auto simp: stranded_def)
    then have "stranded key t" using closed Cons.prems(1) by (auto simp: stranded_def)
    moreover have "fst ` set (hostCounters (wpc t)) = fst ` set (hostCounters (wpc s))"
      using closed(3) unfolding sameSetup_def by (metis list.set_map)
    ultimately obtain e u where "forP keys (\<lambda>k. changeQuery k (Close pf)) t = Some (Err e, u)"
      "stranded key u" "sameSetup t u"
      using Cons.IH [of t] Cons.prems k by auto
    then show ?thesis using closed sameSetup_trans by (auto simp: bindP_def)
  qed
qed simp

lemma cleanQueries_stranded:
  assumes "fairRange pf" and "stranded key s"
  shows "\<exists>e t. cleanQueries pf s = Some (Err e, t) \<and> stranded key t \<and> sameSetup s t"
proof -
  obtain keys w where range: "rangeHosts pf s = Some (Ok keys, s\<lparr>world := w\<rparr>)"
    and keys: "set keys = fst ` set (hostCounters (wpc s))"
    using rangeHosts_keys [OF assms(1)] by blast
  let ?s = "s\<lparr>world := w\<rparr>"
  have "stranded key ?s" using assms(2) by (simp add: stranded_def)
  moreover have "key \<in> set keys"
    using assms(2) keys by (auto simp: stranded_def host_def dest: map_of_SomeD intro: rev_image_eqI)
  ultimately obtain e t where "forP keys (\<lambda>k. changeQuery k (Close pf)) ?s = Some (Err e, t)"
    "stranded key t" "sameSetup ?s t"
    using closeAll_stranded [of key ?s keys pf] keys by auto
  then show ?thesis
    using range sameSetup_trans [OF sameSetup_refl(2)] by (auto simp: cleanQueries_def prog_simps)
qed

text \<open>
  C26. \<open>cleanQueries\<close> succeeds only if every query was open, and then no host is left; if the
  query of some host is not open it returns an error, and that host stays in the map with its
  query closed, so that the next attempt fails as well.
\<close>

theorem cleanQueries_all_or_stuck:
  assumes "fairRange pf"
  shows "(\<forall>t. cleanQueries pf s = Some (Ok (), t) \<longrightarrow>
            hostCounters (wpc t) = [] \<and> (\<forall>key h. host key s = Some h \<longrightarrow> queryHandle (host_query h) \<noteq> 0))
       \<and> (\<forall>key h. host key s = Some h \<longrightarrow> queryHandle (host_query h) = 0 \<longrightarrow>
            (\<exists>e t h'. cleanQueries pf s = Some (Err e, t) \<and> host key t = Some h'
               \<and> queryHandle (host_query h') = 0))"
proof (intro conjI allI impI)
  fix t
  assume ok: "cleanQueries pf s = Some (Ok (), t)"
  then show "hostCounters (wpc t) = []"
    by (auto simp: cleanQueries_def seqP_def bindP_eq_Ok setCfg_def modifyP_def)
  fix key h
  assume "host key s = Some h"
  then show "queryHandle (host_query h) \<noteq> 0"
    using cleanQueries_stranded [OF assms, of key s] ok by (auto simp: stranded_def isOpen_def)
next
  fix key h
  assume "host key s = Some h" and "queryHandle (host_query h) = 0"
  then have "stranded key s" by (simp add: stranded_def isOpen_def)
  then show "\<exists>e t h'. cleanQueries pf s = Some (Err e, t) \<and> host key t = Some h'
      \<and> queryHandle (host_query h') = 0"
    using cleanQueries_stranded [OF assms, of key s] by (auto simp: stranded_def isOpen_def)
qed

text \<open>A collector with one host whose query is not open.\<close>

definition strandedSample :: "unit runtime" where
  "strandedSample = \<lparr>wpc = (NewWinPerfCounters True)\<lparr>hostCounters :=
       [(''h'', \<lparr>host_computer = ''h'', host_tag = ''h'', host_counters = [],
                 host_query = newPerformanceQuery ''h'' 2048, host_timestamp = 0\<rparr>)]\<rparr>,
     world = (), loglines = [], emitted = []\<rparr>"

lemma fairRange_sample [simp]: "fairRange (samplePlatform a bytes need n)"
  by (simp add: fairRange_def samplePlatform_def)

theorem cleanQueries_all_or_stuck_witness:
  "\<exists>e t h. cleanQueries (samplePlatform AMD64 [] 0 0) strandedSample = Some (Err e, t)
     \<and> host ''h'' t = Some h \<and> queryHandle (host_query h) = 0"
  using conjunct2 [OF cleanQueries_all_or_stuck [OF fairRange_sample [of AMD64 "[]" 0 0], of strandedSample]]
  by (simp add: strandedSample_def host_def newPerformanceQuery_def)

text \<open>
  A query that cannot be opened strands its host: when a new host's query is refused by
  Windows, \<open>addItem\<close> returns that error, but the host is already in the map, with a query
  that is not open and without counters.
\<close>

theorem addItem_strands_host:
  assumes "computer \<noteq> ''localhost''" and "host computer s = None"
    and "\<And>w. \<exists>ret h w'. PdhOpenQuery pf 0 0 w = (ret, h, w') \<and> (ucast ret :: u32) \<noteq> errorSuccess"
  shows "\<exists>code text t h. addItem pf path computer objectName inst counterName me it ur s
             = Some (Err (PdhError code text), t)
           \<and> host computer t = Some h \<and> queryHandle (host_query h) = 0 \<and> host_counters h = []"
proof -
  let ?q = "newPerformanceQuery computer (word_of_int (MaxBufferSize (wpc s)))"
  let ?h = "\<lparr>host_computer = computer, host_tag = computer, host_counters = [], host_query = ?q,
      host_timestamp = zeroTime\<rparr>"
  let ?s = "setHost computer ?h s"
  obtain ret hd w where call: "PdhOpenQuery pf 0 0 (world ?s) = (ret, hd, w)"
    and ret: "(ucast ret :: u32) \<noteq> errorSuccess"
    using assms(3) by blast
  let ?e = "newPdhError pf (ucast ret) w"
  have "Open pf (?q, world ?s) = Some (Err (fst ?e), (?q, snd ?e))"
    using call ret
    by (simp add: Open_def openHandle_def pdhOpenQuery_def newPerformanceQuery_def withMachine_failPdh)
  then have "changeQuery computer (Open pf) ?s = Some (Err (fst ?e), (setHost computer ?h ?s)\<lparr>world := snd ?e\<rparr>)"
    by (simp add: changeQuery_def onHost_def host_setHost)
  then have "addItem pf path computer objectName inst counterName me it ur s
      = Some (Err (fst ?e), (setHost computer ?h ?s)\<lparr>world := snd ?e\<rparr>)"
    using assms(1,2) by (simp add: addItem_def ensureHost_def prog_simps cfg_def)
  moreover have "\<exists>text. fst ?e = PdhError (ucast ret) text"
    by (simp add: newPdhError_def case_prod_unfold Let_def)
  ultimately show ?thesis
    by (auto simp: host_setHost newPerformanceQuery_def)
qed

theorem addItem_strands_host_witness:
  "\<exists>code text t h. addItem ((samplePlatform AMD64 [] 0 0)\<lparr>PdhOpenQuery := (\<lambda>s d w. (0x800007D0, 0, w))\<rparr>)
       ''p'' ''srv'' ''o'' ''i'' ''c'' '''' False False
       \<lparr>wpc = NewWinPerfCounters True, world = (), loglines = [], emitted = []\<rparr>
     = Some (Err (PdhError code text), t)
   \<and> host ''srv'' t = Some h \<and> queryHandle (host_query h) = 0 \<and> host_counters h = []"
  by (rule addItem_strands_host) (simp_all add: host_def NewWinPerfCounters_def)

end
