(* ===== verification/Parsing.thy ===== *)
theory Parsing
  imports Config
begin

text \<open>
  The counters that \<open>parseConfig\<close> of \<open>win_perf_counters.go\<close> creates when wildcards are not
  expanded: an abstract specification that lists them from the configuration and from what
  Windows refuses, and the proof that the code refines it. Handles are Windows' choice; the
  specification leaves them out. What the proof needs of Windows and of the state is the
  locale \<open>config_setup\<close>; it is interpreted here for a Windows that accepts or refuses counters
  by their paths, and again in the theory \<open>Documented\<close>.
\<close>

section \<open>The specification\<close>

definition withoutHandle :: "counter \<Rightarrow> counter" where
  "withoutHandle c = c\<lparr>counterHandle := 0\<rparr>"

type_synonym configItem = "string \<times> counter"

definition instanceItem :: "perfObject \<Rightarrow> string \<Rightarrow> string \<Rightarrow> string \<Rightarrow> configItem" where
  "instanceItem obj computer ctr inst =
     (computer, newCounter 0 (formatPath computer (ObjectName obj) inst ctr) computer
        (ObjectName obj) inst ctr (Measurement obj) (IncludeTotal obj) (UseRawValues obj))"

definition computersOf :: "string list \<Rightarrow> perfObject \<Rightarrow> string list" where
  "computersOf sources obj =
     map (\<lambda>computer. if computer = '''' then ''localhost'' else computer)
       (if object_Sources obj = [] then (if sources = [] then [''localhost''] else sources)
        else object_Sources obj)"

definition counterItems :: "perfObject \<Rightarrow> string \<Rightarrow> configItem list" where
  "counterItems obj computer =
     concat (map (\<lambda>ctr. map (instanceItem obj computer ctr) (Instances obj)) (Counters obj))"

definition configItems :: "WinPerfCounters \<Rightarrow> configItem list" where
  "configItems m =
     concat (map (\<lambda>obj. concat (map (counterItems obj) (computersOf (Sources m) obj))) (Object m))"

text \<open>
  The plan of \<open>parseConfig\<close>: the counters in order, each with whether a failure of it ends the
  work. When Windows accepts the paths of which \<open>A\<close> holds, the work ends at the first refused
  counter of an object that is marked so, and what is created are the accepted ones before.
\<close>

type_synonym plannedItem = "bool \<times> configItem"

definition objectPlan :: "string list \<Rightarrow> perfObject \<Rightarrow> plannedItem list" where
  "objectPlan sources obj =
     map (Pair (FailOnMissing obj)) (concat (map (counterItems obj) (computersOf sources obj)))"

definition configPlan :: "WinPerfCounters \<Rightarrow> plannedItem list" where
  "configPlan m = concat (map (objectPlan (Sources m)) (Object m))"

definition accepted :: "(string \<Rightarrow> bool) \<Rightarrow> plannedItem \<Rightarrow> bool" where
  "accepted A = (\<lambda>(strict, key, c). A (counterPath c))"

definition tolerated :: "(string \<Rightarrow> bool) \<Rightarrow> plannedItem \<Rightarrow> bool" where
  "tolerated A item \<longleftrightarrow> accepted A item \<or> \<not> fst item"

definition complete :: "(string \<Rightarrow> bool) \<Rightarrow> plannedItem list \<Rightarrow> bool" where
  "complete A plan \<longleftrightarrow> list_all (tolerated A) plan"

definition created :: "(string \<Rightarrow> bool) \<Rightarrow> plannedItem list \<Rightarrow> configItem list" where
  "created A plan = map snd (filter (accepted A) (takeWhile (tolerated A) plan))"

text \<open>
  The same for any account of what a configured counter comes to: the plan has, for each of
  them, whether its failure ends the work, its path and what it yields when it is accepted.
\<close>

type_synonym yieldPlan = "(bool \<times> string \<times> configItem list) list"
type_synonym yield = "perfObject \<Rightarrow> string \<Rightarrow> string \<Rightarrow> string \<Rightarrow> configItem list"

definition counterPlan :: "yield \<Rightarrow> perfObject \<Rightarrow> string \<Rightarrow> yieldPlan" where
  "counterPlan yields obj computer =
     concat (map (\<lambda>ctr. map (\<lambda>inst. (FailOnMissing obj, formatPath computer (ObjectName obj) inst ctr,
         yields obj computer ctr inst)) (Instances obj)) (Counters obj))"

definition planOf :: "yield \<Rightarrow> WinPerfCounters \<Rightarrow> yieldPlan" where
  "planOf yields m =
     concat (map (\<lambda>obj. concat (map (counterPlan yields obj) (computersOf (Sources m) obj))) (Object m))"

definition tolerates :: "(string \<Rightarrow> bool) \<Rightarrow> bool \<times> string \<times> configItem list \<Rightarrow> bool" where
  "tolerates A = (\<lambda>(strict, path, items). A path \<or> \<not> strict)"

definition finishes :: "(string \<Rightarrow> bool) \<Rightarrow> yieldPlan \<Rightarrow> bool" where
  "finishes A plan \<longleftrightarrow> list_all (tolerates A) plan"

definition gained :: "(string \<Rightarrow> bool) \<Rightarrow> yieldPlan \<Rightarrow> configItem list" where
  "gained A plan = concat (map (\<lambda>(strict, path, items). items)
     (filter (\<lambda>(strict, path, items). A path) (takeWhile (tolerates A) plan)))"

text \<open>A collector without sources asks the local host.\<close>

definition defaultSources :: "WinPerfCounters \<Rightarrow> WinPerfCounters" where
  "defaultSources m = m\<lparr>Sources := if Sources m = [] then [''localhost''] else Sources m\<rparr>"

text \<open>The counters of a host, in order, without their handles.\<close>

definition countersOf :: "'w runtime \<Rightarrow> string \<Rightarrow> counter list" where
  "countersOf s key =
     (case host key s of None \<Rightarrow> [] | Some h \<Rightarrow> map withoutHandle (host_counters h))"

lemma gained_simps [simp]:
  "gained A [] = []" "finishes A []"
  by (simp_all add: gained_def finishes_def)

lemma finishes_append [simp]: "finishes A (xs @ ys) \<longleftrightarrow> finishes A xs \<and> finishes A ys"
  by (simp add: finishes_def)

lemma gained_append:
  "gained A (xs @ ys) = gained A xs @ (if finishes A xs then gained A ys else [])"
  by (induction xs) (auto simp: gained_def finishes_def)

text \<open>The plan of the configuration is the one in which every counter yields itself.\<close>

definition itself :: yield where
  "itself obj computer ctr inst = [instanceItem obj computer ctr inst]"

definition yieldItself :: "plannedItem \<Rightarrow> bool \<times> string \<times> configItem list" where
  "yieldItself = (\<lambda>(strict, key, c). (strict, counterPath c, [(key, c)]))"

text \<open>What the counters yield has no bearing on the length of a plan and on whether it is finished.\<close>

lemma planOf_paths:
  "map (\<lambda>(strict, path, items). (strict, path)) (planOf yields m) = map (\<lambda>(strict, key, c). (strict, counterPath c)) (configPlan m)"
  by (simp add: planOf_def counterPlan_def configPlan_def objectPlan_def counterItems_def instanceItem_def map_concat comp_def
      newCounter_def Let_def)

lemma length_planOf: "length (planOf yields m) = length (configPlan m)"
  using arg_cong [where f = length, OF planOf_paths [of yields m]] by simp

lemma finishes_planOf: "finishes A (planOf yields m) = complete A (configPlan m)"
proof -
  have "finishes A plan = list_all (\<lambda>(strict, path). A path \<or> \<not> strict) (map (\<lambda>(strict, path, items). (strict, path)) plan)" for plan
    by (induction plan) (auto simp: finishes_def tolerates_def)
  moreover have "complete A plan = list_all (\<lambda>(strict, path). A path \<or> \<not> strict) (map (\<lambda>(strict, key, c). (strict, counterPath c)) plan)" for plan
    by (induction plan) (auto simp: complete_def tolerated_def accepted_def)
  ultimately show ?thesis by (simp only: planOf_paths)
qed

lemma configPlan_defaultSources: "configPlan (defaultSources m) = configPlan m"
  by (simp add: configPlan_def objectPlan_def [abs_def] computersOf_def defaultSources_def)

lemma configPlan_items: "map snd (configPlan m) = configItems m"
  by (simp add: configPlan_def objectPlan_def configItems_def map_concat comp_def)

text \<open>When nothing is refused, the plan is carried out.\<close>

lemma created_all: "created (\<lambda>_. True) plan = map snd plan" "complete (\<lambda>_. True) plan"
  by (induction plan) (simp_all add: created_def complete_def tolerated_def accepted_def case_prod_unfold)

lemma gained_itself: "gained A (map yieldItself plan) = created A plan"
proof (induction plan)
  case (Cons item plan)
  obtain strict key c where "item = (strict, key, c)" by (cases item)
  with Cons show ?case
    by (simp add: gained_def created_def yieldItself_def tolerates_def tolerated_def accepted_def)
qed (simp add: created_def)

lemma finishes_itself: "finishes A (map yieldItself plan) = complete A plan"
  by (auto simp: finishes_def complete_def list_all_iff yieldItself_def tolerates_def tolerated_def accepted_def
      split: prod.splits)

section \<open>Gained counters\<close>

text \<open>
  The state has gained the given counters, each at the end of its host's list; of the
  collector only the hosts and the cached host name have changed.
\<close>

definition gains :: "configItem list \<Rightarrow> 'w runtime \<Rightarrow> 'w runtime \<Rightarrow> bool" where
  "gains items s t \<longleftrightarrow>
     (wpc t)\<lparr>hostCounters := [], cachedHostname := ''''\<rparr> = (wpc s)\<lparr>hostCounters := [], cachedHostname := ''''\<rparr>
     \<and> emitted t = emitted s
     \<and> (\<forall>key. countersOf t key = countersOf s key @ map snd (filter (\<lambda>i. fst i = key) items))"

lemma gains_refl [simp]: "gains [] s s"
  by (simp add: gains_def)

lemma gains_trans: "gains xs s t \<Longrightarrow> gains ys t u \<Longrightarrow> gains (xs @ ys) s u"
  by (simp add: gains_def)

lemma gains_fields:
  assumes "gains items s t"
  shows "Object (wpc t) = Object (wpc s)" "Sources (wpc t) = Sources (wpc s)"
    "hasCollect (wpc t) = hasCollect (wpc s)" "UsePerfCounterTime (wpc t) = UsePerfCounterTime (wpc s)"
    "UseWildcardsExpansion (wpc t) = UseWildcardsExpansion (wpc s)" "MaxBufferSize (wpc t) = MaxBufferSize (wpc s)"
    "lastRefreshed (wpc t) = lastRefreshed (wpc s)"
  using assms unfolding gains_def by (cases "wpc s"; cases "wpc t"; simp)+

lemma withoutHandle_newCounter [simp]:
  "withoutHandle (newCounter h p c ob i ct me it ur) = newCounter 0 p c ob i ct me it ur"
  by (simp add: withoutHandle_def newCounter_def Let_def)

lemma newCounter_sel [simp]:
  "counterPath (newCounter h p c ob i ct me it ur) = p" "counterHandle (newCounter h p c ob i ct me it ur) = h"
  by (simp_all add: newCounter_def Let_def)

lemma planOf_itself: "planOf itself m = map yieldItself (configPlan m)"
  by (simp add: planOf_def configPlan_def objectPlan_def counterPlan_def [abs_def] counterItems_def [abs_def] itself_def instanceItem_def
      yieldItself_def map_concat comp_def)

lemma setHost_config [simp]:
  "Object (wpc (setHost key h s)) = Object (wpc s)" "Sources (wpc (setHost key h s)) = Sources (wpc s)"
  "hasCollect (wpc (setHost key h s)) = hasCollect (wpc s)" "emitted (setHost key h s) = emitted s"
  "UseWildcardsExpansion (wpc (setHost key h s)) = UseWildcardsExpansion (wpc s)"
  "LocalizeWildcardsExpansion (wpc (setHost key h s)) = LocalizeWildcardsExpansion (wpc s)"
  "UsePerfCounterTime (wpc (setHost key h s)) = UsePerfCounterTime (wpc s)"
  "MaxBufferSize (wpc (setHost key h s)) = MaxBufferSize (wpc s)" "world (setHost key h s) = world s"
  by (simp_all add: setHost_def)

lemma countersOf_setHost:
  "countersOf (setHost key h s) j = (if j = key then map withoutHandle (host_counters h) else countersOf s j)"
  by (simp add: countersOf_def host_setHost)

lemma countersOf_world [simp]: "countersOf (s\<lparr>world := w\<rparr>) j = countersOf s j"
  by (simp add: countersOf_def)

text \<open>Steps that leave the counters as they are, and the one that appends.\<close>

lemma gains_none:
  "(wpc t)\<lparr>cachedHostname := ''''\<rparr> = (wpc s)\<lparr>cachedHostname := ''''\<rparr> \<Longrightarrow> emitted t = emitted s \<Longrightarrow> gains [] s t"
  by (cases "wpc s"; cases "wpc t") (simp add: gains_def countersOf_def host_def)

lemma gains_setHost:
  assumes "map withoutHandle (host_counters h) = countersOf s key @ cs"
  shows "gains (map (Pair key) cs) s ((setHost key h s)\<lparr>world := w\<rparr>)"
  using assms by (auto simp: gains_def countersOf_setHost filter_map comp_def) (simp_all add: setHost_def)

lemma logValid_wpc: "logValid path s = Some (r, t) \<Longrightarrow> wpc t = wpc s"
  by (auto simp: logValid_def cfg_def prog_simps logWith_def split: if_splits)

section \<open>The contract of hosts\<close>

text \<open>\<open>P k\<close> is what holds of the state while \<open>k\<close> more handles can be asked for.\<close>

locale host_setup =
  fixes pf :: "'w platform" and P :: "nat \<Rightarrow> 'w runtime \<Rightarrow> bool"
  assumes spare: "P (Suc k) s \<Longrightarrow> P k s"
    and keeps_log: "P k s \<Longrightarrow> P k (s\<lparr>loglines := l\<rparr>)"
    and keeps_name: "P k s \<Longrightarrow> P k (s\<lparr>world := snd (osHostname pf (world s)), wpc := (wpc s)\<lparr>cachedHostname := n\<rparr>\<rparr>)"
    and keeps_sources: "P k s \<Longrightarrow> P k (s\<lparr>wpc := (wpc s)\<lparr>Sources := x\<rparr>\<rparr>)"
    and new_host: "P (Suc k) s \<Longrightarrow> host key s = None \<Longrightarrow>
      \<exists>q w. Open pf (newPerformanceQuery key (word_of_int (MaxBufferSize (wpc s))), world s) = Some (Ok (), (q, w))
        \<and> P k ((setHost key \<lparr>host_computer = key, host_tag = tag, host_counters = [], host_query = q,
                  host_timestamp = zeroTime\<rparr> s)\<lparr>world := w\<rparr>)"
begin

lemma spare_add: "P (n + k) s \<Longrightarrow> P k s"
  by (induction n) (auto dest: spare)

lemma logWith_kept: "P k s \<Longrightarrow> \<exists>t. logWith f s = Some (Ok (), t) \<and> P k t \<and> gains [] s t"
  by (auto simp: logWith_def modifyP_def intro!: gains_none keeps_log)

lemma logIf_kept:
  "P k s \<Longrightarrow> \<exists>t. (if c then logWith f else retP ()) s = Some (Ok (), t) \<and> P k t \<and> gains [] s t"
  using logWith_kept [of k s f] by (simp add: retP_def)

lemma logValid_kept: "P k s \<Longrightarrow> \<exists>t. logValid path s = Some (Ok (), t) \<and> P k t \<and> gains [] s t"
  using logWith_kept [of k s "\<lambda>l. Logger_Infof l ''Valid: %s'' [AStr path]"] gains_refl [of s]
  by (auto simp: logValid_def cfg_def prog_simps)

lemma hostname_kept: "P k s \<Longrightarrow> \<exists>n t. hostname pf s = Some (Ok n, t) \<and> P k t \<and> gains [] s t"
  using keeps_name [of k s]
  by (auto simp: hostname_def cfg_def setCfg_def machine_def prog_simps Let_def case_prod_unfold
      intro!: gains_none)

lemma sourceTag_kept:
  "P k s \<Longrightarrow> \<exists>tag t. (if computer = ''localhost'' then hostname pf else retP computer) s = Some (Ok tag, t)
     \<and> P k t \<and> gains [] s t"
  using hostname_kept [of k s] gains_refl [of s] by (auto simp: retP_def)

lemma ensureHost_kept:
  assumes "P (Suc k) s"
  shows "\<exists>t. ensureHost pf computer tag s = Some (Ok (), t) \<and> P k t \<and> gains [] s t \<and> host computer t \<noteq> None"
proof (cases "host computer s")
  case (Some h)
  then show ?thesis using gains_refl [of s] spare [OF assms] by (auto simp: ensureHost_def prog_simps)
next
  case None
  let ?q = "newPerformanceQuery computer (word_of_int (MaxBufferSize (wpc s)))"
  let ?h = "\<lambda>q. \<lparr>host_computer = computer, host_tag = tag, host_counters = [], host_query = q, host_timestamp = zeroTime\<rparr>"
  obtain q w where opens: "Open pf (?q, world s) = Some (Ok (), (q, w))" and P: "P k ((setHost computer (?h q) s)\<lparr>world := w\<rparr>)"
    using new_host [OF assms None, of tag] by blast
  have twice: "setHost computer h' (setHost computer h s) = setHost computer h' s" for h h'
    by (simp add: setHost_def)
  have "ensureHost pf computer tag s = Some (Ok (), (setHost computer (?h q) s)\<lparr>world := w\<rparr>)"
    using None opens
    by (simp add: ensureHost_def prog_simps cfg_def changeQuery_def onHost_def host_setHost twice)
  moreover have "gains [] s ((setHost computer (?h q) s)\<lparr>world := w\<rparr>)"
    using gains_setHost [of "?h q" s computer "[]" w] None by (simp add: countersOf_def)
  ultimately show ?thesis using P by (auto simp: host_setHost)
qed

text \<open>A configured counter up to its host, and the last steps of adding a counter.\<close>

lemma host_reached:
  assumes "P (Suc k) s"
  obtains tag s1 s2 h where "(if computer = ''localhost'' then hostname pf else retP computer) s = Some (Ok tag, s1)"
    and "ensureHost pf computer tag s1 = Some (Ok (), s2)" and "P k s2" and "host computer s2 = Some h"
    and "\<And>w. gains [] s (s2\<lparr>world := w\<rparr>)"
proof -
  obtain tag s1 where 1: "(if computer = ''localhost'' then hostname pf else retP computer) s = Some (Ok tag, s1)"
    "P (Suc k) s1" "gains [] s s1" using sourceTag_kept [OF assms] by blast
  obtain s2 where 2: "ensureHost pf computer tag s1 = Some (Ok (), s2)" "P k s2" "gains [] s1 s2"
    "host computer s2 \<noteq> None" using ensureHost_kept [OF 1(2)] by blast
  have "gains [] s (s2\<lparr>world := w\<rparr>)" for w using gains_trans [OF 1(3) 2(3)] by (simp add: gains_def)
  with 1(1) 2 that show ?thesis by blast
qed

lemma appendCounter_kept:
  assumes "host key s = Some h" and "P k (setHost key (h\<lparr>host_counters := host_counters h @ [c]\<rparr>) s)"
  shows "\<exists>t. seqP (appendCounter key c) (logValid path) s = Some (Ok (), t) \<and> P k t \<and> host key t \<noteq> None
           \<and> gains [(key, withoutHandle c)] s t"
proof -
  let ?t = "setHost key (h\<lparr>host_counters := host_counters h @ [c]\<rparr>) s"
  have append: "appendCounter key c s = Some (Ok (), ?t)"
    using assms(1) by (simp add: appendCounter_def onHost_def prog_simps)
  have "gains [(key, withoutHandle c)] s ?t"
    using gains_setHost [of "h\<lparr>host_counters := host_counters h @ [c]\<rparr>" s key "[withoutHandle c]" "world s"] assms(1)
    by (simp add: countersOf_def setHost_def)
  moreover obtain t where t: "logValid path ?t = Some (Ok (), t)" "P k t" "gains [] ?t t"
    using logValid_kept [OF assms(2)] by blast
  moreover have "host key t = host key ?t" using logValid_wpc [OF t(1)] by (simp add: host_def)
  ultimately show ?thesis
    using append gains_trans [of "[(key, withoutHandle c)]" s ?t "[]" t] by (auto simp: seqP_def bindP_def host_setHost)
qed

end

section \<open>The contract of carrying out a plan\<close>

text \<open>
  \<open>A\<close> tells the paths of the counters that can be added, each at the given cost of handles,
  and \<open>yields\<close> what comes of them.
\<close>

locale plan_setup = host_setup pf P for pf :: "'w platform" and P +
  fixes A :: "string \<Rightarrow> bool" and cost :: nat and yields :: yield
  assumes add_item: "P (cost + k) s \<Longrightarrow>
      \<exists>r t. addItem pf (formatPath computer (ObjectName obj) inst ctr) computer (ObjectName obj) inst ctr (Measurement obj)
             (IncludeTotal obj) (UseRawValues obj) s = Some (r, t) \<and> P k t
        \<and> (if A (formatPath computer (ObjectName obj) inst ctr) then r = Ok () \<and> gains (yields obj computer ctr inst) s t
           else (\<exists>e. r = Err e) \<and> gains [] s t)"
begin

subsection \<open>Programs that follow a plan\<close>

definition follows :: "('w runtime \<Rightarrow> bool) \<Rightarrow> yieldPlan \<Rightarrow> ('w, unit) rprog \<Rightarrow> bool" where
  "follows C plan m \<longleftrightarrow> (\<forall>k s. P (cost * length plan + k) s \<longrightarrow> C s \<longrightarrow>
     (\<exists>r t. m s = Some (r, t) \<and> P k t \<and> gains (gained A plan) s t
        \<and> (if finishes A plan then r = Ok () else \<exists>e. r = Err e)))"

lemma followsE:
  assumes "follows C plan m" and "P (cost * length plan + k) s" and "C s"
  obtains r t where "m s = Some (r, t)" "P k t" "gains (gained A plan) s t"
    "if finishes A plan then r = Ok () else \<exists>e. r = Err e"
  using assms unfolding follows_def by blast

lemma follows_weaken: "follows (\<lambda>_. True) plan m \<Longrightarrow> follows C plan m"
  by (simp add: follows_def)

lemma follows_none:
  "(\<And>k s. P k s \<Longrightarrow> \<exists>t. m s = Some (Ok (), t) \<and> P k t \<and> gains [] s t) \<Longrightarrow> follows C [] m"
  by (fastforce simp: follows_def)

lemma follows_bindP:
  assumes m: "follows C p m" and m': "follows C p' m'" and C: "\<And>items s t. C s \<Longrightarrow> gains items s t \<Longrightarrow> C t"
  shows "follows C (p @ p') (bindP m (\<lambda>_. m'))"
  unfolding follows_def
proof (intro allI impI)
  fix k s
  assume P: "P (cost * length (p @ p') + k) s" and "C s"
  then have "P (cost * length p + (cost * length p' + k)) s" by (simp add: algebra_simps)
  from followsE [OF m this \<open>C s\<close>] obtain r t where t: "m s = Some (r, t)" "P (cost * length p' + k) t"
    "gains (gained A p) s t" "if finishes A p then r = Ok () else \<exists>e. r = Err e" by blast
  show "\<exists>r t. bindP m (\<lambda>_. m') s = Some (r, t) \<and> P k t \<and> gains (gained A (p @ p')) s t
      \<and> (if finishes A (p @ p') then r = Ok () else \<exists>e. r = Err e)"
  proof (cases "finishes A p")
    case False
    then show ?thesis using t spare_add [of "cost * length p'" k t] by (auto simp: bindP_def gained_append)
  next
    case True
    from followsE [OF m' t(2) C [OF \<open>C s\<close> t(3)]] obtain r' u where u: "m' t = Some (r', u)" "P k u"
      "gains (gained A p') t u" "if finishes A p' then r' = Ok () else \<exists>e. r' = Err e" by blast
    then show ?thesis
      using t True gains_trans [OF t(3) u(3)] by (auto simp: bindP_def gained_append)
  qed
qed

lemma follows_forP:
  assumes "\<And>x. x \<in> set xs \<Longrightarrow> follows C (g x) (f x)" and "\<And>items s t. C s \<Longrightarrow> gains items s t \<Longrightarrow> C t"
  shows "follows C (concat (map g xs)) (forP xs f)"
  using assms(1)
proof (induction xs)
  case Nil
  show ?case using gains_refl by (auto intro!: follows_none simp: retP_def)
next
  case (Cons x xs)
  then show ?case using follows_bindP [OF _ _ assms(2)] by simp
qed

lemma addInstance_follows:
  "follows C [(FailOnMissing obj, formatPath computer (ObjectName obj) inst ctr, yields obj computer ctr inst)]
     (addInstance pf obj computer ctr inst)"
  unfolding follows_def
proof (intro allI impI)
  fix k s
  let ?path = "formatPath computer (ObjectName obj) inst ctr"
  let ?plan = "[(FailOnMissing obj, ?path, yields obj computer ctr inst)]"
  let ?log = "\<lambda>e. if FailOnMissing obj \<or> WarnOnMissing obj
      then logWith (\<lambda>l. Logger_Errorf l ''Invalid counterPath %q: %s'' [AStr ?path, AErr e]) else retP ()"
  assume "P (cost * length ?plan + k) s"
  then have "P (cost + k) s" by simp
  from add_item [OF this, of computer obj inst ctr]
  obtain r t where t: "addItem pf ?path computer (ObjectName obj) inst ctr (Measurement obj) (IncludeTotal obj)
      (UseRawValues obj) s = Some (r, t)" "P k t"
    and out: "if A ?path then r = Ok () \<and> gains (yields obj computer ctr inst) s t
       else (\<exists>e. r = Err e) \<and> gains [] s t" by blast
  show "\<exists>r t. addInstance pf obj computer ctr inst s = Some (r, t) \<and> P k t \<and> gains (gained A ?plan) s t
      \<and> (if finishes A ?plan then r = Ok () else \<exists>e. r = Err e)"
  proof (cases "A ?path")
    case True
    then show ?thesis
      using t out by (simp add: addInstance_def Let_def prog_simps gained_def finishes_def tolerates_def)
  next
    case False
    then obtain e where e: "r = Err e" and "gains [] s t" using out by auto
    moreover obtain u where u: "?log e t = Some (Ok (), u)" "P k u" "gains [] t u"
      using logIf_kept [OF t(2)] by blast
    ultimately have "gains [] s u" using gains_trans [of "[]" s t "[]" u] by simp
    then show ?thesis
      using False t e u
      by (auto simp: addInstance_def Let_def prog_simps gained_def finishes_def tolerates_def split: if_splits)
  qed
qed

lemma addCounters_follows: "follows C (counterPlan yields obj computer) (addCounters pf obj computer)"
proof -
  let ?warn = "\<lambda>l. Logger_Warnf l (''Missing '' @ [CHR 0x27] @ ''Instances'' @ [CHR 0x27]
      @ '' param for object %q'') [AStr (ObjectName obj)]"
  let ?item = "\<lambda>ctr inst. (FailOnMissing obj, formatPath computer (ObjectName obj) inst ctr, yields obj computer ctr inst)"
  have "follows (\<lambda>_. True) [] (if Instances obj = [] then logWith ?warn else retP ())"
    by (intro follows_none logIf_kept)
  moreover have "follows (\<lambda>_. True) (concat (map (\<lambda>inst. [?item ctr inst]) (Instances obj)))
      (forP (Instances obj) (addInstance pf obj computer ctr))" for ctr
    by (intro follows_forP addInstance_follows) simp
  ultimately have body: "follows (\<lambda>_. True) ([] @ concat (map (\<lambda>inst. [?item ctr inst]) (Instances obj)))
      (seqP (if Instances obj = [] then logWith ?warn else retP ())
        (forP (Instances obj) (addInstance pf obj computer ctr)))" for ctr
    unfolding seqP_def by (rule follows_bindP) (rule TrueI)
  have "follows (\<lambda>_. True) (concat (map (\<lambda>ctr. [] @ concat (map (\<lambda>inst. [?item ctr inst]) (Instances obj))) (Counters obj)))
      (addCounters pf obj computer)"
    unfolding addCounters_def by (rule follows_forP [OF body]) simp
  then have "follows (\<lambda>_. True) (counterPlan yields obj computer) (addCounters pf obj computer)"
    by (simp add: counterPlan_def)
  then show ?thesis by (rule follows_weaken)
qed

lemma object_follows:
  assumes "sources \<noteq> []"
  shows "follows (\<lambda>s. Sources (wpc s) = sources) (concat (map (counterPlan yields obj) (computersOf sources obj)))
     (bindP (cfg Sources) (\<lambda>sources.
        forP (if object_Sources obj = [] then sources else object_Sources obj) (\<lambda>computer.
          addCounters pf obj (if computer = '''' then ''localhost'' else computer))))"
proof -
  let ?computers = "if object_Sources obj = [] then sources else object_Sources obj"
  let ?name = "\<lambda>computer. if computer = '''' then ''localhost'' else computer"
  let ?loop = "\<lambda>computers. forP computers (\<lambda>computer. addCounters pf obj (?name computer))"
  have "follows (\<lambda>s. Sources (wpc s) = sources) (concat (map (\<lambda>computer. counterPlan yields obj (?name computer)) ?computers))
      (?loop ?computers)"
    by (intro follows_forP addCounters_follows) (simp add: gains_fields)
  moreover have "map (\<lambda>computer. counterPlan yields obj (?name computer)) ?computers
      = map (counterPlan yields obj) (computersOf sources obj)"
    using assms by (simp add: computersOf_def comp_def)
  moreover have "bindP (cfg Sources) (\<lambda>sources. ?loop (if object_Sources obj = [] then sources else object_Sources obj)) s
      = ?loop ?computers s" if "Sources (wpc s) = sources" for s :: "'w runtime"
    using that by (simp add: bindP_def cfg_def getP_def)
  ultimately show ?thesis unfolding follows_def by simp
qed

lemma parseConfig_planned:
  assumes "Object (wpc s) \<noteq> []" and "P (cost * length (planOf yields (wpc s)) + k) s"
  shows "\<exists>r t. parseConfig pf s = Some (r, t) \<and> P k t
           \<and> gains (gained A (planOf yields (wpc s))) (s\<lparr>wpc := defaultSources (wpc s)\<rparr>) t
           \<and> (if finishes A (planOf yields (wpc s)) then r = Ok () else \<exists>e. r = Err e)"
proof -
  let ?m = "wpc s"
  let ?sources = "if Sources ?m = [] then [''localhost''] else Sources ?m"
  let ?s = "s\<lparr>wpc := ?m\<lparr>Sources := ?sources\<rparr>\<rparr>"
  let ?body = "\<lambda>obj. bindP (cfg Sources) (\<lambda>sources.
      forP (if object_Sources obj = [] then sources else object_Sources obj) (\<lambda>computer.
        addCounters pf obj (if computer = '''' then ''localhost'' else computer)))"
  have "follows (\<lambda>s. Sources (wpc s) = ?sources) 
      (concat (map (\<lambda>obj. concat (map (counterPlan yields obj) (computersOf ?sources obj))) (Object ?m))) (forP (Object ?m) ?body)"
    by (intro follows_forP object_follows) (simp_all add: gains_fields)
  moreover have "concat (map (\<lambda>obj. concat (map (counterPlan yields obj) (computersOf ?sources obj))) (Object ?m)) = planOf yields ?m"
    by (simp add: planOf_def computersOf_def)
  ultimately have "follows (\<lambda>s. Sources (wpc s) = ?sources) (planOf yields ?m) (forP (Object ?m) ?body)" by simp
  moreover have "P (cost * length (planOf yields ?m) + k) ?s" using assms(2) by (rule keeps_sources)
  ultimately obtain r t where "forP (Object ?m) ?body ?s = Some (r, t)" "P k t"
    "gains (gained A (planOf yields ?m)) ?s t" "if finishes A (planOf yields ?m) then r = Ok () else \<exists>e. r = Err e"
    by (rule followsE) simp
  moreover have "parseConfig pf s = forP (Object ?m) ?body ?s"
    using assms(1) by (simp add: parseConfig_def prog_simps setCfg_def cfg_def)
  ultimately show ?thesis unfolding defaultSources_def by auto
qed

end

section \<open>The contract of setting up\<close>

text \<open>The steps of adding a counter when wildcards are not expanded, each counter at the cost of two handles.\<close>

locale config_setup = host_setup pf P for pf :: "'w platform" and P +
  fixes A :: "string \<Rightarrow> bool"
  assumes no_expansion: "P k s \<Longrightarrow> \<not> UseWildcardsExpansion (wpc s)"
    and add_accepted: "P (Suc k) s \<Longrightarrow> host key s = Some h \<Longrightarrow> A path \<Longrightarrow>
      \<exists>handle w. addToQuery pf key path s = Some (Ok handle, s\<lparr>world := w\<rparr>)
        \<and> (\<forall>c. counterPath c = path \<longrightarrow> counterHandle c = handle \<longrightarrow>
             P k ((setHost key (h\<lparr>host_counters := host_counters h @ [c]\<rparr>) s)\<lparr>world := w\<rparr>))"
    and add_refused: "P (Suc k) s \<Longrightarrow> host key s = Some h \<Longrightarrow> \<not> A path \<Longrightarrow>
      \<exists>e w. addToQuery pf key path s = Some (Err e, s\<lparr>world := w\<rparr>) \<and> P k (s\<lparr>world := w\<rparr>)"
begin

text \<open>One counter: it is created if its path is accepted, and else the error is returned.\<close>

lemma addItem_outcome:
  assumes "P (Suc (Suc k)) s"
  shows "\<exists>r t. addItem pf path computer ob inst ct me it ur s = Some (r, t) \<and> P k t
           \<and> (if A path then r = Ok () \<and> gains [(computer, newCounter 0 path computer ob inst ct me it ur)] s t
              else (\<exists>e. r = Err e) \<and> gains [] s t)"
proof -
  obtain tag s1 s2 h where 1: "(if computer = ''localhost'' then hostname pf else retP computer) s = Some (Ok tag, s1)"
    and 2: "ensureHost pf computer tag s1 = Some (Ok (), s2)" "P (Suc k) s2" and h: "host computer s2 = Some h"
    and gone: "\<And>w. gains [] s (s2\<lparr>world := w\<rparr>)"
    by (rule host_reached [where computer = computer, OF assms]) (rule that)
  show ?thesis
  proof (cases "A path")
    case False
    then obtain e w where "addToQuery pf computer path s2 = Some (Err e, s2\<lparr>world := w\<rparr>)" "P k (s2\<lparr>world := w\<rparr>)"
      using add_refused [OF 2(2) h] by blast
    then show ?thesis
      using 1 2(1) False gone by (simp add: addItem_def seqP_def bindP_def)
  next
    case True
    then obtain handle w where 3: "addToQuery pf computer path s2 = Some (Ok handle, s2\<lparr>world := w\<rparr>)"
      "\<And>c. counterPath c = path \<Longrightarrow> counterHandle c = handle \<Longrightarrow>
         P k ((setHost computer (h\<lparr>host_counters := host_counters h @ [c]\<rparr>) s2)\<lparr>world := w\<rparr>)"
      using add_accepted [OF 2(2) h] by blast
    let ?c = "newCounter handle path computer ob inst ct me it ur"
    have "P k (setHost computer (h\<lparr>host_counters := host_counters h @ [?c]\<rparr>) (s2\<lparr>world := w\<rparr>))"
      unfolding setHost_world by (rule 3(2)) simp_all
    then obtain t where t: "seqP (appendCounter computer ?c) (logValid path) (s2\<lparr>world := w\<rparr>) = Some (Ok (), t)" "P k t"
      "gains [(computer, withoutHandle ?c)] (s2\<lparr>world := w\<rparr>) t"
      using appendCounter_kept [of computer "s2\<lparr>world := w\<rparr>" h k ?c path] h by auto
    then show ?thesis
      using 1 2(1) 3(1) True no_expansion [OF 2(2)] gains_trans [OF gone t(3)]
      by (simp add: addItem_def seqP_def bindP_apply cfg_def getP_def)
  qed
qed

end

sublocale config_setup \<subseteq> carried: plan_setup pf P A 2 itself
proof
  fix k s computer obj inst ctr
  assume "P (2 + k) s"
  then show "\<exists>r t. addItem pf (formatPath computer (ObjectName obj) inst ctr) computer (ObjectName obj) inst ctr (Measurement obj)
         (IncludeTotal obj) (UseRawValues obj) s = Some (r, t) \<and> P k t
      \<and> (if A (formatPath computer (ObjectName obj) inst ctr) then r = Ok () \<and> gains (itself obj computer ctr inst) s t
         else (\<exists>e. r = Err e) \<and> gains [] s t)"
    using addItem_outcome [of k s "formatPath computer (ObjectName obj) inst ctr" computer "ObjectName obj" inst ctr "Measurement obj"
        "IncludeTotal obj" "UseRawValues obj"]
    unfolding itself_def instanceItem_def by simp
qed

context config_setup
begin

lemma parseConfig_outcome:
  assumes "Object (wpc s) \<noteq> []" and "P (2 * length (configPlan (wpc s)) + k) s"
  shows "\<exists>r t. parseConfig pf s = Some (r, t) \<and> P k t
           \<and> gains (created A (configPlan (wpc s))) (s\<lparr>wpc := defaultSources (wpc s)\<rparr>) t
           \<and> (if complete A (configPlan (wpc s)) then r = Ok () else \<exists>e. r = Err e)"
  using carried.parseConfig_planned [OF assms(1), of k] assms(2)
  by (simp add: planOf_itself gained_itself finishes_itself)

end

section \<open>A Windows that accepts or refuses counters by their paths\<close>

definition answersBy ::
    "(u16 list option \<Rightarrow> bool) \<Rightarrow> (u64 \<Rightarrow> u16 list option \<Rightarrow> u64 \<Rightarrow> 'w \<Rightarrow> u64 \<times> u64 \<times> 'w) \<Rightarrow> bool" where
  "answersBy A add \<longleftrightarrow>
     (\<forall>q p d w ret h w'. add q p d w = (ret, h, w') \<longrightarrow> ((ucast ret :: u32) = errorSuccess \<longleftrightarrow> A p))"

definition selective :: "'w platform \<Rightarrow> (u16 list option \<Rightarrow> bool) \<Rightarrow> bool" where
  "selective pf A \<longleftrightarrow>
     (\<forall>s d w. \<exists>ret h w'. PdhOpenQuery pf s d w = (ret, h, w') \<and> (ucast ret :: u32) = errorSuccess \<and> h \<noteq> 0)
   \<and> (case PdhAddEnglishCounterW pf of None \<Rightarrow> answersBy A (PdhAddCounterW pf) | Some add \<Rightarrow> answersBy A add)"

definition cooperative :: "'w platform \<Rightarrow> bool" where
  "cooperative pf \<longleftrightarrow> selective pf (\<lambda>_. True)"

lemma selective_Open:
  assumes "selective pf A" and "queryHandle q = 0"
  shows "\<exists>q' w'. Open pf (q, w) = Some (Ok (), (q', w')) \<and> isOpen q'"
proof -
  obtain ret h w' where "PdhOpenQuery pf 0 0 w = (ret, h, w')" "(ucast ret :: u32) = errorSuccess" "h \<noteq> 0"
    using assms(1) unfolding selective_def by blast
  then show ?thesis
    using assms(2) by (simp add: Open_def openHandle_def pdhOpenQuery_def isOpen_def)
qed

text \<open>The function of Windows that \<open>addToQuery\<close> ends in, and its outcome from the function's answer.\<close>

definition addProc :: "'w platform \<Rightarrow> u64 \<Rightarrow> u16 list option \<Rightarrow> u64 \<Rightarrow> 'w \<Rightarrow> u64 \<times> u64 \<times> 'w" where
  "addProc pf = (case PdhAddEnglishCounterW pf of None \<Rightarrow> PdhAddCounterW pf | Some add \<Rightarrow> add)"

lemma addToQuery_addProc:
  assumes "host key s = Some h" and "isOpen (host_query h)"
    and "addProc pf (queryHandle (host_query h)) (utf16PtrFromString path) 0 (world s) = (ret, c, w)"
  shows "addToQuery pf key path s =
     (if (ucast ret :: u32) = errorSuccess then Some (Ok c, s\<lparr>world := w\<rparr>)
      else Some (Err (fst (newPdhError pf (ucast ret) w)), s\<lparr>world := snd (newPdhError pf (ucast ret) w)\<rparr>))"
  using assms
  by (auto simp: addProc_def addToQuery_def IsVistaOrNewer_def pdhAddEnglishCounterSupported_def readQuery_def
      onHost_def machine_def AddCounterToQuery_def AddEnglishCounterToQuery_def isOpen_def pdhAddCounter_def
      pdhAddEnglishCounter_def failPdh_outcome split: option.splits)

lemma selective_add:
  assumes "selective pf A" and "host key s = Some h" and "isOpen (host_query h)"
  shows "A (utf16PtrFromString path) \<Longrightarrow> \<exists>handle w. addToQuery pf key path s = Some (Ok handle, s\<lparr>world := w\<rparr>)"
    and "\<not> A (utf16PtrFromString path) \<Longrightarrow> \<exists>e w. addToQuery pf key path s = Some (Err e, s\<lparr>world := w\<rparr>)"
proof -
  have ans: "answersBy A (addProc pf)" using assms(1) by (simp add: selective_def addProc_def split: option.splits)
  obtain ret c w where call: "addProc pf (queryHandle (host_query h)) (utf16PtrFromString path) 0 (world s) = (ret, c, w)"
    by (metis prod_cases3)
  then have "(ucast ret :: u32) = errorSuccess \<longleftrightarrow> A (utf16PtrFromString path)"
    using ans unfolding answersBy_def by blast
  then show "A (utf16PtrFromString path) \<Longrightarrow> \<exists>handle w. addToQuery pf key path s = Some (Ok handle, s\<lparr>world := w\<rparr>)"
    "\<not> A (utf16PtrFromString path) \<Longrightarrow> \<exists>e w. addToQuery pf key path s = Some (Err e, s\<lparr>world := w\<rparr>)"
    using addToQuery_addProc [OF assms(2,3) call] by auto
qed

text \<open>Wildcards are not expanded, and every host is known once, with an open query.\<close>

definition plain :: "'w runtime \<Rightarrow> bool" where
  "plain s \<longleftrightarrow> \<not> UseWildcardsExpansion (wpc s) \<and> distinct (map fst (hostCounters (wpc s)))
     \<and> (\<forall>key h. host key s = Some h \<longrightarrow> isOpen (host_query h))"

lemma plain_setHost: "plain s \<Longrightarrow> isOpen (host_query h) \<Longrightarrow> plain (setHost key h s)"
  by (auto simp: plain_def host_setHost) (simp_all add: setHost_def del: keys_upsert)

lemma plain_world [simp]: "plain (s\<lparr>world := w\<rparr>) = plain s"
  by (simp add: plain_def)

lemma plain_same:
  "plain s \<Longrightarrow> hostCounters (wpc t) = hostCounters (wpc s)
   \<Longrightarrow> UseWildcardsExpansion (wpc t) = UseWildcardsExpansion (wpc s) \<Longrightarrow> plain t"
  by (simp add: plain_def host_def)

interpretation selective: config_setup pf "\<lambda>k s. selective pf A \<and> plain s" "\<lambda>path. A (utf16PtrFromString path)"
  for pf :: "'w platform" and A
proof (unfold_locales, goal_cases)
  case (5 k s key tag)
  then obtain q w where "Open pf (newPerformanceQuery key (word_of_int (MaxBufferSize (wpc s))), world s) = Some (Ok (), (q, w))"
    "isOpen q"
    using selective_Open [of pf A "newPerformanceQuery key (word_of_int (MaxBufferSize (wpc s)))" "world s"]
    by (auto simp: newPerformanceQuery_def)
  then show ?case using 5 by (auto intro!: plain_setHost)
next
  case (7 k s key h path)
  then have "isOpen (host_query h)" by (simp add: plain_def)
  then show ?case using 7 selective_add(1) [of pf A key s h path] by (fastforce intro!: plain_setHost)
next
  case (8 k s key h path)
  then have "isOpen (host_query h)" by (simp add: plain_def)
  then show ?case using 8 selective_add(2) [of pf A key s h path] by fastforce
qed (auto simp: plain_def host_def)

lemma parseConfig_selective:
  assumes "selective pf A" and "\<not> UseWildcardsExpansion (wpc s)" and "hostCounters (wpc s) = []"
    and "Object (wpc s) \<noteq> []"
  defines "created_items \<equiv> created (\<lambda>path. A (utf16PtrFromString path)) (configPlan (wpc s))"
  shows "\<exists>r t. parseConfig pf s = Some (r, t) \<and> plain t \<and> emitted t = emitted s \<and> hasCollect (wpc t) = hasCollect (wpc s)
           \<and> (\<forall>key. countersOf t key = map snd (filter (\<lambda>i. fst i = key) created_items))
           \<and> (if complete (\<lambda>path. A (utf16PtrFromString path)) (configPlan (wpc s)) then r = Ok () else \<exists>e. r = Err e)"
proof -
  have "plain s" using assms(2,3) by (simp add: plain_def host_def)
  then obtain r t where t: "parseConfig pf s = Some (r, t)" "plain t"
    "if complete (\<lambda>path. A (utf16PtrFromString path)) (configPlan (wpc s)) then r = Ok () else \<exists>e. r = Err e"
    and gain: "gains created_items (s\<lparr>wpc := defaultSources (wpc s)\<rparr>) t"
    using selective.parseConfig_outcome [OF assms(4), where pf = pf and A = A] assms(1)
    unfolding created_items_def by auto
  have "countersOf t key = map snd (filter (\<lambda>i. fst i = key) created_items)" for key
    using gain assms(3) by (simp add: gains_def countersOf_def host_def defaultSources_def)
  moreover have "emitted t = emitted s" using gain by (simp add: gains_def)
  ultimately show ?thesis using t gains_fields(3) [OF gain] by (simp add: defaultSources_def)
qed

lemma parseConfig_gains:
  assumes "cooperative pf" and "\<not> UseWildcardsExpansion (wpc s)" and "hostCounters (wpc s) = []"
    and "Object (wpc s) \<noteq> []"
  shows "\<exists>t. parseConfig pf s = Some (Ok (), t) \<and> emitted t = emitted s \<and> hasCollect (wpc t) = hasCollect (wpc s)
           \<and> distinct (map fst (hostCounters (wpc t)))
           \<and> (\<forall>key. countersOf t key = map snd (filter (\<lambda>i. fst i = key) (configItems (wpc s))))"
  using parseConfig_selective [OF assms(1) [unfolded cooperative_def] assms(2-4)]
  by (auto simp: created_all configPlan_items plain_def)

section \<open>Properties\<close>

text \<open>
  C8. \<open>parseConfig\<close> creates exactly the configured counters that Windows accepts: when
  wildcards are not expanded, no host is known yet and Windows opens every query and accepts a
  counter by its path, the counters of every host are, in order, those of the specification:
  for each object, each of its computers (its own list, or the collector's, or the local host;
  an empty name means the local host), each counter and each instance, the counter of that
  path with the object's measurement and options, if Windows accepts it. It succeeds if no
  refused counter belongs to an object marked \<open>FailOnMissing\<close>, and otherwise returns an error
  at the first such counter, with the counters before it created.
\<close>

theorem parseConfig_refines:
  assumes "selective pf A" and "\<not> UseWildcardsExpansion (wpc s)" and "hostCounters (wpc s) = []"
    and "Object (wpc s) \<noteq> []"
  shows "\<exists>r t. parseConfig pf s = Some (r, t)
           \<and> (\<forall>key. countersOf t key = map snd (filter (\<lambda>i. fst i = key)
                (created (\<lambda>path. A (utf16PtrFromString path)) (configPlan (wpc s)))))
           \<and> (if complete (\<lambda>path. A (utf16PtrFromString path)) (configPlan (wpc s)) then r = Ok () else \<exists>e. r = Err e)"
  using parseConfig_selective [OF assms] by blast

text \<open>A configuration with two computers and two instances, and a Windows that refuses the second instance.\<close>

definition diskSetup :: "unit runtime" where
  "diskSetup = \<lparr>wpc = (NewWinPerfCounters True)\<lparr>Object := [\<lparr>object_Sources = [''a'', ''b''],
       ObjectName = ''Disk'', Counters = [''x''], Instances = [''0'', ''1''], Measurement = ''m'',
       WarnOnMissing = False, FailOnMissing = True, IncludeTotal = False, UseRawValues = False\<rparr>]\<rparr>,
     world = (), loglines = [], emitted = []\<rparr>"

definition hasOne :: "u16 list option \<Rightarrow> bool" where
  "hasOne p = (case p of None \<Rightarrow> False | Some us \<Rightarrow> 49 \<in> set us)"

definition refusingPlatform :: "unit platform" where
  "refusingPlatform = (samplePlatform AMD64 [] 0 0)\<lparr>PdhAddEnglishCounterW :=
     Some (\<lambda>q p d w. if hasOne p then (0xC0000BB8, 0, w) else (0, 1, w))\<rparr>"

lemma cooperative_sample [simp]: "cooperative (samplePlatform a bytes need n)"
  by (simp add: cooperative_def selective_def answersBy_def samplePlatform_def)

lemma selective_refusing: "selective refusingPlatform (\<lambda>p. \<not> hasOne p)"
  by (simp add: selective_def answersBy_def refusingPlatform_def samplePlatform_def)

lemma diskSetup_paths:
  "\<not> hasOne (utf16PtrFromString (formatPath ''a'' ''Disk'' ''0'' ''x''))"
  "hasOne (utf16PtrFromString (formatPath ''a'' ''Disk'' ''1'' ''x''))"
  by (simp_all add: formatPath_def hasOne_def emptyInstance_def utf16PtrFromString_ascii)

lemma diskSetup_created:
  "created (\<lambda>path. \<not> hasOne (utf16PtrFromString path)) (configPlan (wpc diskSetup))
     = [instanceItem (hd (Object (wpc diskSetup))) ''a'' ''x'' ''0'']"
  "\<not> complete (\<lambda>path. \<not> hasOne (utf16PtrFromString path)) (configPlan (wpc diskSetup))"
  using diskSetup_paths
  by (simp_all add: diskSetup_def configPlan_def objectPlan_def computersOf_def counterItems_def created_def complete_def
      tolerated_def accepted_def instanceItem_def)

theorem parseConfig_refines_witness:
  "\<exists>e t. parseConfig refusingPlatform diskSetup = Some (Err e, t)
     \<and> map counter_instance (countersOf t ''a'') = [''0''] \<and> countersOf t ''b'' = []"
proof -
  have "\<exists>r t. parseConfig refusingPlatform diskSetup = Some (r, t)
      \<and> (\<forall>key. countersOf t key = map snd (filter (\<lambda>i. fst i = key)
           (created (\<lambda>path. \<not> hasOne (utf16PtrFromString path)) (configPlan (wpc diskSetup)))))
      \<and> (if complete (\<lambda>path. \<not> hasOne (utf16PtrFromString path)) (configPlan (wpc diskSetup))
          then r = Ok () else \<exists>e. r = Err e)"
    by (rule parseConfig_refines [OF selective_refusing]) (simp_all add: diskSetup_def NewWinPerfCounters_def)
  then show ?thesis
    by (auto simp: diskSetup_created instanceItem_def newCounter_def Let_def)
qed

end
