(* ===== verification/Documented.thy ===== *)
theory Documented
  imports Parsing
begin

text \<open>
  A Windows that keeps to its documentation: which queries are open, which counter a handle
  stands for and how often a query has been sampled are a view of the machine's state, and
  the functions of the Performance Data Helper change it as documented. The methods of the
  query are described over the view, and the set-up of the collector (\<open>cleanQueries\<close>,
  \<open>parseConfig\<close> of \<open>win_perf_counters.go\<close>) keeps the collector's handles linked to it.
\<close>

section \<open>The view\<close>

text \<open>
  \<open>sampleCount\<close> counts the samples of a query since the last counter was added to it. As of the
  last sample, \<open>arrayItems\<close> is the raw or displayable data of a counter that may stand for several
  instances, \<open>valueItem\<close> the status and the value of one that stands for one, and \<open>expansions\<close> the
  paths to which the path of a counter expands.
\<close>

record pdhView =
  openQueries :: "u64 set"
  counterTable :: "u64 \<Rightarrow> (u64 \<times> u16 list option) option"
  sampleCount :: "u64 \<Rightarrow> nat"
  arrayItems :: "bool \<Rightarrow> u64 \<Rightarrow> item list"
  valueItem :: "bool \<Rightarrow> u64 \<Rightarrow> u32 \<times> u64"
  expansions :: "u16 list option \<Rightarrow> u16 list list"

definition opened :: "u64 \<Rightarrow> pdhView \<Rightarrow> pdhView" where
  "opened q V = V\<lparr>openQueries := insert q (openQueries V), sampleCount := (sampleCount V)(q := 0)\<rparr>"

definition closed :: "u64 \<Rightarrow> pdhView \<Rightarrow> pdhView" where
  "closed q V = V\<lparr>openQueries := openQueries V - {q},
     counterTable := (\<lambda>c. case counterTable V c of None \<Rightarrow> None | Some (q', p) \<Rightarrow> if q' = q then None else Some (q', p))\<rparr>"

definition added :: "u64 \<Rightarrow> u64 \<Rightarrow> u16 list option \<Rightarrow> pdhView \<Rightarrow> pdhView" where
  "added q c p V = V\<lparr>counterTable := (counterTable V)(c \<mapsto> (q, p)), sampleCount := (sampleCount V)(q := 0)\<rparr>"

text \<open>A sample changes the data to that of the view \<open>D\<close>.\<close>

definition sampled :: "u64 \<Rightarrow> pdhView \<Rightarrow> pdhView \<Rightarrow> pdhView" where
  "sampled q D V = V\<lparr>sampleCount := (sampleCount V)(q := Suc (sampleCount V q)), arrayItems := arrayItems D,
     valueItem := valueItem D, expansions := expansions D\<rparr>"

lemmas view_defs = opened_def closed_def added_def sampled_def

text \<open>The handles in use, and those of queries outside a given set.\<close>

definition used :: "pdhView \<Rightarrow> nat" where
  "used V = card (openQueries V) + card (dom (counterTable V))"

definition outside :: "u64 set \<Rightarrow> pdhView \<Rightarrow> nat" where
  "outside Q V = card (openQueries V - Q) + card {c. \<exists>q p. counterTable V c = Some (q, p) \<and> q \<notin> Q}"

lemma outside_none: "outside {} V = used V"
  by (auto simp: outside_def used_def dom_def intro!: arg_cong [where f = card])

lemma outside_more: "Q \<subseteq> Q' \<Longrightarrow> outside Q' V \<le> outside Q V"
  unfolding outside_def by (intro add_mono card_mono) auto

section \<open>Calls that leave a view alone\<close>

definition quiet :: "'w platform \<Rightarrow> ('w \<Rightarrow> 'v) \<Rightarrow> bool" where
  "quiet pf view \<longleftrightarrow> (\<forall>w.
       (\<forall>n. view (snd (newObject pf n w)) = view w)
     \<and> view (snd (timeNow pf w)) = view w
     \<and> (\<forall>d. view (timeSleep pf d w) = view w)
     \<and> view (snd (osHostname pf w)) = view w
     \<and> (\<forall>n. view (snd (rangePerm pf n w)) = view w)
     \<and> (\<forall>fl h i l b n. view (snd (FormatMessage pf fl h i l b n w)) = view w)
     \<and> (\<forall>ft. view (snd (snd (LocalFileTimeToFileTime pf ft w))) = view w)
     \<and> (\<forall>c f p. view (snd (PdhGetFormattedCounterValue pf c f p w)) = view w)
     \<and> (\<forall>c f sz n b. view (snd (snd (snd (PdhGetFormattedCounterArrayW pf c f sz n b w)))) = view w)
     \<and> (\<forall>s p b sz f. view (snd (snd (PdhExpandWildCardPathW pf s p b sz f w))) = view w)
     \<and> (\<forall>c e sz b. view (snd (snd (PdhGetCounterInfoW pf c e sz b w))) = view w)
     \<and> (\<forall>c p. view (snd (PdhGetRawCounterValue pf c p w)) = view w)
     \<and> (\<forall>c sz n b. view (snd (snd (snd (PdhGetRawCounterArrayW pf c sz n b w)))) = view w))"

lemma quiet_simps:
  assumes "quiet pf view"
  shows "view (snd (newObject pf n w)) = view w" "view (snd (timeNow pf w)) = view w"
    "view (timeSleep pf d w) = view w" "view (snd (osHostname pf w)) = view w"
    "view (snd (rangePerm pf n w)) = view w" "view (snd (FormatMessage pf fl h i l b m w)) = view w"
    "view (snd (snd (LocalFileTimeToFileTime pf ft w))) = view w"
    "view (snd (PdhGetFormattedCounterValue pf c f p w)) = view w"
    "view (snd (snd (snd (PdhGetFormattedCounterArrayW pf c f sz m' b w)))) = view w"
    "view (snd (snd (PdhExpandWildCardPathW pf s p' b sz f' w))) = view w"
    "view (snd (snd (PdhGetCounterInfoW pf c e sz b w))) = view w"
    "view (snd (PdhGetRawCounterValue pf c p w)) = view w"
    "view (snd (snd (snd (PdhGetRawCounterArrayW pf c sz m' b w)))) = view w"
  using assms unfolding quiet_def by metis+

lemma quiet_newPdhError [simp]: "quiet pf view \<Longrightarrow> view (snd (newPdhError pf code w)) = view w"
  by (auto simp: newPdhError_def pdhFormatError_def Let_def case_prod_unfold quiet_simps split: option.splits)

section \<open>Windows as documented\<close>

text \<open>
  While fewer than \<open>cap\<close> handles are in use, queries are opened and counters of which \<open>A\<close>
  holds are accepted, each under a handle that is not in use; open queries can be closed and
  sampled; all else leaves the view alone.
\<close>

definition opensQueries :: "'w platform \<Rightarrow> ('w \<Rightarrow> pdhView) \<Rightarrow> nat \<Rightarrow> bool" where
  "opensQueries pf view cap \<longleftrightarrow> (\<forall>d u w ret q w'. used (view w) < cap \<longrightarrow> PdhOpenQuery pf d u w = (ret, q, w') \<longrightarrow>
     (ucast ret :: u32) = errorSuccess \<and> q \<noteq> 0 \<and> q \<notin> openQueries (view w) \<and> view w' = opened q (view w))"

definition closesQueries :: "'w platform \<Rightarrow> ('w \<Rightarrow> pdhView) \<Rightarrow> bool" where
  "closesQueries pf view \<longleftrightarrow> (\<forall>q w ret w'. q \<in> openQueries (view w) \<longrightarrow> PdhCloseQuery pf q w = (ret, w') \<longrightarrow>
     (ucast ret :: u32) = errorSuccess \<and> view w' = closed q (view w))"

definition addsBy ::
    "('w \<Rightarrow> pdhView) \<Rightarrow> nat \<Rightarrow> (u16 list option \<Rightarrow> bool) \<Rightarrow> (u64 \<Rightarrow> u16 list option \<Rightarrow> u64 \<Rightarrow> 'w \<Rightarrow> u64 \<times> u64 \<times> 'w) \<Rightarrow> bool" where
  "addsBy view cap A add \<longleftrightarrow> (\<forall>q p u w ret c w'.
     q \<in> openQueries (view w) \<longrightarrow> used (view w) < cap \<longrightarrow> add q p u w = (ret, c, w') \<longrightarrow>
     (if A p then (ucast ret :: u32) = errorSuccess \<and> counterTable (view w) c = None \<and> view w' = added q c p (view w)
      else (ucast ret :: u32) \<noteq> errorSuccess \<and> view w' = view w))"

lemma addsBy_mono: "addsBy view cap A add \<Longrightarrow> cap' \<le> cap \<Longrightarrow> addsBy view cap' A add"
  unfolding addsBy_def by (meson less_le_trans)

lemma addsByD:
  assumes "addsBy view cap A add" and "q \<in> openQueries (view w)" and "used (view w) < cap" and "add q p u w = (ret, c, w')"
  shows "if A p then (ucast ret :: u32) = errorSuccess \<and> counterTable (view w) c = None \<and> view w' = added q c p (view w)
         else (ucast ret :: u32) \<noteq> errorSuccess \<and> view w' = view w"
  using assms unfolding addsBy_def by blast

definition addsCounters :: "'w platform \<Rightarrow> ('w \<Rightarrow> pdhView) \<Rightarrow> nat \<Rightarrow> (u16 list option \<Rightarrow> bool) \<Rightarrow> bool" where
  "addsCounters pf view cap A \<longleftrightarrow> addsBy view cap A (addProc pf)"

definition samplesQueries :: "'w platform \<Rightarrow> ('w \<Rightarrow> pdhView) \<Rightarrow> bool" where
  "samplesQueries pf view \<longleftrightarrow>
     (\<forall>q w ret w'. q \<in> openQueries (view w) \<longrightarrow> PdhCollectQueryData pf q w = (ret, w') \<longrightarrow>
        (ucast ret :: u32) = errorSuccess \<and> (\<exists>D. view w' = sampled q D (view w)))
   \<and> (\<forall>proc q w ret ft w'. PdhCollectQueryDataWithTime pf = Some proc \<longrightarrow> q \<in> openQueries (view w) \<longrightarrow>
        proc q w = (ret, ft, w') \<longrightarrow> ret = 0 \<and> (\<exists>D. view w' = sampled q D (view w)))
   \<and> (PdhAddEnglishCounterW pf \<noteq> None \<longrightarrow> PdhCollectQueryDataWithTime pf \<noteq> None)
   \<and> (\<forall>ft w. fst (LocalFileTimeToFileTime pf ft w) \<noteq> 0)"

definition documented :: "'w platform \<Rightarrow> ('w \<Rightarrow> pdhView) \<Rightarrow> nat \<Rightarrow> (u16 list option \<Rightarrow> bool) \<Rightarrow> bool" where
  "documented pf view cap A \<longleftrightarrow> quiet pf view \<and> opensQueries pf view cap \<and> closesQueries pf view
     \<and> addsCounters pf view cap A \<and> samplesQueries pf view"

lemma documented_quiet: "documented pf view cap A \<Longrightarrow> quiet pf view"
  by (simp add: documented_def)

lemma documented_Open:
  assumes "documented pf view cap A" and "used (view w) < cap" and "queryHandle m = 0"
  shows "\<exists>q w'. Open pf (m, w) = Some (Ok (), (m\<lparr>queryHandle := q\<rparr>, w')) \<and> q \<noteq> 0
           \<and> q \<notin> openQueries (view w) \<and> view w' = opened q (view w)"
proof -
  obtain ret q w' where call: "PdhOpenQuery pf 0 0 w = (ret, q, w')" by (metis prod_cases3)
  then have "(ucast ret :: u32) = errorSuccess \<and> q \<noteq> 0 \<and> q \<notin> openQueries (view w) \<and> view w' = opened q (view w)"
    using assms(1,2) unfolding documented_def opensQueries_def by blast
  with call assms(3) show ?thesis
    by (intro exI [of _ q] exI [of _ w']) (simp add: Open_def openHandle_def pdhOpenQuery_def)
qed

lemma documented_Close:
  assumes "documented pf view cap A" and "queryHandle m \<in> openQueries (view w)" and "queryHandle m \<noteq> 0"
  shows "\<exists>w'. Close pf (m, w) = Some (Ok (), (m\<lparr>queryHandle := 0\<rparr>, w')) \<and> view w' = closed (queryHandle m) (view w)"
proof -
  obtain ret w' where call: "PdhCloseQuery pf (queryHandle m) w = (ret, w')" by fastforce
  then have "(ucast ret :: u32) = errorSuccess \<and> view w' = closed (queryHandle m) (view w)"
    using assms(1,2) unfolding documented_def closesQueries_def by blast
  with call assms(3) show ?thesis
    by (intro exI [of _ w']) (simp add: Close_def pdhCloseQuery_def)
qed

lemma documented_CollectData:
  assumes "documented pf view cap A" and "queryHandle m \<in> openQueries (view w)" and "queryHandle m \<noteq> 0"
  shows "\<exists>w' D. CollectData pf m w = Some (Ok (), w') \<and> view w' = sampled (queryHandle m) D (view w)"
proof -
  obtain ret w' where call: "PdhCollectQueryData pf (queryHandle m) w = (ret, w')" by fastforce
  then have "(ucast ret :: u32) = errorSuccess \<and> (\<exists>D. view w' = sampled (queryHandle m) D (view w))"
    using assms(1,2) unfolding documented_def samplesQueries_def by blast
  with call assms(3) show ?thesis
    by (auto simp: CollectData_def pdhCollectQueryData_def)
qed

lemma documented_CollectDataWithTime:
  assumes "documented pf view cap A" and "queryHandle m \<in> openQueries (view w)" and "queryHandle m \<noteq> 0"
    and "IsVistaOrNewer pf"
  shows "\<exists>ft w1 w' D. CollectDataWithTime pf m w
             = Some (Ok (sint (fileTimeToNanos (fst (snd (LocalFileTimeToFileTime pf ft w1)))), None), w')
           \<and> view w' = sampled (queryHandle m) D (view w)"
proof -
  obtain proc where proc: "PdhCollectQueryDataWithTime pf = Some proc"
    using assms(1,4) by (auto simp: documented_def samplesQueries_def IsVistaOrNewer_def pdhAddEnglishCounterSupported_def)
  obtain ret ft w1 where call: "proc (queryHandle m) w = (ret, ft, w1)" by (metis prod_cases3)
  then obtain D where "ret = 0" "view w1 = sampled (queryHandle m) D (view w)"
    using assms(1,2) proc unfolding documented_def samplesQueries_def by blast
  moreover obtain ret2 utc w2 where convert: "LocalFileTimeToFileTime pf ft w1 = (ret2, utc, w2)" by (metis prod_cases3)
  moreover have "ret2 \<noteq> 0" using assms(1) convert unfolding documented_def samplesQueries_def by (metis fst_conv)
  moreover have "view w2 = view w1"
    using quiet_simps(7) [OF documented_quiet [OF assms(1)], of ft w1] convert by simp
  ultimately show ?thesis
    using proc call convert assms(3)
    by (intro exI [of _ ft] exI [of _ w1] exI [of _ w2] exI [of _ D])
       (simp add: CollectDataWithTime_def pdhCollectQueryDataWithTime_def)
qed

section \<open>The collector's handles\<close>

text \<open>The query handles that the given hosts hold.\<close>

definition heldBy :: "string set \<Rightarrow> 'w runtime \<Rightarrow> u64 set" where
  "heldBy K s = {q. \<exists>key \<in> K. \<exists>h. host key s = Some h \<and> queryHandle (host_query h) = q}"

text \<open>A host whose query is open and whose counters are those of its query, under its limit.\<close>

definition linkedHost :: "pdhView \<Rightarrow> u32 \<Rightarrow> hostCountersInfo \<Rightarrow> bool" where
  "linkedHost V limit h \<longleftrightarrow> queryHandle (host_query h) \<noteq> 0 \<and> queryHandle (host_query h) \<in> openQueries V
     \<and> maxBufferSize (host_query h) = limit
     \<and> (\<forall>c \<in> set (host_counters h). counterTable V (counterHandle c)
          = Some (queryHandle (host_query h), utf16PtrFromString (counterPath c)))"

text \<open>
  The collector and the view agree: every host is linked, no two hosts share a query, at most
  \<open>room\<close> handles belong to others and \<open>k\<close> more can be asked for.
\<close>

definition linked :: "('w \<Rightarrow> pdhView) \<Rightarrow> nat \<Rightarrow> nat \<Rightarrow> nat \<Rightarrow> 'w runtime \<Rightarrow> bool" where
  "linked view room cap k s \<longleftrightarrow> distinct (map fst (hostCounters (wpc s)))
     \<and> (\<forall>key h. host key s = Some h \<longrightarrow> linkedHost (view (world s)) (word_of_int (MaxBufferSize (wpc s))) h)
     \<and> (\<forall>key key' h h'. host key s = Some h \<longrightarrow> host key' s = Some h' \<longrightarrow>
          queryHandle (host_query h) = queryHandle (host_query h') \<longrightarrow> key = key')
     \<and> outside (heldBy UNIV s) (view (world s)) \<le> room \<and> used (view (world s)) + k \<le> cap"

lemma heldBy_same: "(\<And>key. host key t = host key s) \<Longrightarrow> heldBy K t = heldBy K s"
  by (simp add: heldBy_def)

lemma linked_same:
  assumes "linked view room cap k s" and "hostCounters (wpc t) = hostCounters (wpc s)"
    and "MaxBufferSize (wpc t) = MaxBufferSize (wpc s)" and "view (world t) = view (world s)"
  shows "linked view room cap k t"
proof -
  have "host key t = host key s" for key using assms(2) by (simp add: host_def)
  then show ?thesis using assms heldBy_same [of t s UNIV] by (simp add: linked_def)
qed

lemma linked_spare: "linked view room cap (Suc k) s \<Longrightarrow> linked view room cap k s"
  by (simp add: linked_def)

lemma linked_host:
  assumes "linked view room cap k s" and "host key s = Some h"
  shows "queryHandle (host_query h) \<noteq> 0" "queryHandle (host_query h) \<in> openQueries (view (world s))"
    "isOpen (host_query h)"
  using assms by (auto simp: linked_def linkedHost_def isOpen_def)

lemma heldBy_setHost_new:
  "host key s = None \<Longrightarrow> heldBy UNIV (setHost key h s) = insert (queryHandle (host_query h)) (heldBy UNIV s)"
  by (auto simp: heldBy_def host_setHost split: if_splits) (metis option.distinct(1))

lemma heldBy_setHost_same:
  assumes "host key s = Some h" and "host_query h' = host_query h"
  shows "heldBy K (setHost key h' s) = heldBy K s"
proof -
  have "(\<exists>g. host j (setHost key h' s) = Some g \<and> queryHandle (host_query g) = q)
      = (\<exists>g. host j s = Some g \<and> queryHandle (host_query g) = q)" for j q
    using assms by (cases "j = key") (simp_all add: host_setHost)
  then show ?thesis by (simp add: heldBy_def)
qed

lemma heldBy_world [simp]: "heldBy K (s\<lparr>world := w\<rparr>) = heldBy K s"
  by (simp add: heldBy_def)

lemma used_opened: "used (opened q V) \<le> Suc (used V)"
  unfolding used_def opened_def by (simp add: card_insert_if)

lemma used_added: "used (added q c p V) \<le> Suc (used V)"
  unfolding used_def added_def by (simp add: card_insert_if)

lemma outside_opened: "outside (insert q Q) (opened q V) \<le> outside Q V"
  unfolding outside_def opened_def by (intro add_mono card_mono) auto

lemma outside_added:
  assumes "q \<in> Q" and "counterTable V c = None"
  shows "outside Q (added q c p V) = outside Q V"
proof -
  have "{d. \<exists>r p'. counterTable (added q c p V) d = Some (r, p') \<and> r \<notin> Q}
      = {d. \<exists>r p'. counterTable V d = Some (r, p') \<and> r \<notin> Q}"
    using assms by (auto simp: added_def split: if_splits)
  then show ?thesis by (simp add: outside_def added_def)
qed

lemma linkedHost_opened: "linkedHost V limit h \<Longrightarrow> linkedHost (opened q V) limit h"
  by (simp add: linkedHost_def opened_def)

lemma linkedHost_added:
  "linkedHost V limit h \<Longrightarrow> counterTable V c = None \<Longrightarrow> linkedHost (added q c p V) limit h"
  unfolding linkedHost_def added_def by fastforce

lemma linked_newHost:
  assumes linked: "linked view room cap (Suc k) s" and "host key s = None"
    and q: "q \<notin> openQueries (view (world s))" "view w = opened q (view (world s))" "q \<noteq> 0"
    and h: "queryHandle (host_query h) = q" "maxBufferSize (host_query h) = word_of_int (MaxBufferSize (wpc s))"
      "host_counters h = []"
  shows "linked view room cap k ((setHost key h s)\<lparr>world := w\<rparr>)"
  unfolding linked_def
proof (intro conjI allI impI)
  fix key1 key2 h1 h2
  assume same: "queryHandle (host_query h1) = queryHandle (host_query h2)"
    and "host key1 ((setHost key h s)\<lparr>world := w\<rparr>) = Some h1" "host key2 ((setHost key h s)\<lparr>world := w\<rparr>) = Some h2"
  moreover have "queryHandle (host_query g) \<noteq> q" if "host j s = Some g" for j g
    using linked_host(2) [OF linked that] q(1) by auto
  ultimately show "key1 = key2"
    using linked h(1) unfolding linked_def by (fastforce simp: host_setHost split: if_splits)
next
  fix j g
  assume "host j ((setHost key h s)\<lparr>world := w\<rparr>) = Some g"
  then show "linkedHost (view (world ((setHost key h s)\<lparr>world := w\<rparr>)))
      (word_of_int (MaxBufferSize (wpc ((setHost key h s)\<lparr>world := w\<rparr>)))) g"
    using linked q h linkedHost_opened
    by (auto simp: linked_def host_setHost linkedHost_def opened_def split: if_splits)
next
  show "outside (heldBy UNIV ((setHost key h s)\<lparr>world := w\<rparr>)) (view (world ((setHost key h s)\<lparr>world := w\<rparr>))) \<le> room"
    using linked q(2) h(1) outside_opened [of q "heldBy UNIV s" "view (world s)"]
    by (simp add: linked_def heldBy_setHost_new [OF assms(2)])
  show "used (view (world ((setHost key h s)\<lparr>world := w\<rparr>))) + k \<le> cap"
    using linked q(2) used_opened [of q "view (world s)"] by (simp add: linked_def)
qed (use linked in \<open>simp_all add: linked_def\<close>, simp add: linked_def setHost_def del: keys_upsert)

text \<open>A counter that is added to a host's query without being kept, and one that is kept.\<close>

lemma linked_added:
  assumes linked: "linked view room cap (Suc k) s" and "host key s = Some h"
    and c: "counterTable (view (world s)) c = None" "view w = added (queryHandle (host_query h)) c p (view (world s))"
  shows "linked view room cap k (s\<lparr>world := w\<rparr>)"
proof -
  have "queryHandle (host_query h) \<in> heldBy UNIV s" using assms(2) by (auto simp: heldBy_def)
  then show ?thesis
    using linked c outside_added [of "queryHandle (host_query h)" "heldBy UNIV s"] used_added [of "queryHandle (host_query h)" c p "view (world s)"]
    by (auto simp: linked_def intro!: linkedHost_added)
qed

lemma linked_append:
  assumes linked: "linked view room cap (Suc k) s" and "host key s = Some h"
    and c: "counterTable (view (world s)) (counterHandle c) = None"
      "view w = added (queryHandle (host_query h)) (counterHandle c) (utf16PtrFromString (counterPath c)) (view (world s))"
  shows "linked view room cap k ((setHost key (h\<lparr>host_counters := host_counters h @ [c]\<rparr>) s)\<lparr>world := w\<rparr>)"
  unfolding linked_def
proof (intro conjI allI impI)
  let ?t = "(setHost key (h\<lparr>host_counters := host_counters h @ [c]\<rparr>) s)\<lparr>world := w\<rparr>"
  fix key1 key2 h1 h2
  assume "queryHandle (host_query h1) = queryHandle (host_query h2)" "host key1 ?t = Some h1" "host key2 ?t = Some h2"
  then show "key1 = key2"
    using linked assms(2) unfolding linked_def by (fastforce simp: host_setHost split: if_splits)
next
  let ?t = "(setHost key (h\<lparr>host_counters := host_counters h @ [c]\<rparr>) s)\<lparr>world := w\<rparr>"
  have all: "linkedHost (view w) (word_of_int (MaxBufferSize (wpc s))) g" if "host j s = Some g" for j g
    using linked that c by (auto simp: linked_def intro!: linkedHost_added)
  fix j g
  assume "host j ?t = Some g"
  then show "linkedHost (view (world ?t)) (word_of_int (MaxBufferSize (wpc ?t))) g"
    using all [of j g] all [OF assms(2)] c(2)
    by (auto simp: host_setHost linkedHost_def added_def split: if_splits)
next
  let ?t = "(setHost key (h\<lparr>host_counters := host_counters h @ [c]\<rparr>) s)\<lparr>world := w\<rparr>"
  have "queryHandle (host_query h) \<in> heldBy UNIV s" using assms(2) by (auto simp: heldBy_def)
  then show "outside (heldBy UNIV ?t) (view (world ?t)) \<le> room"
    using linked c outside_added by (simp add: linked_def heldBy_setHost_same [OF assms(2)])
  show "used (view (world ?t)) + k \<le> cap"
    using linked c(2) used_added [of "queryHandle (host_query h)" "counterHandle c" "utf16PtrFromString (counterPath c)" "view (world s)"]
    by (simp add: linked_def)
qed (use linked in \<open>simp_all add: linked_def\<close>, simp add: linked_def setHost_def del: keys_upsert)

lemma documented_addToQuery:
  assumes doc: "documented pf view cap A" and linked: "linked view room cap (Suc k) s" and h: "host key s = Some h"
  shows "if A (utf16PtrFromString path)
    then \<exists>c w. addToQuery pf key path s = Some (Ok c, s\<lparr>world := w\<rparr>) \<and> counterTable (view (world s)) c = None
           \<and> view w = added (queryHandle (host_query h)) c (utf16PtrFromString path) (view (world s))
    else \<exists>e w. addToQuery pf key path s = Some (Err e, s\<lparr>world := w\<rparr>) \<and> view w = view (world s)"
proof -
  obtain ret c w where call: "addProc pf (queryHandle (host_query h)) (utf16PtrFromString path) 0 (world s) = (ret, c, w)"
    by (metis prod_cases3)
  have room: "used (view (world s)) < cap" using linked by (simp add: linked_def)
  have "if A (utf16PtrFromString path)
      then (ucast ret :: u32) = errorSuccess \<and> counterTable (view (world s)) c = None
        \<and> view w = added (queryHandle (host_query h)) c (utf16PtrFromString path) (view (world s))
      else (ucast ret :: u32) \<noteq> errorSuccess \<and> view w = view (world s)"
    using addsByD [of view cap A "addProc pf", OF _ linked_host(2) [OF linked h] room call] doc by (simp add: documented_def addsCounters_def)
  then show ?thesis
    using addToQuery_addProc [OF h linked_host(3) [OF linked h] call] quiet_newPdhError [OF documented_quiet [OF doc]]
    by (auto split: if_splits)
qed

text \<open>A query for a new host.\<close>

lemma documented_newHost:
  assumes doc: "documented pf view cap A" and linked: "linked view room cap (Suc k) s" and "host key s = None"
  shows "\<exists>q w. Open pf (newPerformanceQuery key (word_of_int (MaxBufferSize (wpc s))), world s) = Some (Ok (), (q, w))
    \<and> linked view room cap k ((setHost key \<lparr>host_computer = key, host_tag = tag, host_counters = [], host_query = q,
        host_timestamp = zeroTime\<rparr> s)\<lparr>world := w\<rparr>)
    \<and> expansions (view w) = expansions (view (world s))"
proof -
  let ?m = "newPerformanceQuery key (word_of_int (MaxBufferSize (wpc s)))"
  have "used (view (world s)) < cap" using linked by (simp add: linked_def)
  then obtain q w where "Open pf (?m, world s) = Some (Ok (), (?m\<lparr>queryHandle := q\<rparr>, w))" "q \<noteq> 0"
    "q \<notin> openQueries (view (world s))" "view w = opened q (view (world s))"
    using documented_Open [OF doc, of "world s" ?m] by (auto simp: newPerformanceQuery_def)
  then show ?thesis
    using linked_newHost [OF linked assms(3), of q w]
    by (intro exI [of _ "?m\<lparr>queryHandle := q\<rparr>"] exI [of _ w]) (simp add: newPerformanceQuery_def opened_def)
qed

interpretation documented: config_setup pf "\<lambda>k s. documented pf view cap A \<and> \<not> UseWildcardsExpansion (wpc s) \<and> linked view room cap k s"
    "\<lambda>path. A (utf16PtrFromString path)" for pf :: "'w platform" and view room cap A
proof (unfold_locales, goal_cases)
  case (1 k s)
  then show ?case using linked_spare by blast
next
  case (2 k s l)
  then show ?case using linked_same [of view room cap k s "s\<lparr>loglines := l\<rparr>"] by simp
next
  case (3 k s n)
  then show ?case
    using linked_same [of view room cap k s "s\<lparr>world := snd (osHostname pf (world s)), wpc := (wpc s)\<lparr>cachedHostname := n\<rparr>\<rparr>"]
    by (auto simp: quiet_simps(4) dest: documented_quiet)
next
  case (4 k s x)
  then show ?case using linked_same [of view room cap k s "s\<lparr>wpc := (wpc s)\<lparr>Sources := x\<rparr>\<rparr>"] by simp
next
  case (5 k s key tag)
  then show ?case using documented_newHost [of pf view cap A room k s key tag] by auto
next
  case (6 k s)
  then show ?case by blast
next
  case (7 k s key h path)
  then obtain c w where "addToQuery pf key path s = Some (Ok c, s\<lparr>world := w\<rparr>)" "counterTable (view (world s)) c = None"
    "view w = added (queryHandle (host_query h)) c (utf16PtrFromString path) (view (world s))"
    using documented_addToQuery [of pf view cap A room k s key h path] by auto
  then show ?case using 7 linked_append [of view room cap k s key h _ w] by (intro exI [of _ c] exI [of _ w]) auto
next
  case (8 k s key h path)
  then obtain e w where "addToQuery pf key path s = Some (Err e, s\<lparr>world := w\<rparr>)" "view w = view (world s)"
    using documented_addToQuery [of pf view cap A room k s key h path] by auto
  moreover have "linked view room cap k s" using 8 linked_spare by blast
  ultimately show ?case
    using 8 linked_same [of view room cap k s "s\<lparr>world := w\<rparr>"] by auto
qed

section \<open>Closing\<close>

text \<open>
  While the queries are closed one by one, those of the remaining hosts \<open>keys\<close> are open and
  different, and the other handles in use are not more than before.
\<close>

definition closable :: "('w \<Rightarrow> pdhView) \<Rightarrow> nat \<Rightarrow> string list \<Rightarrow> 'w runtime \<Rightarrow> bool" where
  "closable view room keys s \<longleftrightarrow> distinct keys
     \<and> (\<forall>key \<in> set keys. \<exists>h. host key s = Some h \<and> queryHandle (host_query h) \<noteq> 0
          \<and> queryHandle (host_query h) \<in> openQueries (view (world s)))
     \<and> (\<forall>key \<in> set keys. \<forall>key' \<in> set keys. \<forall>h h'. host key s = Some h \<longrightarrow> host key' s = Some h' \<longrightarrow>
          queryHandle (host_query h) = queryHandle (host_query h') \<longrightarrow> key = key')
     \<and> outside (heldBy (set keys) s) (view (world s)) \<le> room"

lemma outside_closed:
  assumes "q \<notin> Q"
  shows "outside Q (closed q V) = outside (insert q Q) V"
proof -
  have "{c. \<exists>r p. counterTable (closed q V) c = Some (r, p) \<and> r \<notin> Q}
      = {c. \<exists>r p. counterTable V c = Some (r, p) \<and> r \<notin> insert q Q}"
    by (auto simp: closed_def split: option.splits if_splits)
  moreover have "openQueries (closed q V) - Q = openQueries V - insert q Q" by (auto simp: closed_def)
  ultimately show ?thesis by (simp add: outside_def)
qed

lemma closeHost_closable:
  assumes doc: "documented pf view cap A" and "closable view room (key # keys) s"
  shows "\<exists>t. changeQuery key (Close pf) s = Some (Ok (), t) \<and> closable view room keys t \<and> sameSetup s t
           \<and> expansions (view (world t)) = expansions (view (world s))"
proof -
  obtain h where h: "host key s = Some h" "queryHandle (host_query h) \<noteq> 0"
    "queryHandle (host_query h) \<in> openQueries (view (world s))" using assms(2) by (auto simp: closable_def)
  let ?q = "queryHandle (host_query h)" and ?m = "(host_query h)\<lparr>queryHandle := 0\<rparr>"
  obtain w where close: "Close pf (host_query h, world s) = Some (Ok (), (?m, w))" "view w = closed ?q (view (world s))"
    using documented_Close [OF doc h(3,2)] by blast
  let ?t = "(setHost key (h\<lparr>host_query := ?m\<rparr>) s)\<lparr>world := w\<rparr>"
  have keys: "key \<notin> set keys" "distinct keys" using assms(2) by (auto simp: closable_def)
  have same: "host j ?t = host j s" if "j \<in> set keys" for j using that keys(1) by (auto simp: host_setHost)
  then have held: "heldBy (set keys) ?t = heldBy (set keys) s" by (simp add: heldBy_def)
  have other: "queryHandle (host_query g) \<noteq> ?q" if "j \<in> set keys" "host j s = Some g" for j g
    using assms(2) that keys(1) h(1) unfolding closable_def by (metis list.set_intros)
  then have "?q \<notin> heldBy (set keys) s" by (auto simp: heldBy_def)
  moreover have "insert ?q (heldBy (set keys) s) = heldBy (set (key # keys)) s" using h(1) by (auto simp: heldBy_def)
  ultimately have "outside (heldBy (set keys) ?t) (view w) \<le> room"
    using assms(2) outside_closed close(2) held by (simp add: closable_def)
  moreover have "\<exists>g. host j ?t = Some g \<and> queryHandle (host_query g) \<noteq> 0
      \<and> queryHandle (host_query g) \<in> openQueries (view (world ?t))" if j: "j \<in> set keys" for j
  proof -
    obtain g where "host j s = Some g" "queryHandle (host_query g) \<noteq> 0"
      "queryHandle (host_query g) \<in> openQueries (view (world s))" using assms(2) j unfolding closable_def by force
    then show ?thesis using other [OF j] same [OF j] close(2) by (simp add: closed_def)
  qed
  moreover have "j = j'" if "j \<in> set keys" "j' \<in> set keys" "host j ?t = Some g" "host j' ?t = Some g'"
    "queryHandle (host_query g) = queryHandle (host_query g')" for j j' g g'
    using assms(2) that same unfolding closable_def by (metis list.set_intros(2))
  ultimately have "closable view room keys ?t" using keys(2) unfolding closable_def by simp
  moreover have "changeQuery key (Close pf) s = Some (Ok (), ?t)"
    using h(1) close(1) by (simp add: changeQuery_def onHost_def)
  moreover have "sameSetup s ?t"
    using sameSetup_trans [OF sameSetup_setHost sameSetup_refl(2)] h(1) by (metis option.distinct(1))
  moreover have "expansions (view (world ?t)) = expansions (view (world s))" using close(2) by (simp add: closed_def)
  ultimately show ?thesis by blast
qed

lemma closeAll_closable:
  assumes doc: "documented pf view cap A" and "closable view room keys s"
  shows "\<exists>t. forP keys (\<lambda>key. changeQuery key (Close pf)) s = Some (Ok (), t) \<and> closable view room [] t \<and> sameSetup s t
           \<and> expansions (view (world t)) = expansions (view (world s))"
  using assms(2)
proof (induction keys arbitrary: s)
  case (Cons key keys)
  obtain t where t: "changeQuery key (Close pf) s = Some (Ok (), t)" "closable view room keys t" "sameSetup s t"
    "expansions (view (world t)) = expansions (view (world s))"
    using closeHost_closable [OF doc Cons.prems] by blast
  then show ?case using Cons.IH [OF t(2)] sameSetup_trans [OF t(3)] t(4) by (auto simp: bindP_def)
qed (simp add: retP_def)

lemma linked_closable:
  assumes "linked view room cap k s" and "distinct keys" and "set keys = fst ` set (hostCounters (wpc s))"
  shows "closable view room keys s"
proof -
  have known: "\<exists>h. host key s = Some h" if "key \<in> set keys" for key
    using that assms(3) unfolding host_def by (metis map_of_eq_None_iff not_None_eq)
  have "heldBy (set keys) s = heldBy UNIV s"
    using assms(3) unfolding heldBy_def host_def
    by (auto simp: map_of_eq_None_iff) (metis image_eqI map_of_SomeD fst_conv)
  then show ?thesis
    using assms known linked_host [OF assms(1)] unfolding closable_def linked_def by metis
qed

text \<open>Cleaning a linked collector leaves no host and gives back its handles.\<close>

lemma cleanQueries_linked:
  assumes doc: "documented pf view cap A" and fair: "fairRange pf" and linked: "linked view room cap k s"
  shows "\<exists>t. cleanQueries pf s = Some (Ok (), t) \<and> hostCounters (wpc t) = [] \<and> used (view (world t)) \<le> room
           \<and> wpc t = (wpc s)\<lparr>hostCounters := []\<rparr> \<and> emitted t = emitted s
           \<and> expansions (view (world t)) = expansions (view (world s))"
proof -
  let ?names = "map fst (hostCounters (wpc s))"
  obtain order w where perm: "rangePerm pf (length ?names) (world s) = (order, w)" by fastforce
  then have order: "distinct order" "set order = {0..<length ?names}"
    using fair unfolding fairRange_def by (metis fst_conv)+
  let ?keys = "map (\<lambda>i. ?names ! i) order"
  have range: "rangeHosts pf s = Some (Ok ?keys, s\<lparr>world := w\<rparr>)" using perm by (simp add: rangeHosts_def)
  have "set ?keys = set ?names" using order(2) by (simp only: set_map) (metis list.set_map map_nth set_upt)
  moreover have "distinct ?keys"
    using order linked by (auto simp: distinct_map inj_on_def linked_def nth_eq_iff_index_eq simp del: nth_map)
  moreover have "linked view room cap k (s\<lparr>world := w\<rparr>)"
    using linked_same [OF linked, of "s\<lparr>world := w\<rparr>"] quiet_simps(5) [OF documented_quiet [OF doc], of "length ?names" "world s"] perm
    by simp
  ultimately have "closable view room ?keys (s\<lparr>world := w\<rparr>)" by (intro linked_closable) simp_all
  from closeAll_closable [OF doc this] obtain t where
    t: "forP ?keys (\<lambda>key. changeQuery key (Close pf)) (s\<lparr>world := w\<rparr>) = Some (Ok (), t)" "closable view room [] t"
      "sameSetup (s\<lparr>world := w\<rparr>) t" "expansions (view (world t)) = expansions (view w)" by auto
  have "view w = view (world s)" using quiet_simps(5) [OF documented_quiet [OF doc], of "length ?names" "world s"] perm by simp
  then have "expansions (view (world t)) = expansions (view (world s))" using t(4) by simp
  moreover have "used (view (world t)) \<le> room" using t(2) by (simp add: closable_def heldBy_def outside_none)
  moreover have "(wpc t)\<lparr>hostCounters := []\<rparr> = (wpc s)\<lparr>hostCounters := []\<rparr>" "emitted t = emitted s"
    using t(3) by (simp_all add: sameSetup_def)
  ultimately show ?thesis
    using range t(1) by (simp add: cleanQueries_def seqP_def bindP_def setCfg_def modifyP_def)
qed

end
