(* ===== verification/Simulated.thy ===== *)
theory Simulated
  imports Documented
begin

text \<open>
  A simulated Windows on which the properties of whole calls are tried. Its state is a view
  and which data the memory holds. It hands out the least free handle and accepts all
  counters whose path has no digit one. It has the item \<open>a\<close> with the value 7 for each of
  them, and expands every path to \<open>\O(i)\c\<close>.
\<close>

definition freshHandle :: "u64 set \<Rightarrow> u64" where
  "freshHandle S = (case find (\<lambda>h. h \<notin> S) [1, 2, 3, 4, 5, 6, 7, 8] of Some h \<Rightarrow> h | None \<Rightarrow> 0)"

lemma freshHandle:
  assumes "card S < 8"
  shows "freshHandle S \<noteq> 0" and "freshHandle S \<notin> S"
proof -
  have "\<not> {1, 2, 3, 4, 5, 6, 7, 8} \<subseteq> S"
    using assms card_mono [of S "{1, 2, 3, 4, 5, 6, 7, 8}"] by auto
  then show "freshHandle S \<noteq> 0" "freshHandle S \<notin> S" by (simp_all add: freshHandle_def)
qed

lemma freshHandle_free: "freshHandle S \<noteq> 0 \<Longrightarrow> freshHandle S \<notin> S"
  by (auto simp: freshHandle_def)

type_synonym simState = "pdhView \<times> nat"

definition simItems :: "bool \<Rightarrow> u64 \<Rightarrow> item list" where
  "simItems raw c = (if raw then [] else [([97], 0, 7)])"

definition simValue :: "bool \<Rightarrow> u64 \<Rightarrow> u32 \<times> u64" where
  "simValue raw c = (0, if raw then 0 else 7)"

definition simUnits :: "u16 list" where
  "simUnits = [92, 79, 40, 105, 41, 92, 99]"

definition simView :: "simState \<Rightarrow> pdhView" where
  "simView w = (fst w)\<lparr>arrayItems := simItems, valueItem := simValue, expansions := (\<lambda>p. [simUnits])\<rparr>"

text \<open>
  The memory holds an array of one item, a single value, or a list of paths and behind it the
  pointer of a counter's information, which leads to the first path.
\<close>

definition simMemory :: "nat \<Rightarrow> memory" where
  "simMemory i = bytesAt 4096 (if i = 0
     then [0x18,0x10,0,0,0,0,0,0, 0,0,0,0, 0,0,0,0, 7,0,0,0,0,0,0,0, 97,0,0,0]
     else if i = 1 then [0,0,0,0, 0,0,0,0, 7,0,0,0,0,0,0,0]
     else [92,0, 79,0, 40,0, 105,0, 41,0, 92,0, 99,0, 0,0, 0,0] @ replicate 22 0 @ [0,0x10,0,0,0,0,0,0])"

definition simAdd :: "u64 \<Rightarrow> u16 list option \<Rightarrow> u64 \<Rightarrow> simState \<Rightarrow> u64 \<times> u64 \<times> simState" where
  "simAdd q p d w = (if hasOne p then (0xC0000BB8, 0, w)
     else let c = freshHandle (dom (counterTable (fst w))) in (0, c, (added q c p (fst w), snd w)))"

definition simPlatform :: "simState platform" where
  "simPlatform = \<lparr>
     build = AMD64,
     mem = (\<lambda>w. simMemory (snd w)),
     newObject = (\<lambda>k w. (4096, w)),
     timeNow = (\<lambda>w. (0, w)),
     timeSleep = (\<lambda>d w. w),
     osHostname = (\<lambda>w. (Some ''host'', w)),
     rangePerm = (\<lambda>k w. ([0..<k], w)),
     libPdhHandle = 1,
     FORMAT_MESSAGE_FROM_HMODULE = 2048,
     FORMAT_MESSAGE_ARGUMENT_ARRAY = 8192,
     FORMAT_MESSAGE_IGNORE_INSERTS = 512,
     FormatMessage = (\<lambda>flags h i l buf k w. (Some ''no message'', w)),
     PdhAddCounterW = simAdd,
     PdhAddEnglishCounterW = Some simAdd,
     PdhCloseQuery = (\<lambda>q w. (0, (closed q (fst w), snd w))),
     PdhCollectQueryData = (\<lambda>q w. (0, (sampled q (fst w) (fst w), snd w))),
     PdhCollectQueryDataWithTime =
       Some (\<lambda>q w. (0, \<lparr>dwLowDateTime = 0, dwHighDateTime = 0\<rparr>, (sampled q (fst w) (fst w), snd w))),
     PdhGetFormattedCounterValue = (\<lambda>h f p w. (0, (fst w, 1))),
     PdhGetFormattedCounterArrayW =
       (\<lambda>h f sz k buf w. if sz < 28 then (0x800007D2, 28, 0, w) else (0, 28, 1, (fst w, 0))),
     PdhOpenQuery = (\<lambda>s d w. let q = freshHandle (openQueries (fst w)) in
       if q = 0 then (0xC0000BBB, 0, w) else (0, q, (opened q (fst w), snd w))),
     PdhExpandWildCardPathW = (\<lambda>s p buf sz f w. if sz < 9 then (0x800007D2, 9, w) else (0, 9, (fst w, 2))),
     PdhGetCounterInfoW = (\<lambda>h e sz buf w. if sz < 48 then (0x800007D2, 48, w) else (0, 48, (fst w, 2))),
     PdhGetRawCounterValue = (\<lambda>h p w. (0, (fst w, 1))),
     PdhGetRawCounterArrayW = (\<lambda>h sz k buf w. (0, 0, 0, w)),
     PdhValidatePathW = (\<lambda>p w. (0, w)),
     LocalFileTimeToFileTime = (\<lambda>ft w. (1, ft, w))\<rparr>"

lemma simView_image [simp]: "simView (fst w, i) = simView w"
  by (simp add: simView_def)

lemma simPlatform_call:
  "newObject simPlatform k w = (4096, w)" "build simPlatform = AMD64" "mem simPlatform w = simMemory (snd w)"
  "rawArrayCall simPlatform c buf b w = (0, 0, 0, w)"
  "doubleArrayCall simPlatform c buf b w = (if b < 28 then (pdhMoreData, 28, 0, w) else (0, 28, 1, (fst w, 0)))"
  "counterInfoCall simPlatform c buf b w = (if b < 48 then (pdhMoreData, 48, 0, w) else (0, 48, 0, (fst w, 2)))"
  "expandCall simPlatform path buf b w = (if b < 9 then (pdhMoreData, 9, 0, w) else (0, 9, 0, (fst w, 2)))"
  "pdhGetFormattedCounterValueDouble simPlatform c p w = (0, (fst w, 1))" "pdhGetRawCounterValue simPlatform c p w = (0, (fst w, 1))"
  by (simp_all add: simPlatform_def pdhGetRawCounterArray_def pdhGetFormattedCounterArrayDouble_def pdhGetCounterInfo_def
      pdhExpandWildCardPath_def pdhGetFormattedCounterValueDouble_def pdhGetRawCounterValue_def)

lemma used_data [simp]: "used (w\<lparr>arrayItems := its, valueItem := vs, expansions := xs\<rparr>) = used w"
  by (simp add: used_def)

lemma simPlatform_adds: "addsBy simView 8 (\<lambda>p. \<not> hasOne p) simAdd"
proof -
  have "counterTable w (freshHandle (dom (counterTable w))) = None" if "used w < 8" for w
    using freshHandle(2) [of "dom (counterTable w)"] that by (metis add_lessD1 add.commute domIff used_def)
  then show ?thesis by (auto simp: addsBy_def simView_def simAdd_def added_def Let_def)
qed

lemma simPlatform_documented: "documented simPlatform simView 8 (\<lambda>p. \<not> hasOne p)"
proof -
  have "card (openQueries w) < 8" if "used w < 8" for w using that by (simp add: used_def)
  note fresh = freshHandle [OF this]
  have "opensQueries simPlatform simView 8"
    using fresh by (auto simp: opensQueries_def simPlatform_def simView_def opened_def Let_def)
  moreover have "addsCounters simPlatform simView 8 (\<lambda>p. \<not> hasOne p)"
    using simPlatform_adds by (simp add: addsCounters_def addProc_def simPlatform_def)
  moreover have "simView (sampled q (fst w) (fst w), snd w) = sampled q (simView w) (simView w)" for q w
    by (simp add: simView_def sampled_def)
  then have "samplesQueries simPlatform simView" by (auto simp: samplesQueries_def simPlatform_def)
  moreover have "closesQueries simPlatform simView"
    by (auto simp: closesQueries_def simPlatform_def simView_def closed_def)
  moreover have "quiet simPlatform simView"
    by (simp add: quiet_def simPlatform_def simView_def)
  ultimately show ?thesis by (simp add: documented_def)
qed

text \<open>A collector before its first call, with one counter of one object.\<close>

definition simRuntime :: "bool \<Rightarrow> string \<Rightarrow> simState runtime" where
  "simRuntime expand inst = \<lparr>wpc = (NewWinPerfCounters True)\<lparr>UseWildcardsExpansion := expand, Object := [\<lparr>object_Sources = [''srv''],
       ObjectName = ''Disk'', Counters = [''% Idle''], Instances = [inst], Measurement = '''',
       WarnOnMissing = False, FailOnMissing = True, IncludeTotal = False, UseRawValues = False\<rparr>]\<rparr>,
     world = (\<lparr>openQueries = {}, counterTable = (\<lambda>_. None), sampleCount = (\<lambda>_. 0), arrayItems = (\<lambda>_ _. []),
       valueItem = (\<lambda>_ _. (0, 0)), expansions = (\<lambda>_. [])\<rparr>, 0),
     loglines = [], emitted = []\<rparr>"

lemma simRuntime_plan: "configPlan (wpc (simRuntime expand inst)) = [(True, ''srv'',
    newCounter 0 (formatPath ''srv'' ''Disk'' inst ''% Idle'') ''srv'' ''Disk'' inst ''% Idle'' '''' False False)]"
  by (simp add: simRuntime_def configPlan_def objectPlan_def computersOf_def counterItems_def instanceItem_def)

lemma simRuntime_start:
  "used (simView (world (simRuntime expand inst))) = 0" "hostCounters (wpc (simRuntime expand inst)) = []"
  "Object (wpc (simRuntime expand inst)) \<noteq> []" "UseWildcardsExpansion (wpc (simRuntime expand inst)) = expand"
  "LocalizeWildcardsExpansion (wpc (simRuntime expand inst))" "MaxBufferSize (wpc (simRuntime expand inst)) = 104857600"
  "IsZero (lastRefreshed (wpc (simRuntime expand inst)))" "hasCollect (wpc (simRuntime expand inst))"
  by (simp_all add: simRuntime_def simView_def used_def NewWinPerfCounters_def defaultMaxBufferSize_def IsZero_def)

lemma simPlatform_paths:
  "\<not> hasOne (utf16PtrFromString (formatPath ''srv'' ''Disk'' ''*'' ''% Idle''))"
  "hasOne (utf16PtrFromString (formatPath ''srv'' ''Disk'' ''1'' ''% Idle''))"
  by (simp_all add: formatPath_def hasOne_def emptyInstance_def utf16PtrFromString_ascii)

end
