(* ===== verification/Gathering.thy ===== *)
theory Gathering
  imports WinPerf
begin

text \<open>
  Collecting a sample (\<open>Gather\<close> and \<open>gatherComputerCounters\<close> of \<open>win_perf_counters.go\<close>). The
  bodies of the goroutines, one per host, are run one after another in the order in which
  the map is walked; the theory \<open>Goroutines\<close> shows that their order does not matter. Lemmas and
  properties are in the theories \<open>Collector\<close>, \<open>Report\<close> and \<open>Cycle\<close>.
\<close>

section \<open>\<open>gatherComputerCounters\<close>\<close>

definition skipWarning :: "counter \<Rightarrow> go_error \<Rightarrow> ('w, unit) rprog" where
  "skipWarning metric err = logWith (\<lambda>l. Logger_Warnf l
     ''Error while getting value for counter %q, instance: %s, will skip metric: %v''
     [AStr (counterPath metric), AStr (counter_instance metric), AErr err])"

definition valueError :: "counter \<Rightarrow> go_error \<Rightarrow> go_error" where
  "valueError metric err =
     Errorf ''error while getting value for counter %q: %w'' [AStr (counterPath metric)] (Some err)"

text \<open>The value of a counter that stands for one instance.\<close>

definition readValue :: "'w platform \<Rightarrow> string \<Rightarrow> counter \<Rightarrow> ('w, go_value) rprog" where
  "readValue pf key metric =
     (if useRawValue metric
      then bindP (readQuery key (\<lambda>q. GetRawCounterValue pf q (counterHandle metric)))
             (\<lambda>v. retP (IntValue v))
      else bindP (readQuery key (\<lambda>q. GetFormattedCounterValueDouble pf q (counterHandle metric)))
             (\<lambda>v. retP (FloatValue v)))"

text \<open>
  The values of a counter that may stand for several instances, with the value that the
  variable \<open>err\<close> of the function has afterwards: the raw branch assigns it, the formatted
  branch declares a variable of its own and leaves it as it was.
\<close>

definition readArray ::
    "'w platform \<Rightarrow> string \<Rightarrow> counter \<Rightarrow> go_error option
     \<Rightarrow> ('w, go_error option \<times> counterValue list) rprog" where
  "readArray pf key metric err =
     (if useRawValue metric
      then bindP (attemptP (readQuery key (\<lambda>q. GetRawCounterArray pf q (counterHandle metric))))
             (case_sum (\<lambda>e. retP (Some e, [])) (\<lambda>vs. retP (None, vs)))
      else bindP (attemptP (readQuery key (\<lambda>q. GetFormattedCounterArrayDouble pf q (counterHandle metric))))
             (case_sum (\<lambda>e. retP (err, []))
                (\<lambda>vs. retP (err, map (\<lambda>v. \<lparr>Name = Name v, Value = FloatValue (Value v)\<rparr>) vs))))"

definition renamed :: "counter \<Rightarrow> counterValue \<Rightarrow> counterValue" where
  "renamed metric cValue =
     (if contains (counter_instance metric) ''#'' \<and> hasPrefix (counter_instance metric) (Name cValue)
      then cValue\<lparr>Name := counter_instance metric\<rparr> else cValue)"

definition addValue :: "counter \<Rightarrow> counterValue \<Rightarrow> fieldGrouping \<Rightarrow> fieldGrouping" where
  "addValue metric cValue0 cf =
     (let cValue = renamed metric cValue0 in
      if shouldIncludeMetric metric cValue
      then addCounterMeasurement metric (Name cValue) (Value cValue) cf else cf)"

text \<open>
  The body of the loop over the counters, from the value of \<open>err\<close> and the collected fields to
  their new values; an error of it is a \<open>return\<close> of the function.
\<close>

definition skipMetric ::
    "counter \<Rightarrow> fieldGrouping \<Rightarrow> go_error \<Rightarrow> ('w, go_error option \<times> fieldGrouping) rprog" where
  "skipMetric metric cf e =
     (if \<not> isKnownCounterDataError e then failP (valueError metric e)
      else seqP (skipWarning metric e) (retP (Some e, cf)))"

definition gatherMetric ::
    "'w platform \<Rightarrow> string \<Rightarrow> counter \<Rightarrow> go_error option \<Rightarrow> fieldGrouping
     \<Rightarrow> ('w, go_error option \<times> fieldGrouping) rprog" where
  "gatherMetric pf key metric err cf =
     bindP (cfg UseWildcardsExpansion) (\<lambda>expand.
     if expand then
       bindP (attemptP (readValue pf key metric))
         (case_sum (skipMetric metric cf)
            (\<lambda>v. retP (None, addCounterMeasurement metric (counter_instance metric) v cf)))
     else
       bindP (readArray pf key metric err) (\<lambda>(err', values).
         case_option (retP (None, fold (addValue metric) values cf)) (skipMetric metric cf) err'))"

primrec gatherMetrics ::
    "'w platform \<Rightarrow> string \<Rightarrow> counter list \<Rightarrow> go_error option \<Rightarrow> fieldGrouping \<Rightarrow> ('w, fieldGrouping) rprog" where
  "gatherMetrics pf key [] err cf = retP cf"
| "gatherMetrics pf key (metric # metrics) err cf =
     bindP (gatherMetric pf key metric err cf) (\<lambda>(err', cf'). gatherMetrics pf key metrics err' cf')"

lemmas gatherMetric_defs = gatherMetric_def skipMetric_def

definition tagsOf :: "hostCountersInfo \<Rightarrow> instanceGrouping \<Rightarrow> (string \<times> string) list" where
  "tagsOf h inst =
     [(''objectname'', group_objectName inst)]
     @ (if group_instance inst \<noteq> '''' then [(''instance'', group_instance inst)] else [])
     @ (if host_tag h \<noteq> '''' then [(''source'', host_tag h)] else [])"

definition metricOf :: "hostCountersInfo \<Rightarrow> instanceGrouping \<times> fieldMap \<Rightarrow> metric" where
  "metricOf h = (\<lambda>(inst, fs). \<lparr>metric_name = group_name inst, metric_fields = fs,
     metric_tags = tagsOf h inst, metric_time = host_timestamp h\<rparr>)"

text \<open>The groups in the order in which Go walks their map, handed to the callback if there is one.\<close>

definition rangeGroups :: "'w platform \<Rightarrow> fieldGrouping \<Rightarrow> ('w, fieldGrouping) rprog" where
  "rangeGroups pf cf = (\<lambda>s.
     let (order, w) = rangePerm pf (length cf) (world s)
     in Some (Ok (map (\<lambda>i. cf ! i) order), s\<lparr>world := w\<rparr>))"

definition emitGroup :: "hostCountersInfo \<Rightarrow> instanceGrouping \<times> fieldMap \<Rightarrow> ('w, unit) rprog" where
  "emitGroup h g = modifyP (\<lambda>s.
     if hasCollect (wpc s) then s\<lparr>emitted := emitted s @ [metricOf h g]\<rparr> else s)"

definition emitGroups :: "'w platform \<Rightarrow> hostCountersInfo \<Rightarrow> fieldGrouping \<Rightarrow> ('w, unit) rprog" where
  "emitGroups pf h cf = bindP (rangeGroups pf cf) (\<lambda>groups. forP groups (emitGroup h))"

definition gatherComputerCounters :: "'w platform \<Rightarrow> string \<Rightarrow> ('w, unit) rprog" where
  "gatherComputerCounters pf key = onHost key (\<lambda>h.
     bindP (gatherMetrics pf key (host_counters h) None []) (emitGroups pf h))"

section \<open>\<open>Gather\<close>\<close>

definition now :: "'w platform \<Rightarrow> ('w, Time) rprog" where
  "now pf = machine (\<lambda>w. let (t, w') = timeNow pf w in Some (Ok t, w'))"

definition needsRefresh :: "'w platform \<Rightarrow> ('w, bool) rprog" where
  "needsRefresh pf =
     bindP (cfg (\<lambda>m. (lastRefreshed m, CountersRefreshInterval m))) (\<lambda>(last, interval).
     if IsZero last then retP True
     else if interval > 0 then bindP (now pf) (\<lambda>t. retP (last + interval < t))
     else retP False)"

text \<open>
  The first sample of every host. A failure ends \<open>Gather\<close> with the error, or with nil if the
  error is to be ignored; the result tells whether to go on.
\<close>

primrec collectFirst :: "'w platform \<Rightarrow> string list \<Rightarrow> ('w, bool) rprog" where
  "collectFirst pf [] = retP True"
| "collectFirst pf (key # keys) =
     bindP (attemptP (readQuery key (CollectData pf)))
       (case_sum
          (\<lambda>e. bindP (cfg IgnoredErrors) (\<lambda>ignored.
             case_option (retP False) failP (checkError ignored e)))
          (\<lambda>_. collectFirst pf keys))"

definition refresh :: "'w platform \<Rightarrow> ('w, bool) rprog" where
  "refresh pf =
     seqP (cleanQueries pf) (seqP (parseConfig pf) (
     bindP (rangeHosts pf) (\<lambda>keys.
     bindP (collectFirst pf keys) (\<lambda>go_on.
     if go_on then
       bindP (now pf) (\<lambda>t.
       seqP (setCfg (\<lambda>m. m\<lparr>lastRefreshed := t\<rparr>))
         (seqP (machine (\<lambda>w. Some (Ok (), timeSleep pf second w))) (retP True)))
     else retP False))))"

definition setTimestamp :: "string \<Rightarrow> Time \<Rightarrow> ('w, unit) rprog" where
  "setTimestamp key t = onHost key (\<lambda>h. modifyP (setHost key (h\<lparr>host_timestamp := t\<rparr>)))"

definition collectHost :: "'w platform \<Rightarrow> string \<Rightarrow> ('w, unit) rprog" where
  "collectHost pf key =
     bindP (cfg UsePerfCounterTime) (\<lambda>useTime.
     if useTime \<and> IsVistaOrNewer pf then
       bindP (readQuery key (CollectDataWithTime pf)) (\<lambda>(t, err).
       seqP (setTimestamp key t) (case_option (retP ()) failP err))
     else
       bindP (now pf) (\<lambda>t.
       seqP (setTimestamp key t) (readQuery key (CollectData pf))))"

text \<open>The body of a host's goroutine; the formatted error is discarded.\<close>

definition gatherHost :: "'w platform \<Rightarrow> string \<Rightarrow> ('w, unit) rprog" where
  "gatherHost pf key = onHost key (\<lambda>h.
     seqP (logWith (\<lambda>l. Logger_Debugf l ''Gathering from %s'' [AStr (host_computer h)])) (
     bindP (now pf) (\<lambda>start.
     bindP (attemptP (gatherComputerCounters pf key)) (\<lambda>outcome.
     bindP (now pf) (\<lambda>end.
     seqP (logWith (\<lambda>l. Logger_Debugf l ''Gathering from %s finished in %v''
             [AStr (host_computer h), AInt (end - start)]))
       (retP ()))))))"

definition Gather :: "'w platform \<Rightarrow> ('w, unit) rprog" where
  "Gather pf =
     bindP (needsRefresh pf) (\<lambda>due.
     bindP (if due then refresh pf else retP True) (\<lambda>go_on.
     if \<not> go_on then retP ()
     else
       bindP (rangeHosts pf) (\<lambda>keys.
       seqP (forP keys (collectHost pf)) (
       bindP (rangeHosts pf) (\<lambda>keys'. forP keys' (gatherHost pf))))))"

end
