(* ===== verification/Collector.thy ===== *)
theory Collector
  imports Gathering Config
begin

text \<open>
  Properties of collecting (\<open>Gather\<close> and \<open>gatherComputerCounters\<close> of
  \<open>win_perf_counters.go\<close>): every call returns and keeps the collector well formed; errors of
  a host are lost; what a stranded host does to all later calls.
\<close>

section \<open>Returning and the invariant\<close>

text \<open>A number of calls of \<open>Gather\<close>, one after another, and the errors they returned.\<close>

primrec gathers :: "'w platform \<Rightarrow> nat \<Rightarrow> 'w runtime \<Rightarrow> (unit result list \<times> 'w runtime) option" where
  "gathers pf 0 s = Some ([], s)"
| "gathers pf (Suc n) s = (case Gather pf s of
      None \<Rightarrow> None
    | Some (r, t) \<Rightarrow> map_option (\<lambda>(rs, u). (r # rs, u)) (gathers pf n t))"

text \<open>
  A property of the runtime state that the single steps keep is kept by every method,
  however it ends.
\<close>

locale collector_invariant = setup_invariant +
  assumes emitting: "J s \<Longrightarrow> J (s\<lparr>emitted := new\<rparr>)"
    and timing: "J s \<Longrightarrow> J (s\<lparr>world := snd (timeNow pf (world s))\<rparr>)"
      "J s \<Longrightarrow> J (s\<lparr>world := timeSleep pf d (world s)\<rparr>)"
    and refreshing: "J s \<Longrightarrow> J (s\<lparr>wpc := (wpc s)\<lparr>lastRefreshed := t\<rparr>\<rparr>)"
    and stamping: "keeps J (setTimestamp key t)"
    and sampling: "keeps J (readQuery key (CollectData pf))" "keeps J (readQuery key (CollectDataWithTime pf))"
    and reading: "keeps J (readQuery key (\<lambda>q. GetFormattedCounterValueDouble pf q handle))"
      "keeps J (readQuery key (\<lambda>q. GetRawCounterValue pf q handle))"
      "keeps J (readQuery key (\<lambda>q. GetFormattedCounterArrayDouble pf q handle))"
      "keeps J (readQuery key (\<lambda>q. GetRawCounterArray pf q handle))"
begin

lemmas collector_steps [keeps_rules] = stamping sampling reading

lemma keeps_now [keeps_rules]: "keeps J (now pf)"
  by (rule keepsI) (simp add: now_def machine_def Let_def case_prod_unfold timing)

lemma keeps_atHost [keeps_rules]: "(\<And>h. keeps J (f h)) \<Longrightarrow> keeps J (onHost key f)"
  by (auto simp: keeps_def onHost_def split: option.splits)

lemma keeps_skipWarning [keeps_rules]: "keeps J (skipWarning metric e)"
  unfolding skipWarning_def by (intro keeps_rules)

lemma keeps_readValue [keeps_rules]: "keeps J (readValue pf key metric)"
  unfolding readValue_def by (intro keeps_rules)

lemma keeps_readArray [keeps_rules]: "keeps J (readArray pf key metric err)"
  unfolding readArray_def by (intro keeps_rules)

lemma keeps_gatherMetric [keeps_rules]: "keeps J (gatherMetric pf key metric err cf)"
  unfolding gatherMetric_defs by (intro keeps_rules)

lemma keeps_gatherMetrics [keeps_rules]: "keeps J (gatherMetrics pf key metrics err cf)"
proof (induction metrics arbitrary: err cf)
  case (Cons metric metrics)
  then show ?case unfolding gatherMetrics.simps by (intro keeps_rules)
qed (simp add: keeps_retP)

lemma keeps_rangeGroups [keeps_rules]: "keeps J (rangeGroups pf cf)"
  by (rule keepsI) (simp add: rangeGroups_def Let_def case_prod_unfold ranging)

lemma keeps_emitGroup [keeps_rules]: "keeps J (emitGroup h g)"
  unfolding emitGroup_def by (intro keeps_rules) (simp add: emitting)

lemma keeps_emitGroups [keeps_rules]: "keeps J (emitGroups pf h cf)"
  unfolding emitGroups_def by (intro keeps_rules)

lemma keeps_gatherComputerCounters [keeps_rules]: "keeps J (gatherComputerCounters pf key)"
  unfolding gatherComputerCounters_def by (intro keeps_rules)

lemma keeps_needsRefresh [keeps_rules]: "keeps J (needsRefresh pf)"
  unfolding needsRefresh_def by (intro keeps_rules)

lemma keeps_collectFirst [keeps_rules]: "keeps J (collectFirst pf keys)"
proof (induction keys)
  case (Cons key keys)
  then show ?case unfolding collectFirst.simps by (intro keeps_rules)
qed (simp add: keeps_retP)

lemma keeps_refresh [keeps_rules]: "keeps J (refresh pf)"
proof -
  have "keeps J (setCfg (\<lambda>m. m\<lparr>lastRefreshed := t\<rparr>))" for t
    unfolding setCfg_def by (intro keeps_modifyP refreshing)
  moreover have "keeps J (machine (\<lambda>w. Some (Ok (), timeSleep pf second w)))"
    by (rule keepsI) (simp add: machine_def timing)
  ultimately show ?thesis unfolding refresh_def by (intro keeps_rules)
qed

lemma keeps_collectHost [keeps_rules]: "keeps J (collectHost pf key)"
  unfolding collectHost_def by (intro keeps_rules)

lemma keeps_gatherHost [keeps_rules]: "keeps J (gatherHost pf key)"
  unfolding gatherHost_def by (intro keeps_rules)

lemma keeps_Gather: "keeps J (Gather pf)"
  unfolding Gather_def by (intro keeps_rules)

lemma gathers_keep: "J s \<Longrightarrow> \<exists>rs t. gathers pf n s = Some (rs, t) \<and> length rs = n \<and> J t"
proof (induction n arbitrary: s)
  case (Suc n)
  obtain r t where "Gather pf s = Some (r, t)" "J t" using keeps_Gather Suc.prems by (rule keepsE)
  then show ?case using Suc.IH [of t] by fastforce
qed simp

end

text \<open>The collector stays well formed.\<close>

lemma single_methods_return:
  "GetFormattedCounterValueDouble pf q h w \<noteq> None" "GetRawCounterValue pf q h w \<noteq> None"
  by (auto simp: GetFormattedCounterValueDouble_def singleValue_def failPdh_outcome Let_def
      value_method_returns split: prod.splits)

lemma keeps_setTimestamp: "keeps goodRuntime (setTimestamp key t)"
  unfolding setTimestamp_def
  by (rule keeps_onHost) (auto simp: modifyP_def wfHost_def dest: goodRuntime_host intro!: goodRuntime_setHost)

interpretation good: collector_invariant pf "\<lambda>s. boundedSizes pf \<and> goodRuntime s" for pf
  by unfold_locales
     (simp | (intro keeps_with keeps_setTimestamp keeps_readQuery value_method_returns
         query_methods_return single_methods_return; assumption))+

lemma Gather_good: "boundedSizes pf \<Longrightarrow> keeps goodRuntime (Gather pf)"
  using good.keeps_Gather [of pf] by (auto simp: keeps_def)

section \<open>Stranded hosts\<close>

lemma Gather_stranded:
  assumes "fairRange pf" and "stranded key s" and "IsZero (lastRefreshed (wpc s))"
  shows "\<exists>e t. Gather pf s = Some (Err e, t) \<and> stranded key t \<and> IsZero (lastRefreshed (wpc t))
           \<and> emitted t = emitted s"
proof -
  obtain e t where clean: "cleanQueries pf s = Some (Err e, t)" and t: "stranded key t" "sameSetup s t"
    using cleanQueries_stranded [OF assms(1,2)] by blast
  have "lastRefreshed ((wpc t)\<lparr>hostCounters := []\<rparr>) = lastRefreshed ((wpc s)\<lparr>hostCounters := []\<rparr>)"
    using t(2) by (simp only: sameSetup_def)
  moreover have "Gather pf s = Some (Err e, t)"
    using clean assms(3) by (simp add: Gather_def needsRefresh_def refresh_def prog_simps cfg_def)
  ultimately show ?thesis using t assms(3) by (simp add: sameSetup_def)
qed

section \<open>Properties\<close>

text \<open>
  C3. \<open>Gather\<close> always returns, and keeps the collector well formed: with a buffer limit below
  2 GiB, and while Windows hands back sizes below 2 GiB, a call from any well-formed state
  comes back, and whether it ends with nil, an error or a panic, each host is in the map
  once, under its name, with a query that has the configured limit and counters that have a
  measurement name.
\<close>

theorem Gather_returns:
  assumes "boundedSizes pf" and "goodRuntime s"
  shows "\<exists>r t. Gather pf s = Some (r, t) \<and> goodRuntime t"
  using Gather_good [OF assms(1)] assms(2) unfolding keeps_def by blast

theorem Gather_returns_witness:
  "\<exists>r t. Gather (samplePlatform AMD64 [] 16 0)
     \<lparr>wpc = NewWinPerfCounters True, world = (), loglines = [], emitted = []\<rparr> = Some (r, t)
   \<and> goodRuntime t"
proof (rule Gather_returns)
  show "boundedSizes (samplePlatform AMD64 [] 16 0)"
    by (simp add: boundedSizes_def samplePlatform_def)
  show "goodRuntime \<lparr>wpc = NewWinPerfCounters True, world = (), loglines = [], emitted = []\<rparr>"
    by (simp add: goodRuntime_def wfHosts_def NewWinPerfCounters_def defaultMaxBufferSize_def)
qed

text \<open>
  C27. A stranded host blocks the collector for good: once a host is in the map with a query
  that is not open, and no refresh has been completed yet, every further call of \<open>Gather\<close>
  returns an error and nothing is ever collected, however often it is called and whatever
  Windows answers.
\<close>

theorem Gather_blocked_forever:
  assumes "fairRange pf" and "host key s = Some h" and "queryHandle (host_query h) = 0"
    and "IsZero (lastRefreshed (wpc s))"
  shows "\<exists>rs t. gathers pf n s = Some (rs, t) \<and> length rs = n
           \<and> (\<forall>r \<in> set rs. \<exists>e. r = Err e) \<and> emitted t = emitted s"
proof -
  have "stranded key s" using assms(2,3) by (simp add: stranded_def isOpen_def)
  then show ?thesis
    using assms(4)
  proof (induction n arbitrary: s)
    case (Suc n)
    obtain e t where "Gather pf s = Some (Err e, t)" "stranded key t"
      "IsZero (lastRefreshed (wpc t))" "emitted t = emitted s"
      using Gather_stranded [OF assms(1) Suc.prems] by blast
    moreover from Suc.IH [OF this(2,3)] obtain rs u where "gathers pf n t = Some (rs, u)"
      "length rs = n" "\<forall>r \<in> set rs. \<exists>e. r = Err e" "emitted u = emitted t" by blast
    ultimately show ?case by auto
  qed simp
qed

theorem Gather_blocked_forever_witness:
  "\<exists>rs t. gathers (samplePlatform AMD64 [] 0 0) 3 strandedSample = Some (rs, t) \<and> length rs = 3
     \<and> (\<forall>r \<in> set rs. \<exists>e. r = Err e) \<and> emitted t = emitted strandedSample"
  by (rule Gather_blocked_forever [where key = "''h''" and
        h = "\<lparr>host_computer = ''h'', host_tag = ''h'', host_counters = [],
             host_query = newPerformanceQuery ''h'' 2048, host_timestamp = 0\<rparr>"])
     (simp_all add: strandedSample_def host_def newPerformanceQuery_def NewWinPerfCounters_def IsZero_def)


end
