(* ===== verification/Report.thy ===== *)
theory Report
  imports Collector "HOL-Library.Multiset" "HOL-Library.Sublist"
begin

text \<open>
  What a host's collection hands to the callback (\<open>gatherComputerCounters\<close> of
  \<open>win_perf_counters.go\<close>): an abstract account of the values to report, which does not
  mention the maps the code builds, and the proof that the code reports exactly these; and
  which errors are lost, passed on, or spread to other counters.
\<close>

section \<open>The account\<close>

text \<open>
  A reading is a value with the group and the field it is to be reported in. The value of a
  named instance is reported under the counter's own instance when that has an index mark
  and the name begins it, and it is wanted when totals are, when all instances are and it
  is not a total, when it is the counter's instance, or when the counter has none.
\<close>

type_synonym reading = "(instanceGrouping \<times> string) \<times> go_value"

definition reportedName :: "counter \<Rightarrow> string \<Rightarrow> string" where
  "reportedName metric name =
     (if CHR ''#'' \<in> set (counter_instance metric) \<and> prefix name (counter_instance metric)
      then counter_instance metric else name)"

definition wanted :: "counter \<Rightarrow> string \<Rightarrow> bool" where
  "wanted metric name \<longleftrightarrow> includeTotal metric
     \<or> (counter_instance metric = ''*'' \<and> \<not> sublist ''_Total'' name)
     \<or> counter_instance metric \<in> {name, emptyInstance}"

definition arrayReadings :: "counter \<Rightarrow> counterValue list \<Rightarrow> (string \<times> go_value) list" where
  "arrayReadings metric vals =
     filter (\<lambda>(name, val). wanted metric name)
       (map (\<lambda>cv. (reportedName metric (Name cv), Value cv)) vals)"

definition readingsOf :: "counter \<Rightarrow> (string \<times> go_value) list \<Rightarrow> reading list" where
  "readingsOf metric = map (\<lambda>(name, val).
     ((\<lparr>group_name = counter_measurement metric, group_instance = name,
        group_objectName = counter_objectName metric\<rparr>,
       sanitizedChars_Replace (counter_counter metric)), val))"

text \<open>The tags of a group: the object, and the instance and the source where not empty.\<close>

definition tagFor :: "string \<Rightarrow> instanceGrouping \<Rightarrow> string \<Rightarrow> string option" where
  "tagFor source g t =
     (if t = ''objectname'' then Some (group_objectName g)
      else if t = ''instance'' \<and> group_instance g \<noteq> '''' then Some (group_instance g)
      else if t = ''source'' \<and> source \<noteq> '''' then Some source
      else None)"

text \<open>
  \<open>ms\<close> reports the readings \<open>rs\<close>: it has one entry for each group that occurs in them, in
  some order, which has the group's name and tags, the given time, and as its fields those
  that the group has in the readings, each with the value read last.
\<close>

definition reports :: "string \<Rightarrow> Time \<Rightarrow> reading list \<Rightarrow> metric list \<Rightarrow> bool" where
  "reports source time rs ms \<longleftrightarrow>
     (\<exists>gs. distinct gs \<and> set gs = (\<lambda>((g, f), v). g) ` set rs
       \<and> list_all2 (\<lambda>g m. metric_name m = group_name g
            \<and> map_of (metric_tags m) = tagFor source g
            \<and> metric_time m = time
            \<and> distinct (map fst (metric_fields m))
            \<and> (\<forall>f. map_of (metric_fields m) f = map_of (rev rs) (g, f))) gs ms)"

section \<open>The groups that the code builds\<close>

definition measureAll :: "(counter \<Rightarrow> (string \<times> go_value) list) \<Rightarrow> counter list \<Rightarrow> fieldGrouping \<Rightarrow> fieldGrouping" where
  "measureAll rs = fold (\<lambda>metric. fold (\<lambda>(name, val). addCounterMeasurement metric name val) (rs metric))"

lemma measureAll_simps [simp]:
  "measureAll rs [] cf = cf"
  "measureAll rs (metric # metrics) cf =
     measureAll rs metrics (fold (\<lambda>(name, val). addCounterMeasurement metric name val) (rs metric) cf)"
  by (simp_all add: measureAll_def)

definition allReadings :: "(counter \<Rightarrow> (string \<times> go_value) list) \<Rightarrow> counter list \<Rightarrow> reading list" where
  "allReadings rs metrics = concat (map (\<lambda>metric. readingsOf metric (rs metric)) metrics)"

lemma measureAll_assign:
  "measureAll rs metrics cf = fold (\<lambda>(k, v). (case k of (g, f) \<Rightarrow> fields.assign g f) v) (allReadings rs metrics) cf"
proof -
  have one: "fold (\<lambda>(name, val). addCounterMeasurement metric name val) nvs cf
      = fold (\<lambda>(k, v). (case k of (g, f) \<Rightarrow> fields.assign g f) v) (readingsOf metric nvs) cf" for metric nvs cf
    by (induction nvs arbitrary: cf)
       (auto simp: readingsOf_def addCounterMeasurement_assign groupOf_def)
  show ?thesis
    by (induction metrics arbitrary: cf) (simp_all add: allReadings_def one)
qed

lemma fieldValue_measureAll:
  "fieldValue (measureAll rs metrics []) g f = map_of (rev (allReadings rs metrics)) (g, f)"
  using fields.pairs.lookup_fold [of "allReadings rs metrics" "[]" "(g, f)"]
  by (simp add: fieldValue_field measureAll_assign fields.field_def split: option.splits)

lemma wfGroups_measureAll: "wfGroups cf \<Longrightarrow> wfGroups (measureAll rs metrics cf)"
proof (induction metrics arbitrary: cf)
  case (Cons metric metrics)
  have "wfGroups cf \<Longrightarrow> wfGroups (fold (\<lambda>(name, val). addCounterMeasurement metric name val) nvs cf)" for nvs cf
    by (induction nvs arbitrary: cf) (auto intro: wfGroups_add)
  with Cons show ?case by simp
qed simp

lemma groups_measureAll:
  "fst ` set (measureAll rs metrics cf) = fst ` set cf \<union> (\<lambda>((g, f), v). g) ` set (allReadings rs metrics)"
proof -
  have "fst ` set (fold (\<lambda>(k, v). (case k of (g, f) \<Rightarrow> fields.assign g f) v) kvs cf)
      = fst ` set cf \<union> (\<lambda>((g, f), v). g) ` set kvs" for kvs and cf :: fieldGrouping
    by (induction kvs arbitrary: cf) (auto simp: fields.assign_def image_iff split: prod.splits)
  then show ?thesis by (simp add: measureAll_assign)
qed

lemma fields_of_group:
  "distinct (map fst cf) \<Longrightarrow> (g, fs) \<in> set cf \<Longrightarrow> map_of fs f = fieldValue cf g f"
  by (simp add: fieldValue_def)

lemma tagsOf_tagFor: "map_of (tagsOf h g) = tagFor (host_tag h) g"
  by (rule ext) (simp add: tagsOf_def tagFor_def)

lemma mset_map_permuted:
  "mset xs = mset (map f ys) \<Longrightarrow> \<exists>zs. mset zs = mset ys \<and> xs = map f zs"
proof (induction xs arbitrary: ys)
  case (Cons x xs)
  then have "x \<in> set (map f ys)" by (metis list.set_intros(1) mset_eq_setD)
  then obtain y where y: "y \<in> set ys" "x = f y" by auto
  then have "mset xs = mset (map f (remove1 y ys))"
    using Cons.prems by (simp add: image_mset_Diff) (metis add_mset_remove_trivial)
  from Cons.IH [OF this] obtain zs where "mset zs = mset (remove1 y ys)" "xs = map f zs" by blast
  with y show ?case by (intro exI [of _ "y # zs"]) simp
qed simp

lemma reports_measureAll:
  assumes "mset new = mset (map (metricOf h) (measureAll rs metrics []))"
  shows "reports (host_tag h) (host_timestamp h) (allReadings rs metrics) new"
proof -
  let ?cf = "measureAll rs metrics []"
  have wf: "wfGroups ?cf" by (simp add: wfGroups_measureAll)
  obtain cf where cf: "mset cf = mset ?cf" and new: "new = map (metricOf h) cf"
    using mset_map_permuted [OF assms] by blast
  have "distinct (map fst cf)"
    using wf mset_eq_imp_distinct_iff [of "map fst cf" "map fst ?cf"] cf by (simp add: wfGroups_def)
  moreover have "set (map fst cf) = (\<lambda>((g, f), v). g) ` set (allReadings rs metrics)"
    using mset_eq_setD [OF cf] groups_measureAll [of rs metrics "[]"] by simp
  moreover have "distinct (map fst fs) \<and> (\<forall>f. map_of fs f = map_of (rev (allReadings rs metrics)) (g, f))"
    if "(g, fs) \<in> set cf" for g fs
  proof -
    have "(g, fs) \<in> set ?cf" using that mset_eq_setD [OF cf] by simp
    then show ?thesis
      using wf fields_of_group [of ?cf g fs] by (auto simp: wfGroups_def fieldValue_measureAll)
  qed
  ultimately show ?thesis
    unfolding reports_def new
    by (intro exI [of _ "map fst cf"])
       (auto simp: list_all2_map1 list_all2_map2 metricOf_def tagsOf_tagFor intro!: list.rel_refl_strong)
qed

section \<open>Reading the counters\<close>

text \<open>
  \<open>answers J p x\<close>: from every state of the machine in which \<open>J\<close> holds, the call \<open>p\<close> returns
  \<open>x\<close>, an error or a value, and \<open>J\<close> holds again. \<open>J\<close> stands for the states between two
  samples, in which the values of the last one can be read.
\<close>

definition answers :: "('w \<Rightarrow> bool) \<Rightarrow> ('w, 'a) prog \<Rightarrow> go_error + 'a \<Rightarrow> bool" where
  "answers J p x \<longleftrightarrow> (\<forall>w. J w \<longrightarrow> (\<exists>w'. attemptP p w = Some (Ok x, w') \<and> J w'))"

text \<open>The clock and the order in which a map is walked do not disturb the sample.\<close>

definition undisturbed :: "'w platform \<Rightarrow> ('w \<Rightarrow> bool) \<Rightarrow> bool" where
  "undisturbed pf J \<longleftrightarrow> (\<forall>w. J w \<longrightarrow> J (snd (timeNow pf w)) \<and> (\<forall>n. J (snd (rangePerm pf n w))))"

text \<open>A single value: every reading of it has an outcome of which \<open>X\<close> holds.\<close>

definition givesValue :: "('w \<Rightarrow> bool) \<Rightarrow> ('w, 'a) prog \<Rightarrow> ('a \<Rightarrow> go_value) \<Rightarrow> (go_error + go_value \<Rightarrow> bool) \<Rightarrow> bool" where
  "givesValue J p f X \<longleftrightarrow> (\<forall>w. J w \<longrightarrow> (\<exists>x w'. attemptP p w = Some (Ok x, w') \<and> J w' \<and> X (map_sum id f x)))"

definition yieldsValue ::
    "'w platform \<Rightarrow> ('w \<Rightarrow> bool) \<Rightarrow> performanceQueryImpl \<Rightarrow> counter \<Rightarrow> (go_error + go_value \<Rightarrow> bool) \<Rightarrow> bool" where
  "yieldsValue pf J q metric X \<longleftrightarrow>
     (if useRawValue metric then givesValue J (GetRawCounterValue pf q (counterHandle metric)) IntValue X
      else givesValue J (GetFormattedCounterValueDouble pf q (counterHandle metric)) FloatValue X)"

text \<open>The outcome is the value, or one of the errors that mean that there is none.\<close>

definition available :: "go_value option \<Rightarrow> go_error + go_value \<Rightarrow> bool" where
  "available v x = (case x of Inl e \<Rightarrow> isKnownCounterDataError e \<and> v = None | Inr y \<Rightarrow> v = Some y)"

definition valueReadings :: "counter \<Rightarrow> go_value option \<Rightarrow> (string \<times> go_value) list" where
  "valueReadings metric v = (case v of None \<Rightarrow> [] | Some x \<Rightarrow> [(counter_instance metric, x)])"

definition yieldsArray ::
    "'w platform \<Rightarrow> ('w \<Rightarrow> bool) \<Rightarrow> performanceQueryImpl \<Rightarrow> counter \<Rightarrow> counterValue list \<Rightarrow> bool" where
  "yieldsArray pf J q metric vals \<longleftrightarrow>
     (if useRawValue metric
      then answers J (GetRawCounterArray pf q (counterHandle metric)) (Inr vals)
      else \<exists>dvs. answers J (GetFormattedCounterArrayDouble pf q (counterHandle metric)) (Inr dvs)
             \<and> vals = map (\<lambda>v. \<lparr>Name = Name v, Value = FloatValue (Value v)\<rparr>) dvs)"

text \<open>
  What a counter contributes. When wildcards are expanded it is the one value, under the
  counter's instance, and nothing when the value is not available for one of the known
  reasons; otherwise it is the wanted part of the array.
\<close>

definition contributes ::
    "'w platform \<Rightarrow> ('w \<Rightarrow> bool) \<Rightarrow> bool \<Rightarrow> performanceQueryImpl \<Rightarrow> counter \<Rightarrow> (string \<times> go_value) list \<Rightarrow> bool" where
  "contributes pf J expand q metric nvs \<longleftrightarrow>
     (if expand
      then \<exists>v. yieldsValue pf J q metric (available v) \<and> nvs = valueReadings metric v
      else \<exists>vals. yieldsArray pf J q metric vals \<and> nvs = arrayReadings metric vals)"

lemma answersE:
  assumes "answers J p x" and "J w"
  obtains w' where "attemptP p w = Some (Ok x, w')" and "J w'"
  using assms unfolding answers_def by blast

lemma attempt_readQuery:
  assumes "host key s = Some h" and "attemptP (p (host_query h)) (world s) = Some (Ok x, w)"
  shows "attemptP (readQuery key p) s = Some (Ok x, s\<lparr>world := w\<rparr>)"
  using assms
  by (auto simp: readQuery_def onHost_def machine_def attemptP_def split: option.splits result.splits)

lemma answers_readQuery:
  assumes "host key s = Some h" and "answers J (p (host_query h)) x" and "J (world s)"
  shows "\<exists>w. attemptP (readQuery key p) s = Some (Ok x, s\<lparr>world := w\<rparr>) \<and> J w"
  using answersE [OF assms(2,3)] attempt_readQuery [OF assms(1)] by metis

lemma attempt_bind_ret:
  "attemptP (bindP p (\<lambda>v. retP (f v))) s =
     map_option (\<lambda>(r, t). (case r of Ok x \<Rightarrow> Ok (map_sum id f x) | Err e \<Rightarrow> Err e | Panic q \<Rightarrow> Panic q, t))
       (attemptP p s)"
  by (simp add: attemptP_def bindP_def retP_def split: option.splits prod.splits result.splits)

lemma givesValue_readQuery:
  assumes "host key s = Some h" and "givesValue J (p (host_query h)) f X" and "J (world s)"
  shows "\<exists>x w. attemptP (bindP (readQuery key p) (\<lambda>y. retP (f y))) s = Some (Ok x, s\<lparr>world := w\<rparr>) \<and> J w \<and> X x"
proof -
  obtain x w where w: "attemptP (p (host_query h)) (world s) = Some (Ok x, w)" "J w" "X (map_sum id f x)"
    using assms(2,3) unfolding givesValue_def by blast
  then show ?thesis using attempt_readQuery [where p = p, OF assms(1) w(1)] by (auto simp: attempt_bind_ret)
qed

lemma readValue_yields:
  assumes "host key s = Some h" and "yieldsValue pf J (host_query h) metric X" and "J (world s)"
  shows "\<exists>x w. attemptP (readValue pf key metric) s = Some (Ok x, s\<lparr>world := w\<rparr>) \<and> J w \<and> X x"
  using givesValue_readQuery [where p = "\<lambda>q. GetRawCounterValue pf q (counterHandle metric)" and J = J, OF assms(1) _ assms(3)]
    givesValue_readQuery [where p = "\<lambda>q. GetFormattedCounterValueDouble pf q (counterHandle metric)" and J = J, OF assms(1) _ assms(3)]
    assms(2)
  by (simp add: readValue_def yieldsValue_def split: if_splits)

lemma readArray_yields:
  assumes "host key s = Some h" and "yieldsArray pf J (host_query h) metric vals" and "J (world s)"
  shows "\<exists>w. readArray pf key metric None s = Some (Ok (None, vals), s\<lparr>world := w\<rparr>) \<and> J w"
proof (cases "useRawValue metric")
  case True
  then have "answers J (GetRawCounterArray pf (host_query h) (counterHandle metric)) (Inr vals)"
    using assms(2) by (simp add: yieldsArray_def)
  from answers_readQuery [where p = "\<lambda>q. GetRawCounterArray pf q (counterHandle metric)", OF assms(1) this assms(3)] True show ?thesis
    by (auto simp: readArray_def bindP_def retP_def)
next
  case False
  then obtain dvs where dvs: "answers J (GetFormattedCounterArrayDouble pf (host_query h) (counterHandle metric)) (Inr dvs)"
    "vals = map (\<lambda>v. \<lparr>Name = Name v, Value = FloatValue (Value v)\<rparr>) dvs"
    using assms(2) by (auto simp: yieldsArray_def)
  from answers_readQuery [where p = "\<lambda>q. GetFormattedCounterArrayDouble pf q (counterHandle metric)", OF assms(1) this(1) assms(3)] dvs(2) False show ?thesis
    by (auto simp: readArray_def bindP_def retP_def)
qed

lemma hasPrefix_prefix: "hasPrefix s p = prefix p s"
  by (auto simp: hasPrefix_iff prefix_def)

lemma contains_sublist: "contains s t = sublist t s"
  by (auto simp: contains_iff sublist_def)

lemma shouldInclude_wanted: "shouldIncludeMetric metric cv = wanted metric (Name cv)"
  by (simp add: shouldIncludeMetric_def wanted_def contains_sublist)

lemma renamed_reportedName: "renamed metric cv = cv\<lparr>Name := reportedName metric (Name cv)\<rparr>"
  by (simp add: renamed_def reportedName_def hasPrefix_prefix)

lemma addValue_arrayReadings:
  "fold (addValue metric) vals cf
   = fold (\<lambda>(name, val). addCounterMeasurement metric name val) (arrayReadings metric vals) cf"
proof (induction vals arbitrary: cf)
  case (Cons cv vals)
  have "addValue metric cv cf = (if wanted metric (reportedName metric (Name cv))
      then addCounterMeasurement metric (reportedName metric (Name cv)) (Value cv) cf else cf)" for cf
    by (simp add: addValue_def shouldInclude_wanted renamed_reportedName Let_def)
  with Cons show ?case by (simp add: arrayReadings_def)
qed (simp add: arrayReadings_def)

lemma host_world_log [simp]: "host key (s\<lparr>world := w, loglines := l\<rparr>) = host key s"
  "host key (s\<lparr>world := w\<rparr>) = host key s" "host key (s\<lparr>loglines := l\<rparr>) = host key s"
  by (simp_all add: host_def)

text \<open>One counter, and the loop over the counters, while each contributes what \<open>nvs\<close> says.\<close>

lemma gatherMetric_contributes:
  assumes "host key s = Some h" and "J (world s)"
    and "contributes pf J (UseWildcardsExpansion (wpc s)) (host_query h) metric nvs"
    and "UseWildcardsExpansion (wpc s) \<or> err = None"
  shows "\<exists>w l err'. gatherMetric pf key metric err cf s =
             Some (Ok (err', fold (\<lambda>(name, val). addCounterMeasurement metric name val) nvs cf),
                   s\<lparr>world := w, loglines := l\<rparr>)
           \<and> J w \<and> (UseWildcardsExpansion (wpc s) \<or> err' = None)"
proof (cases "UseWildcardsExpansion (wpc s)")
  case True
  then obtain v where v: "yieldsValue pf J (host_query h) metric (available v)" "nvs = valueReadings metric v"
    using assms(3) by (auto simp: contributes_def)
  obtain x w where w: "attemptP (readValue pf key metric) s = Some (Ok x, s\<lparr>world := w\<rparr>)" "J w"
    "available v x"
    using readValue_yields [OF assms(1) v(1) assms(2)] by blast
  have same: "s\<lparr>world := w\<rparr> = s\<lparr>world := w, loglines := loglines s\<rparr>" by simp
  show ?thesis
  proof (cases x)
    case (Inl e)
    with v(2) w True show ?thesis
      by (auto simp: available_def valueReadings_def gatherMetric_defs prog_simps cfg_def skipWarning_def logWith_def)
  next
    case (Inr y)
    with v(2) w True same show ?thesis
      by (intro exI [of _ w] exI [of _ "loglines s"] exI [of _ None])
         (simp add: available_def valueReadings_def gatherMetric_defs prog_simps cfg_def)
  qed
next
  case False
  then obtain vals where vals: "yieldsArray pf J (host_query h) metric vals" "nvs = arrayReadings metric vals"
    using assms(3) by (auto simp: contributes_def)
  obtain w where w: "readArray pf key metric None s = Some (Ok (None, vals), s\<lparr>world := w\<rparr>)" "J w"
    using readArray_yields [OF assms(1) vals(1) assms(2)] by blast
  have same: "s\<lparr>world := w\<rparr> = s\<lparr>world := w, loglines := loglines s\<rparr>" by simp
  show ?thesis
    using vals(2) w False assms(4)
    by (intro exI [of _ w] exI [of _ "loglines s"] exI [of _ None])
       (simp add: gatherMetric_defs prog_simps cfg_def addValue_arrayReadings)
qed

lemma gatherMetrics_prefix:
  assumes "host key s = Some h" and "J (world s)"
    and "\<forall>metric \<in> set metrics.
           contributes pf J (UseWildcardsExpansion (wpc s)) (host_query h) metric (nvs metric)"
    and "UseWildcardsExpansion (wpc s) \<or> err = None"
  shows "\<exists>w l err'. gatherMetrics pf key (metrics @ rest) err cf s =
             gatherMetrics pf key rest err' (measureAll nvs metrics cf) (s\<lparr>world := w, loglines := l\<rparr>)
           \<and> J w \<and> (UseWildcardsExpansion (wpc s) \<or> err' = None)"
  using assms
proof (induction metrics arbitrary: s cf err)
  case Nil
  then show ?case
    by (intro exI [of _ "world s"] exI [of _ "loglines s"] exI [of _ err]) simp
next
  case (Cons metric metrics)
  obtain w l err' where step: "gatherMetric pf key metric err cf s =
      Some (Ok (err', fold (\<lambda>(name, val). addCounterMeasurement metric name val) (nvs metric) cf),
            s\<lparr>world := w, loglines := l\<rparr>)" "J w" "UseWildcardsExpansion (wpc s) \<or> err' = None"
    using gatherMetric_contributes [where J = J, OF Cons.prems(1,2) _ Cons.prems(4)] Cons.prems(3) by fastforce
  then show ?case
    using Cons.IH [of "s\<lparr>world := w, loglines := l\<rparr>" err'] Cons.prems by (simp add: bindP_def)
qed

lemma gatherMetrics_contributes:
  assumes "host key s = Some h" and "J (world s)"
    and "\<forall>metric \<in> set metrics.
           contributes pf J (UseWildcardsExpansion (wpc s)) (host_query h) metric (nvs metric)"
  shows "\<exists>w l. gatherMetrics pf key metrics None cf s =
           Some (Ok (measureAll nvs metrics cf), s\<lparr>world := w, loglines := l\<rparr>) \<and> J w"
  using gatherMetrics_prefix [OF assms, of None "[]" cf] by (auto simp: retP_def)

lemma range_permutes:
  assumes "fairRange pf"
  shows "mset (map (\<lambda>i. xs ! i) (fst (rangePerm pf (length xs) w))) = mset xs"
proof -
  have "distinct (fst (rangePerm pf (length xs) w))" "set (fst (rangePerm pf (length xs) w)) = {0..<length xs}"
    using assms unfolding fairRange_def by blast+
  then have "mset (fst (rangePerm pf (length xs) w)) = mset [0..<length xs]"
    by (metis distinct_upt set_eq_iff_mset_eq_distinct set_upt)
  then have "mset (map (\<lambda>i. xs ! i) (fst (rangePerm pf (length xs) w))) = mset (map (\<lambda>i. xs ! i) [0..<length xs])"
    by (metis mset_map)
  then show ?thesis by (simp only: map_nth)
qed

lemma emitGroup_each:
  assumes "hasCollect (wpc s)"
  shows "forP gs (emitGroup h) s = Some (Ok (), s\<lparr>emitted := emitted s @ map (metricOf h) gs\<rparr>)"
  using assms by (induction gs arbitrary: s) (simp_all add: prog_simps emitGroup_def)

lemma emitGroups_emits:
  assumes "fairRange pf" and "undisturbed pf J" and "J (world s)" and "hasCollect (wpc s)"
  shows "\<exists>t new. emitGroups pf h cf s = Some (Ok (), t) \<and> wpc t = wpc s \<and> J (world t)
           \<and> emitted t = emitted s @ new \<and> mset new = mset (map (metricOf h) cf)"
proof -
  obtain order w where range: "rangePerm pf (length cf) (world s) = (order, w)" by fastforce
  then have "J w" using assms(2,3) unfolding undisturbed_def by (metis snd_conv)
  moreover have "mset (map (metricOf h) (map (\<lambda>i. cf ! i) order)) = mset (map (metricOf h) cf)"
    using range_permutes [OF assms(1), of cf "world s"] range by (metis fst_conv mset_map)
  ultimately show ?thesis
    using assms(4) range by (simp add: emitGroups_def rangeGroups_def bindP_def emitGroup_each del: map_map mset_map)
qed

lemma gatherComputerCounters_reports:
  assumes "fairRange pf" and "undisturbed pf J" and "host key s = Some h" and "J (world s)"
    and "hasCollect (wpc s)"
    and "\<forall>metric \<in> set (host_counters h).
           contributes pf J (UseWildcardsExpansion (wpc s)) (host_query h) metric (nvs metric)"
  shows "\<exists>t new. gatherComputerCounters pf key s = Some (Ok (), t) \<and> wpc t = wpc s \<and> J (world t)
           \<and> emitted t = emitted s @ new
           \<and> reports (host_tag h) (host_timestamp h) (allReadings nvs (host_counters h)) new"
proof -
  let ?cf = "measureAll nvs (host_counters h) []"
  obtain w l where run: "gatherMetrics pf key (host_counters h) None [] s
      = Some (Ok ?cf, s\<lparr>world := w, loglines := l\<rparr>)" and w: "J w"
    using gatherMetrics_contributes [OF assms(3,4,6), of "[]"] by blast
  then have "\<exists>t new. emitGroups pf h ?cf (s\<lparr>world := w, loglines := l\<rparr>) = Some (Ok (), t)
      \<and> wpc t = wpc (s\<lparr>world := w, loglines := l\<rparr>) \<and> J (world t)
      \<and> emitted t = emitted (s\<lparr>world := w, loglines := l\<rparr>) @ new \<and> mset new = mset (map (metricOf h) ?cf)"
    using assms(5) by (intro emitGroups_emits [OF assms(1,2)]) simp_all
  then show ?thesis
    using run assms(3) reports_measureAll [of _ h nvs "host_counters h"]
    by (auto simp: gatherComputerCounters_def onHost_def bindP_def)
qed

subsection \<open>A sample\<close>

text \<open>A host with one counter, and a machine on which its value is 7, for the instance \<open>a\<close>.\<close>

definition sampleCounter :: counter where
  "sampleCounter = newCounter 1 ''p'' ''srv'' ''Disk'' ''*'' ''% Idle'' '''' False False"

definition sampleHost :: hostCountersInfo where
  "sampleHost = \<lparr>host_computer = ''srv'', host_tag = ''srv'', host_counters = [sampleCounter],
     host_query = \<lparr>maxBufferSize = 2048, queryHandle = 1\<rparr>, host_timestamp = 5\<rparr>"

definition sampleRuntime :: "bool \<Rightarrow> unit runtime" where
  "sampleRuntime expand = \<lparr>wpc = (NewWinPerfCounters True)\<lparr>UseWildcardsExpansion := expand,
       hostCounters := [(''srv'', sampleHost)]\<rparr>, world = (), loglines = [], emitted = []\<rparr>"

definition sampleArray :: "unit platform" where
  "sampleArray = samplePlatform AMD64
     [0x18,0x10,0,0,0,0,0,0, 0,0,0,0, 0,0,0,0, 7,0,0,0,0,0,0,0, 97,0,0,0] 28 1"

definition sampleValue :: "unit platform" where
  "sampleValue = samplePlatform AMD64 [0,0,0,0, 0,0,0,0, 7,0,0,0,0,0,0,0] 0 0"

lemma sampleArray_units: "unitsAt (mem sampleArray ()) 0x1018 ([97] @ [0])"
  by (simp add: sampleArray_def bytesAt_def le16_def)

lemma sampleArray_reads:
  assumes "initialBufferSize \<le> maxBufferSize q"
  shows "GetFormattedCounterArrayDouble sampleArray q handle () = Some (Ok [\<lparr>Name = ''a'', Value = 7\<rparr>], ())"
proof -
  have name: "utf16PtrToString (mem sampleArray ()) 0x1018 = ''a''"
    using utf16PtrToString_unitsAt [OF sampleArray_units]
    by (simp add: utf16ToString_def surrogate_def encodeRune_def char_of_def bit_0)
  then show ?thesis
    using assms
    by (simp add: GetFormattedCounterArrayDouble_def bufferLoop.simps initialBufferSize_def
        sampleArray_def samplePlatform_def pdhGetFormattedCounterArrayDouble_def itemsOf_def layout_simps
        fieldAddr_def loadPointer_def loadDouble_def validStatus_def bytesAt_def le64_def le32_def)
qed

lemma sampleArray_yields:
  assumes "initialBufferSize \<le> maxBufferSize q" and "\<not> useRawValue metric"
  shows "yieldsArray sampleArray (\<lambda>_. True) q metric [\<lparr>Name = ''a'', Value = FloatValue 7\<rparr>]"
  using sampleArray_reads [OF assms(1)] assms(2) by (simp add: yieldsArray_def answers_def attemptP_def)

lemma sampleHost_yields:
  "yieldsArray sampleArray (\<lambda>_. True) (host_query sampleHost) sampleCounter [\<lparr>Name = ''a'', Value = FloatValue 7\<rparr>]"
  by (rule sampleArray_yields)
     (simp_all add: sampleHost_def sampleCounter_def newCounter_def Let_def initialBufferSize_def)

lemma sampleValue_yields:
  "yieldsValue sampleValue (\<lambda>_. True) (host_query sampleHost) sampleCounter (available (Some (FloatValue 7)))"
proof -
  have "GetFormattedCounterValueDouble sampleValue (host_query sampleHost) 1 () = Some (Ok 7, ())"
    by (simp add: GetFormattedCounterValueDouble_def singleValue_def sampleValue_def samplePlatform_def
        pdhGetFormattedCounterValueDouble_def layout_simps fieldAddr_def loadDouble_def validStatus_def
        bytesAt_def le64_def le32_def)
  then show ?thesis
    by (auto simp: yieldsValue_def givesValue_def available_def attemptP_def sampleCounter_def newCounter_def Let_def)
qed

lemma fairRange_samples: "fairRange sampleArray" "fairRange sampleValue"
  by (simp_all add: sampleArray_def sampleValue_def)

lemma host_counters_sample: "host_counters sampleHost = [sampleCounter]"
  by (simp add: sampleHost_def)

lemma host_sample: "host ''srv'' (sampleRuntime expand) = Some sampleHost"
  by (simp add: host_def sampleRuntime_def)

lemma undisturbed_always [simp]: "undisturbed pf (\<lambda>_. True)"
  by (simp add: undisturbed_def)

lemma reports_single:
  assumes "reports source time rs new" and "(\<lambda>((g, f), v). g) ` set rs = {g}"
  obtains m where "new = [m]" and "metric_name m = group_name g" and "metric_time m = time"
    and "map_of (metric_tags m) = tagFor source g"
    and "\<And>f. map_of (metric_fields m) f = map_of (rev rs) (g, f)"
proof -
  obtain gs where gs: "distinct gs" "set gs = {g}" and all: "list_all2 (\<lambda>g m. metric_name m = group_name g
      \<and> map_of (metric_tags m) = tagFor source g \<and> metric_time m = time \<and> distinct (map fst (metric_fields m))
      \<and> (\<forall>f. map_of (metric_fields m) f = map_of (rev rs) (g, f))) gs new"
    using assms unfolding reports_def by auto
  have "gs = [g]" using gs by (cases gs; cases "tl gs") auto
  with all that show thesis by (auto simp: list_all2_Cons1)
qed

section \<open>Properties\<close>

text \<open>
  C10. Every wanted value is reported, and nothing else: when wildcards are not expanded, the
  callback is set and the query yields the values \<open>vals\<close> for each counter of the host,
  \<open>gatherComputerCounters\<close> succeeds, changes nothing of the collector and hands over exactly
  one entry for each group (measurement, instance, object) among the wanted values, with the
  object, the instance and the host's tag as its tags where they are not empty, the time of
  the sample, and for each field of the group the value read last.
\<close>

theorem gather_collects_arrays:
  assumes "fairRange pf" and "undisturbed pf J" and "host key s = Some h" and "J (world s)"
    and "hasCollect (wpc s)" and "\<not> UseWildcardsExpansion (wpc s)"
    and "\<forall>metric \<in> set (host_counters h). yieldsArray pf J (host_query h) metric (vals metric)"
  shows "\<exists>t new. gatherComputerCounters pf key s = Some (Ok (), t) \<and> wpc t = wpc s
           \<and> emitted t = emitted s @ new
           \<and> reports (host_tag h) (host_timestamp h)
               (allReadings (\<lambda>metric. arrayReadings metric (vals metric)) (host_counters h)) new"
proof -
  have "\<forall>metric \<in> set (host_counters h). contributes pf J (UseWildcardsExpansion (wpc s)) (host_query h) metric
      (arrayReadings metric (vals metric))"
    using assms(6,7) by (auto simp: contributes_def)
  from gatherComputerCounters_reports [OF assms(1-5) this] show ?thesis by blast
qed

theorem gather_collects_arrays_witness:
  "\<exists>t m. gatherComputerCounters sampleArray ''srv'' (sampleRuntime False) = Some (Ok (), t)
     \<and> emitted t = [m] \<and> metric_name m = ''win_perf_counters'' \<and> metric_time m = 5
     \<and> map_of (metric_fields m) ''Percent_Idle'' = Some (FloatValue 7)
     \<and> map_of (metric_tags m) ''instance'' = Some ''a''"
proof -
  let ?rs = "\<lambda>metric. arrayReadings metric [\<lparr>Name = ''a'', Value = FloatValue 7\<rparr>]"
  have "\<exists>t new. gatherComputerCounters sampleArray ''srv'' (sampleRuntime False) = Some (Ok (), t)
      \<and> wpc t = wpc (sampleRuntime False) \<and> emitted t = emitted (sampleRuntime False) @ new
      \<and> reports (host_tag sampleHost) (host_timestamp sampleHost) (allReadings ?rs (host_counters sampleHost)) new"
    by (rule gather_collects_arrays [where J = "\<lambda>_. True", OF _ _ host_sample])
       (simp_all add: fairRange_samples sampleHost_yields host_counters_sample sampleRuntime_def NewWinPerfCounters_def)
  then obtain t new where run: "gatherComputerCounters sampleArray ''srv'' (sampleRuntime False) = Some (Ok (), t)"
    "emitted t = emitted (sampleRuntime False) @ new"
    "reports (host_tag sampleHost) (host_timestamp sampleHost) (allReadings ?rs (host_counters sampleHost)) new"
    by blast
  show ?thesis
    by (rule reports_single [OF run(3), where g = "\<lparr>group_name = ''win_perf_counters'',
          group_instance = ''a'', group_objectName = ''Disk''\<rparr>"])
       (use run(1,2) in \<open>auto simp: allReadings_def readingsOf_def arrayReadings_def wanted_def sublist_def
          reportedName_def sampleHost_def sampleCounter_def newCounter_def Let_def sanitizedChars_Replace_def
          sanitizedPairs_def tagFor_def sampleRuntime_def append_eq_Cons_conv\<close>)
qed

text \<open>
  C17. The same when wildcards are expanded: each counter stands for one instance, and its value
  is reported under that instance; a counter whose value is not available for a known reason
  is left out, and the others are still reported.
\<close>

theorem gather_collects_values:
  assumes "fairRange pf" and "undisturbed pf J" and "host key s = Some h" and "J (world s)"
    and "hasCollect (wpc s)" and "UseWildcardsExpansion (wpc s)"
    and "\<forall>metric \<in> set (host_counters h). yieldsValue pf J (host_query h) metric (available (val metric))"
  shows "\<exists>t new. gatherComputerCounters pf key s = Some (Ok (), t) \<and> wpc t = wpc s
           \<and> emitted t = emitted s @ new
           \<and> reports (host_tag h) (host_timestamp h)
               (allReadings (\<lambda>metric. valueReadings metric (val metric)) (host_counters h)) new"
proof -
  have "\<forall>metric \<in> set (host_counters h). contributes pf J (UseWildcardsExpansion (wpc s)) (host_query h) metric
      (valueReadings metric (val metric))"
    using assms(6,7) by (auto simp: contributes_def)
  from gatherComputerCounters_reports [OF assms(1-5) this] show ?thesis by blast
qed

theorem gather_collects_values_witness:
  "\<exists>t m. gatherComputerCounters sampleValue ''srv'' (sampleRuntime True) = Some (Ok (), t)
     \<and> emitted t = [m] \<and> metric_name m = ''win_perf_counters'' \<and> metric_time m = 5
     \<and> map_of (metric_fields m) ''Percent_Idle'' = Some (FloatValue 7)
     \<and> map_of (metric_tags m) ''source'' = Some ''srv''"
proof -
  let ?rs = "\<lambda>metric. valueReadings metric (Some (FloatValue 7))"
  have "\<exists>t new. gatherComputerCounters sampleValue ''srv'' (sampleRuntime True) = Some (Ok (), t)
      \<and> wpc t = wpc (sampleRuntime True) \<and> emitted t = emitted (sampleRuntime True) @ new
      \<and> reports (host_tag sampleHost) (host_timestamp sampleHost) (allReadings ?rs (host_counters sampleHost)) new"
    by (rule gather_collects_values [where J = "\<lambda>_. True", OF _ _ host_sample])
       (simp_all add: fairRange_samples sampleValue_yields host_counters_sample sampleRuntime_def NewWinPerfCounters_def)
  then obtain t new where run: "gatherComputerCounters sampleValue ''srv'' (sampleRuntime True) = Some (Ok (), t)"
    "emitted t = emitted (sampleRuntime True) @ new"
    "reports (host_tag sampleHost) (host_timestamp sampleHost) (allReadings ?rs (host_counters sampleHost)) new"
    by blast
  show ?thesis
    by (rule reports_single [OF run(3), where g = "\<lparr>group_name = ''win_perf_counters'',
          group_instance = ''*'', group_objectName = ''Disk''\<rparr>"])
       (use run(1,2) in \<open>auto simp: allReadings_def readingsOf_def valueReadings_def sampleHost_def sampleCounter_def newCounter_def
          Let_def sanitizedChars_Replace_def sanitizedPairs_def tagFor_def sampleRuntime_def\<close>)
qed

text \<open>
  C32. One failing counter costs the host its whole sample: when wildcards are expanded and a
  counter's value cannot be read for any other than the known reasons,
  \<open>gatherComputerCounters\<close> returns that error, with the counter's path, and hands over
  nothing, not even what was read for the counters before it.
\<close>

theorem unknown_error_discards_sample:
  assumes "host key s = Some h" and "J (world s)" and "UseWildcardsExpansion (wpc s)"
    and "host_counters h = before @ metric # after"
    and "\<forall>c \<in> set before. contributes pf J True (host_query h) c (nvs c)"
    and "yieldsValue pf J (host_query h) metric (\<lambda>x. x = Inl e)" and "\<not> isKnownCounterDataError e"
  shows "\<exists>t. gatherComputerCounters pf key s =
             Some (Err (Errorf ''error while getting value for counter %q: %w''
               [AStr (counterPath metric)] (Some e)), t)
           \<and> wpc t = wpc s \<and> emitted t = emitted s"
proof -
  obtain w l err where pre: "gatherMetrics pf key (host_counters h) None [] s =
      gatherMetrics pf key (metric # after) err (measureAll nvs before []) (s\<lparr>world := w, loglines := l\<rparr>)"
    and w: "J w"
    using gatherMetrics_prefix [where J = J, OF assms(1,2), where metrics = before and err = None and cf = "[]"
        and pf = pf and nvs = nvs and rest = "metric # after"] assms(3-5)
    by (auto simp del: gatherMetrics.simps)
  let ?s = "s\<lparr>world := w, loglines := l\<rparr>"
  have "\<exists>w'. attemptP (readValue pf key metric) ?s = Some (Ok (Inl e), ?s\<lparr>world := w'\<rparr>) \<and> J w'"
    using readValue_yields [where J = J and s = ?s, OF _ assms(6)] assms(1) w by simp
  then show ?thesis
    using pre assms(1,3,7)
    by (auto simp: gatherComputerCounters_def onHost_def gatherMetric_defs prog_simps cfg_def valueError_def)
qed

theorem unknown_error_discards_sample_witness:
  "\<exists>t text. gatherComputerCounters (sampleValue\<lparr>PdhGetFormattedCounterValue := (\<lambda>h f p w. (0xC0000BBD, w))\<rparr>)
       ''srv'' (sampleRuntime True) =
     Some (Err (Errorf ''error while getting value for counter %q: %w'' [AStr ''p'']
       (Some (PdhError 0xC0000BBD text))), t)
   \<and> wpc t = wpc (sampleRuntime True) \<and> emitted t = []"
proof -
  let ?pf = "sampleValue\<lparr>PdhGetFormattedCounterValue := (\<lambda>h f p w. (0xC0000BBD, w))\<rparr>"
  let ?text = "fst (pdhFormatError ?pf 0xC0000BBD ())"
  let ?e = "PdhError 0xC0000BBD ?text"
  have "GetFormattedCounterValueDouble ?pf (host_query sampleHost) (counterHandle sampleCounter) () = Some (Err ?e, ())"
    by (simp add: GetFormattedCounterValueDouble_def singleValue_def sampleValue_def samplePlatform_def
        pdhGetFormattedCounterValueDouble_def failPdh_def newPdhError_def case_prod_unfold)
  then have "yieldsValue ?pf (\<lambda>_. True) (host_query sampleHost) sampleCounter (\<lambda>x. x = Inl ?e)"
    by (auto simp: yieldsValue_def givesValue_def attemptP_def sampleCounter_def newCounter_def Let_def)
  moreover have "counterPath sampleCounter = ''p''" by (simp add: sampleCounter_def newCounter_def Let_def)
  ultimately show ?thesis
    using unknown_error_discards_sample [where J = "\<lambda>_. True" and before = "[]" and after = "[]" and
        metric = sampleCounter and e = ?e and pf = ?pf, OF host_sample [of True]]
    by (simp add: host_counters_sample sampleRuntime_def isKnownCounterDataError_def) blast
qed

section \<open>Lost errors\<close>

text \<open>
  C34. An error of a formatted array is swallowed: when wildcards are not expanded and
  \<open>GetFormattedCounterArrayDouble\<close> fails for a counter, with any error at all, the loop goes
  on without the counter's values, does not return the error and does not log it, although
  for raw counters and for single values an unknown error ends the collection.
\<close>

theorem formatted_array_error_swallowed:
  assumes "host key s = Some h" and "\<not> UseWildcardsExpansion (wpc s)" and "\<not> useRawValue metric"
    and "GetFormattedCounterArrayDouble pf (host_query h) (counterHandle metric) (world s) = Some (Err e, w)"
  shows "gatherMetrics pf key (metric # metrics) None cf s = gatherMetrics pf key metrics None cf (s\<lparr>world := w\<rparr>)"
  using assms
  by (simp add: gatherMetric_defs readArray_def readQuery_def onHost_def machine_def prog_simps cfg_def)

theorem formatted_array_error_swallowed_witness:
  "gatherMetrics (samplePlatform AMD64 [] 4096 0) ''srv'' [sampleCounter] None [] (sampleRuntime False)
   = gatherMetrics (samplePlatform AMD64 [] 4096 0) ''srv'' [] None [] (sampleRuntime False)"
proof -
  have "GetFormattedCounterArrayDouble (samplePlatform AMD64 [] 4096 0) (host_query sampleHost) (counterHandle sampleCounter)
      (world (sampleRuntime False)) = Some (Err errBufferLimitReached, ())"
    by (simp add: GetFormattedCounterArrayDouble_def bufferLoop.simps sampleHost_def initialBufferSize_def
        samplePlatform_def pdhGetFormattedCounterArrayDouble_def)
  from formatted_array_error_swallowed [OF host_sample _ _ this, of "[]" "[]"] show ?thesis
    by (simp add: sampleRuntime_def sampleCounter_def newCounter_def Let_def NewWinPerfCounters_def)
qed

text \<open>
  C35. A raw counter's error spoils the formatted counters after it: the raw branch leaves its
  error in the variable that the formatted branch does not assign, so when a raw counter
  fails with a known data error, the formatted counter after it is skipped with that same
  error, and its values, although they were read, are not collected.
\<close>

theorem raw_error_spoils_formatted:
  assumes "host key s = Some h" and "\<not> UseWildcardsExpansion (wpc s)"
    and "useRawValue raw" and "\<not> useRawValue formatted" and "isKnownCounterDataError e"
    and "\<And>w. \<exists>w'. GetRawCounterArray pf (host_query h) (counterHandle raw) w = Some (Err e, w')"
    and "\<And>w. \<exists>w'. GetFormattedCounterArrayDouble pf (host_query h) (counterHandle formatted) w = Some (Ok vals, w')"
  shows "\<exists>t l1 l2. gatherMetrics pf key [raw, formatted] None cf s = Some (Ok cf, t)
           \<and> loglines t = loglines s @ [l1, l2]"
proof -
  have warn: "skipWarning metric e u = Some (Ok (), u\<lparr>loglines := loglines u @
      [Printf (tagged ''WARN'' (Log (wpc u)) @
         ''Error while getting value for counter %q, instance: %s, will skip metric: %v'')
         [AStr (counterPath metric), AStr (counter_instance metric), AErr e]]\<rparr>)" for metric and u :: "'a runtime"
    by (simp add: skipWarning_def logWith_def modifyP_def Logger_Warnf_def)
  obtain w1 where w1: "GetRawCounterArray pf (host_query h) (counterHandle raw) (world s) = Some (Err e, w1)"
    using assms(6) by blast
  obtain w2 where w2: "GetFormattedCounterArrayDouble pf (host_query h) (counterHandle formatted) w1 = Some (Ok vals, w2)"
    using assms(7) by blast
  show ?thesis
    using assms(1-5) w1 w2
    by (simp add: gatherMetric_defs readArray_def readQuery_def onHost_def machine_def prog_simps cfg_def warn)
qed

theorem raw_error_spoils_formatted_witness:
  "\<exists>t l1 l2. gatherMetrics (sampleArray\<lparr>PdhGetRawCounterArrayW := (\<lambda>h sz k buf w. (0x800007D5, sz, 0, w))\<rparr>)
       ''srv'' [sampleCounter\<lparr>useRawValue := True\<rparr>, sampleCounter] None [] (sampleRuntime False) = Some (Ok [], t)
     \<and> loglines t = loglines (sampleRuntime False) @ [l1, l2]"
proof -
  let ?pf = "sampleArray\<lparr>PdhGetRawCounterArrayW := (\<lambda>h sz k buf w. (0x800007D5, sz, 0, w))\<rparr>"
  let ?e = "fst (newPdhError ?pf 0x800007D5 ())"
  have raw: "GetRawCounterArray ?pf (host_query sampleHost) (counterHandle (sampleCounter\<lparr>useRawValue := True\<rparr>)) w
      = Some (Err ?e, ())" for w
    by (simp add: GetRawCounterArray_def bufferLoop.simps sampleHost_def initialBufferSize_def
        sampleArray_def samplePlatform_def pdhGetRawCounterArray_def failPdh_outcome)
  have same: "GetFormattedCounterArrayDouble ?pf q 1 () = GetFormattedCounterArrayDouble sampleArray q 1 ()"
    if "q = host_query sampleHost" for q
    using that
    by (simp add: GetFormattedCounterArrayDouble_def bufferLoop.simps sampleHost_def initialBufferSize_def
        sampleArray_def samplePlatform_def pdhGetFormattedCounterArrayDouble_def)
  obtain vals where vals: "GetFormattedCounterArrayDouble ?pf (host_query sampleHost) (counterHandle sampleCounter) w
      = Some (Ok vals, ())" for w
    using sampleHost_yields same
    by (fastforce simp: yieldsArray_def answers_def attemptP_def sampleCounter_def newCounter_def Let_def
        split: option.splits result.splits)
  have known: "isKnownCounterDataError ?e" by (simp add: isKnownCounterDataError_def)
  show ?thesis
    by (rule raw_error_spoils_formatted [OF host_sample _ _ _ known, where vals = vals])
       (use raw vals in \<open>simp_all add: sampleRuntime_def sampleCounter_def newCounter_def Let_def NewWinPerfCounters_def\<close>)
qed

end
