(* ===== verification/Goroutines.thy ===== *)
theory Goroutines
  imports Report "HOL-Library.Multiset_Order" "HOL-Library.Product_Lexorder"
begin

text \<open>
  The goroutines that \<open>Gather\<close> starts, one per host (\<open>win_perf_counters.go\<close>). Each is a
  machine with a program counter; a step is one call of the query, of the callback or of
  the logger. A schedule lets one goroutine after another make a step in any order. A
  goroutine that runs alone does what \<open>gatherHost\<close> says; every schedule ends; and whatever
  the schedule, all hosts are reported as if they had been collected one after another.
\<close>

section \<open>Goroutines\<close>

text \<open>
  Before its first statement; in the loop over the counters, with the start time, the
  counters that are left, \<open>err\<close> and the collected fields; in the loop over the groups; after
  the return of \<open>gatherComputerCounters\<close>; and after \<open>wg.Done()\<close>.
\<close>

datatype goroutine =
    Launched string
  | Reading string Time "counter list" "go_error option" fieldGrouping
  | Emitting string Time fieldGrouping
  | Closing string Time
  | Finished string

fun goStep :: "'w platform \<Rightarrow> goroutine \<Rightarrow> ('w, goroutine) rprog" where
  "goStep pf (Launched key) = onHost key (\<lambda>h.
     seqP (logWith (\<lambda>l. Logger_Debugf l ''Gathering from %s'' [AStr (host_computer h)])) (
     bindP (now pf) (\<lambda>start. retP (Reading key start (host_counters h) None []))))"
| "goStep pf (Reading key start (metric # metrics) err cf) =
     bindP (attemptP (gatherMetric pf key metric err cf))
       (case_sum (\<lambda>e. retP (Closing key start))
          (\<lambda>(err', cf'). retP (Reading key start metrics err' cf')))"
| "goStep pf (Reading key start [] err cf) =
     bindP (rangeGroups pf cf) (\<lambda>groups. retP (Emitting key start groups))"
| "goStep pf (Emitting key start (g # groups)) = onHost key (\<lambda>h.
     seqP (emitGroup h g) (retP (Emitting key start groups)))"
| "goStep pf (Emitting key start []) = retP (Closing key start)"
| "goStep pf (Closing key start) = onHost key (\<lambda>h.
     bindP (now pf) (\<lambda>end.
     seqP (logWith (\<lambda>l. Logger_Debugf l ''Gathering from %s finished in %v''
             [AStr (host_computer h), AInt (end - start)]))
       (retP (Finished key))))"
| "goStep pf (Finished key) = retP (Finished key)"

fun finished :: "goroutine \<Rightarrow> bool" where
  "finished (Finished key) = True"
| "finished _ = False"

text \<open>One step of some goroutine that has not finished.\<close>

inductive schedule ::
    "'w platform \<Rightarrow> goroutine list \<times> 'w runtime \<Rightarrow> goroutine list \<times> 'w runtime \<Rightarrow> bool"
  for pf :: "'w platform" where
  step: "i < length gs \<Longrightarrow> \<not> finished (gs ! i) \<Longrightarrow> goStep pf (gs ! i) s = Some (Ok g, t)
    \<Longrightarrow> schedule pf (gs, s) (gs[i := g], t)"

inductive_cases scheduleE: "schedule pf (gs, s) c"

text \<open>
  A whole call: what \<open>Gather\<close> does before it starts the goroutines, with the hosts it starts
  them for (none when an ignored error ended it), and the call with its goroutines in any
  order until \<open>wg.Wait()\<close> returns.
\<close>

definition launch :: "'w platform \<Rightarrow> ('w, string list option) rprog" where
  "launch pf =
     bindP (needsRefresh pf) (\<lambda>due.
     bindP (if due then refresh pf else retP True) (\<lambda>go_on.
     if \<not> go_on then retP None
     else
       bindP (rangeHosts pf) (\<lambda>keys.
       seqP (forP keys (collectHost pf)) (
       bindP (rangeHosts pf) (\<lambda>keys'. retP (Some keys'))))))"

inductive gatherRun :: "'w platform \<Rightarrow> 'w runtime \<Rightarrow> unit result \<Rightarrow> 'w runtime \<Rightarrow> bool"
  for pf :: "'w platform" where
  ended: "launch pf s = Some (Ok None, t) \<Longrightarrow> gatherRun pf s (Ok ()) t"
| failed: "launch pf s = Some (Err e, t) \<Longrightarrow> gatherRun pf s (Err e) t"
| panicked: "launch pf s = Some (Panic p, t) \<Longrightarrow> gatherRun pf s (Panic p) t"
| waited: "launch pf s = Some (Ok (Some keys), u) \<Longrightarrow> (schedule pf)\<^sup>*\<^sup>* (map Launched keys, u) (map Finished keys, t)
    \<Longrightarrow> gatherRun pf s (Ok ()) t"

inductive_cases gatherRunE: "gatherRun pf s r t"

text \<open>Calls one after another, each in some order of its goroutines.\<close>

inductive gatherRuns :: "'w platform \<Rightarrow> 'w runtime \<Rightarrow> unit result list \<Rightarrow> 'w runtime \<Rightarrow> bool"
  for pf :: "'w platform" where
  none: "gatherRuns pf s [] s"
| another: "gatherRuns pf s rs t \<Longrightarrow> gatherRun pf t r u \<Longrightarrow> gatherRuns pf s (rs @ [r]) u"

lemma Gather_launch:
  "Gather pf = bindP (launch pf) (case_option (retP ()) (\<lambda>keys. forP keys (gatherHost pf)))"
  unfolding Gather_def launch_def seqP_def bindP_assoc bindP_if bindP_retP option.case ..

section \<open>Programs that leave the collector alone\<close>

text \<open>The collector's own fields, the hosts among them, are only read while the goroutines run.\<close>

definition steady :: "('w, 'a) rprog \<Rightarrow> bool" where
  "steady p \<longleftrightarrow> (\<forall>s r t. p s = Some (r, t) \<longrightarrow> wpc t = wpc s)"

named_theorems steady_rules \<open>structural rules for programs that leave the collector alone\<close>

lemma steadyD: "steady p \<Longrightarrow> p s = Some (r, t) \<Longrightarrow> wpc t = wpc s"
  by (auto simp: steady_def)

lemma steady_basic [steady_rules]:
  "steady (retP a)" "steady (failP e)" "steady (panicP x)" "steady (cfg f)" "steady (logWith l)"
  "steady (machine p)" "steady (liftR q)" "steady (rangeGroups pf cf)" "steady (emitGroup h g)"
  by (auto simp: steady_def retP_def failP_def panicP_def cfg_def getP_def logWith_def modifyP_def
      machine_def liftR_def rangeGroups_def emitGroup_def Let_def split: prod.splits if_splits)

lemma steady_bindP [steady_rules]: "steady m \<Longrightarrow> (\<And>a. steady (f a)) \<Longrightarrow> steady (bindP m f)"
  unfolding steady_def bindP_def by (fastforce split: option.splits result.splits)

lemma steady_seqP [steady_rules]: "steady m \<Longrightarrow> steady k \<Longrightarrow> steady (seqP m k)"
  by (simp add: seqP_def steady_bindP)

lemma steady_attemptP [steady_rules]: "steady m \<Longrightarrow> steady (attemptP m)"
  unfolding steady_def attemptP_def by (fastforce split: option.splits result.splits)

lemma steady_forP [steady_rules]: "(\<And>x. steady (f x)) \<Longrightarrow> steady (forP xs f)"
  by (induction xs) (auto intro: steady_rules)

lemma steady_onHost [steady_rules]: "(\<And>h. steady (f h)) \<Longrightarrow> steady (onHost key f)"
  by (auto simp: steady_def onHost_def split: option.splits)

lemma steady_split [steady_rules]:
  "(c \<Longrightarrow> steady m) \<Longrightarrow> (\<not> c \<Longrightarrow> steady k) \<Longrightarrow> steady (if c then m else k)"
  "(\<And>a. steady (f1 a)) \<Longrightarrow> (\<And>b. steady (f2 b)) \<Longrightarrow> steady (case_sum f1 f2 x)"
  "steady m' \<Longrightarrow> (\<And>a. steady (f3 a)) \<Longrightarrow> steady (case_option m' f3 y)"
  "(\<And>a b. steady (f4 a b)) \<Longrightarrow> steady (case_prod f4 z)"
  by (auto split: sum.split option.split prod.split)

lemma steady_gathering [steady_rules]:
  "steady (now pf)" "steady (gatherMetric pf key metric err cf)" "steady (emitGroups pf h cf)"
  unfolding now_def gatherMetric_defs skipWarning_def readValue_def readArray_def readQuery_def emitGroups_def
  by (intro steady_rules)+

lemma steady_gatherMetrics [steady_rules]: "steady (gatherMetrics pf key metrics err cf)"
  by (induction metrics arbitrary: err cf) (auto intro: steady_rules)

lemma host_steady: "wpc t = wpc s \<Longrightarrow> host key t = host key s"
  by (simp add: host_def)

text \<open>What follows a steady program may rely on the collector as it was before it.\<close>

lemma bindP_steady_cong:
  assumes "steady m" and "\<And>a u. wpc u = wpc s \<Longrightarrow> f a u = g a u"
  shows "bindP m f s = bindP m g s"
  using steadyD [OF assms(1)] assms(2)
  by (auto simp: bindP_def split: option.splits result.splits)

section \<open>One goroutine alone\<close>

text \<open>What is left to do at a program point, as a program.\<close>

definition closing :: "'w platform \<Rightarrow> string \<Rightarrow> Time \<Rightarrow> ('w, unit) rprog" where
  "closing pf key start = onHost key (\<lambda>h.
     bindP (now pf) (\<lambda>end.
     seqP (logWith (\<lambda>l. Logger_Debugf l ''Gathering from %s finished in %v''
             [AStr (host_computer h), AInt (end - start)]))
       (retP ())))"

fun rest :: "'w platform \<Rightarrow> goroutine \<Rightarrow> ('w, unit) rprog" where
  "rest pf (Launched key) = gatherHost pf key"
| "rest pf (Reading key start metrics err cf) =
     bindP (attemptP (bindP (gatherMetrics pf key metrics err cf) (\<lambda>cf'. onHost key (\<lambda>h. emitGroups pf h cf'))))
       (\<lambda>_. closing pf key start)"
| "rest pf (Emitting key start groups) =
     bindP (onHost key (\<lambda>h. forP groups (emitGroup h))) (\<lambda>_. closing pf key start)"
| "rest pf (Closing key start) = closing pf key start"
| "rest pf (Finished key) = retP ()"

fun keyOf :: "goroutine \<Rightarrow> string" where
  "keyOf (Launched key) = key"
| "keyOf (Reading key start metrics err cf) = key"
| "keyOf (Emitting key start groups) = key"
| "keyOf (Closing key start) = key"
| "keyOf (Finished key) = key"

lemma onHost_some: "host key s = Some h \<Longrightarrow> onHost key f s = f h s"
  by (simp add: onHost_def)

lemma steady_goStep: "steady (goStep pf g)"
  by (cases "(pf, g)" rule: goStep.cases) (auto intro: steady_rules)

lemma onHost_steady: "host key s = Some h \<Longrightarrow> wpc u = wpc s \<Longrightarrow> onHost key f u = f h u"
  by (simp add: onHost_def host_def)

lemma gatherComputerCounters_steady:
  assumes "host key s = Some h" and "wpc u = wpc s"
  shows "gatherComputerCounters pf key u
    = bindP (gatherMetrics pf key (host_counters h) None []) (\<lambda>cf. onHost key (\<lambda>h. emitGroups pf h cf)) u"
proof -
  have "bindP (gatherMetrics pf key (host_counters h) None []) (\<lambda>cf. onHost key (\<lambda>h. emitGroups pf h cf)) u
      = bindP (gatherMetrics pf key (host_counters h) None []) (emitGroups pf h) u"
    by (rule bindP_steady_cong [OF steady_gatherMetrics]) (use assms in \<open>simp add: onHost_steady\<close>)
  then show ?thesis
    using assms by (simp add: gatherComputerCounters_def onHost_steady)
qed

lemma rest_launched:
  assumes "host key s = Some h"
  shows "rest pf (Launched key) s = bindP (goStep pf (Launched key)) (rest pf) s"
proof -
  let ?log = "logWith (\<lambda>l. Logger_Debugf l ''Gathering from %s'' [AStr (host_computer h)])"
  let ?close = "\<lambda>start. bindP (now pf) (\<lambda>end.
     seqP (logWith (\<lambda>l. Logger_Debugf l ''Gathering from %s finished in %v''
             [AStr (host_computer h), AInt (end - start)])) (retP ()))"
  have tail: "bindP (attemptP (gatherComputerCounters pf key)) (\<lambda>_. ?close start) u
      = rest pf (Reading key start (host_counters h) None []) u" if u: "wpc u = wpc s" for u start
  proof -
    have "attemptP (gatherComputerCounters pf key) u = attemptP (bindP (gatherMetrics pf key (host_counters h) None [])
        (\<lambda>cf. onHost key (\<lambda>h. emitGroups pf h cf))) u"
      by (simp add: attemptP_def gatherComputerCounters_steady [OF assms u])
    moreover have "steady (attemptP (bindP (gatherMetrics pf key (host_counters h) None [])
        (\<lambda>cf. onHost key (\<lambda>h. emitGroups pf h cf))))"
      by (intro steady_rules)
    then have "bindP (attemptP (bindP (gatherMetrics pf key (host_counters h) None [])
        (\<lambda>cf. onHost key (\<lambda>h. emitGroups pf h cf)))) (\<lambda>_. ?close start) u
      = bindP (attemptP (bindP (gatherMetrics pf key (host_counters h) None [])
        (\<lambda>cf. onHost key (\<lambda>h. emitGroups pf h cf)))) (\<lambda>_. closing pf key start) u"
      by (rule bindP_steady_cong) (use assms u in \<open>simp add: closing_def onHost_steady\<close>)
    ultimately show ?thesis by (simp add: bindP_def)
  qed
  have "rest pf (Launched key) s = bindP ?log (\<lambda>_. bindP (now pf) (\<lambda>start.
      bindP (attemptP (gatherComputerCounters pf key)) (\<lambda>_. ?close start))) s"
    using assms by (simp add: gatherHost_def onHost_some seqP_def)
  also have "\<dots> = bindP ?log (\<lambda>_. bindP (now pf) (\<lambda>start.
      rest pf (Reading key start (host_counters h) None []))) s"
    by (intro bindP_steady_cong steady_rules tail) simp
  also have "\<dots> = bindP (goStep pf (Launched key)) (rest pf) s"
    using assms by (simp add: onHost_def bindP_def seqP_def retP_def split: option.split result.split)
  finally show ?thesis .
qed

lemma emitGroup_returns: "\<exists>t. forP gs (emitGroup h) s = Some (Ok (), t)"
  by (induction gs arbitrary: s) (auto simp: prog_simps emitGroup_def)

lemma rest_range:
  assumes "host key s = Some h"
  shows "rest pf (Reading key start [] err cf) s = bindP (rangeGroups pf cf) (\<lambda>gs. rest pf (Emitting key start gs)) s"
proof -
  obtain gs u where range: "rangeGroups pf cf s = Some (Ok gs, u)"
    by (cases "rangePerm pf (length cf) (world s)") (simp add: rangeGroups_def)
  then have "wpc u = wpc s" using steadyD [OF steady_basic(8)] by blast
  moreover obtain t where "forP gs (emitGroup h) u = Some (Ok (), t)" using emitGroup_returns by blast
  ultimately show ?thesis
    using assms range by (simp add: onHost_steady emitGroups_def bindP_def attemptP_def retP_def)
qed

lemma rest_goStep:
  assumes "host (keyOf g) s = Some h" and "\<not> finished g"
  shows "rest pf g s = bindP (goStep pf g) (rest pf) s"
  using assms
proof (cases "(pf, g)" rule: goStep.cases)
  case (2 pf key start metric metrics err cf)
  then show ?thesis
    by (auto simp: bindP_def attemptP_def retP_def split: option.splits result.splits)
next
  case (3 pf key start err cf)
  then show ?thesis
    using assms(1) rest_range [of key s h pf start err cf]
    by (simp add: bindP_assoc bindP_retP del: rest.simps)
next
  case (4 pf key start g groups)
  then show ?thesis
    using assms(1) by (simp add: emitGroup_def onHost_def host_def prog_simps)
next
  case (6 pf key start)
  then show ?thesis
    using assms(1) by (simp add: closing_def onHost_some bindP_def seqP_def retP_def split: option.split result.split)
qed (auto simp: rest_launched onHost_some prog_simps simp del: rest.simps(1) goStep.simps(1))

text \<open>Every step makes progress, and belongs to the same host.\<close>

fun rank :: "goroutine \<Rightarrow> nat \<times> nat" where
  "rank (Launched key) = (4, 0)"
| "rank (Reading key start metrics err cf) = (3, length metrics)"
| "rank (Emitting key start groups) = (2, length groups)"
| "rank (Closing key start) = (1, 0)"
| "rank (Finished key) = (0, 0)"

lemma goStep_rank:
  assumes "goStep pf g s = Some (Ok g', t)" and "\<not> finished g"
  shows "rank g' < rank g \<and> keyOf g' = keyOf g"
  using assms
proof (cases "(pf, g)" rule: goStep.cases)
  case (2 pf key start metric metrics err cf)
  with assms(1) obtain a u where "attemptP (gatherMetric pf key metric err cf) s = Some (Ok a, u)" "case_sum (\<lambda>e. retP (Closing key start))
      (\<lambda>(err', cf'). retP (Reading key start metrics err' cf')) a u = Some (Ok g', t)"
    by (auto simp: bindP_eq_Ok)
  with 2 show ?thesis by (cases a) (auto simp: retP_def)
qed (auto simp: onHost_def seqP_def bindP_eq_Ok retP_def split: option.splits)

lemma schedule_single:
  "goStep pf g s = Some (Ok g', t) \<Longrightarrow> \<not> finished g \<Longrightarrow> schedule pf (xs @ g # ys, s) (xs @ g' # ys, t)"
  using schedule.step [of "length xs" "xs @ g # ys" pf s g' t] by simp

lemma finished_keyOf: "finished g \<Longrightarrow> g = Finished (keyOf g)"
  by (cases g) auto

text \<open>If what is left ends normally, the goroutine can run to its end, beside others at rest.\<close>

lemma rest_run:
  assumes "rest pf g s = Some (Ok (), t)" and "host (keyOf g) s = Some h"
  shows "(schedule pf)\<^sup>*\<^sup>* (xs @ g # ys, s) (xs @ Finished (keyOf g) # ys, t)"
  using assms
proof (induction "rank g" arbitrary: g s rule: less_induct)
  case less
  show ?case
  proof (cases "finished g")
    case True
    then show ?thesis using less.prems(1) by (cases g) (simp_all add: retP_def)
  next
    case False
    obtain g' u where step: "goStep pf g s = Some (Ok g', u)" and tail: "rest pf g' u = Some (Ok (), t)"
      using less.prems(1) rest_goStep [OF less.prems(2) False, of pf] by (auto simp: bindP_eq_Ok)
    have "host (keyOf g) u = Some h"
      using less.prems(2) steadyD [OF steady_goStep step] by (simp add: host_def)
    then have "(schedule pf)\<^sup>*\<^sup>* (xs @ g' # ys, u) (xs @ Finished (keyOf g) # ys, t)"
      using less.hyps [of g' u] goStep_rank [OF step False] tail by simp
    then show ?thesis
      using schedule_single [OF step False, of xs ys] by (rule converse_rtranclp_into_rtranclp [rotated])
  qed
qed

lemma run_rest:
  assumes "(schedule pf)\<^sup>*\<^sup>* ([g], s) c" and "host (keyOf g) s = Some h"
  shows "\<exists>g' t. c = ([g'], t) \<and> keyOf g' = keyOf g \<and> wpc t = wpc s \<and> rest pf g s = rest pf g' t"
  using assms(1)
proof (induction rule: rtranclp_induct)
  case (step c d)
  then obtain g' t where c: "c = ([g'], t)" "keyOf g' = keyOf g" "wpc t = wpc s" "rest pf g s = rest pf g' t"
    by blast
  from step.hyps(2) obtain g'' u where d: "d = ([g''], u)" and go: "goStep pf g' t = Some (Ok g'', u)" "\<not> finished g'"
    by (auto simp: c(1) elim!: scheduleE)
  have "host (keyOf g') t = Some h" using c assms(2) by (simp add: host_def)
  from rest_goStep [OF this go(2), of pf] go(1) have "rest pf g' t = rest pf g'' u" by (simp add: bindP_def)
  then show ?case
    using c d goStep_rank [OF go] steadyD [OF steady_goStep go(1)] by simp
qed simp

section \<open>Any schedule\<close>

lemma schedule_decreases:
  "schedule pf c d \<Longrightarrow> mset (map rank (fst d)) < mset (map rank (fst c))"
proof (induction rule: schedule.induct)
  case (step i gs s g t)
  then have "add_mset (rank g) (mset (map rank gs) - {#rank (gs ! i)#})
      < add_mset (rank (gs ! i)) (mset (map rank gs) - {#rank (gs ! i)#})"
    using goStep_rank [OF step(3,2)] by (intro add_mset_lt_left_lt) simp
  moreover have "rank (gs ! i) \<in># mset (map rank gs)" using step(1) by simp
  ultimately show ?case
    using step(1) by (simp add: map_update mset_update insert_DiffM del: mset_map)
qed

text \<open>
  The entries that a goroutine will still hand over, when its counters contribute what \<open>nvs\<close>
  says, and the program points it can be at.
\<close>

fun pending :: "hostCountersInfo \<Rightarrow> (counter \<Rightarrow> (string \<times> go_value) list) \<Rightarrow> goroutine \<Rightarrow> metric multiset" where
  "pending h nvs (Launched key) = mset (map (metricOf h) (measureAll nvs (host_counters h) []))"
| "pending h nvs (Reading key start metrics err cf) = mset (map (metricOf h) (measureAll nvs metrics cf))"
| "pending h nvs (Emitting key start groups) = mset (map (metricOf h) groups)"
| "pending h nvs _ = {#}"

fun onTrack :: "bool \<Rightarrow> hostCountersInfo \<Rightarrow> goroutine \<Rightarrow> bool" where
  "onTrack expand h (Reading key start metrics err cf) \<longleftrightarrow>
     set metrics \<subseteq> set (host_counters h) \<and> (expand \<or> err = None)"
| "onTrack expand h _ \<longleftrightarrow> True"

lemma now_returns:
  assumes "undisturbed pf J" and "J (world s)"
  shows "\<exists>t w. now pf s = Some (Ok t, s\<lparr>world := w\<rparr>) \<and> J w"
proof -
  obtain t w where "timeNow pf (world s) = (t, w)" by fastforce
  moreover from this have "J w" using assms unfolding undisturbed_def by (metis snd_conv)
  ultimately show ?thesis by (auto simp: now_def machine_def)
qed

lemma goStep_advances:
  assumes "fairRange pf" and "undisturbed pf J" and "J (world s)" and "hasCollect (wpc s)"
    and "host (keyOf g) s = Some h"
    and "\<forall>metric \<in> set (host_counters h).
           contributes pf J (UseWildcardsExpansion (wpc s)) (host_query h) metric (nvs metric)"
    and "onTrack (UseWildcardsExpansion (wpc s)) h g" and "\<not> finished g"
  shows "\<exists>g' t new. goStep pf g s = Some (Ok g', t) \<and> J (world t) \<and> emitted t = emitted s @ new
           \<and> onTrack (UseWildcardsExpansion (wpc s)) h g'
           \<and> pending h nvs g = mset new + pending h nvs g'"
  using assms(8)
proof (cases "(pf, g)" rule: goStep.cases)
  case (1 pf' key)
  let ?s = "s\<lparr>loglines := Logger_Debugf (Log (wpc s)) ''Gathering from %s'' [AStr (host_computer h)] (loglines s)\<rparr>"
  obtain t w where "now pf ?s = Some (Ok t, ?s\<lparr>world := w\<rparr>)" "J w"
    using now_returns [OF assms(2), of ?s] assms(3) by auto
  then show ?thesis using 1 assms(5) by (simp add: onHost_some logWith_def prog_simps)
next
  case (2 pf' key start metric metrics err cf)
  with assms(6,7) have c: "contributes pf J (UseWildcardsExpansion (wpc s)) (host_query h) metric (nvs metric)"
    and e: "UseWildcardsExpansion (wpc s) \<or> err = None" by auto
  have "host key s = Some h" using 2 assms(5) by simp
  from gatherMetric_contributes [where J = J, OF this assms(3) c e, of cf] 2 assms(7) show ?thesis
    by (auto simp: bindP_def attemptP_def retP_def)
next
  case (3 pf' key start err cf)
  obtain order w where range: "rangePerm pf (length cf) (world s) = (order, w)" by fastforce
  then have "J w" using assms(2,3) unfolding undisturbed_def by (metis snd_conv)
  moreover have "mset (map (metricOf h) (map (\<lambda>i. cf ! i) order)) = mset (map (metricOf h) cf)"
    using range_permutes [OF assms(1), of cf "world s"] range by (metis fst_conv mset_map)
  ultimately show ?thesis
    using 3 range by (simp add: rangeGroups_def bindP_def retP_def del: map_map mset_map)
next
  case (4 pf' key start g' groups)
  then show ?thesis using assms(4,5) by (simp add: onHost_some emitGroup_def prog_simps assms(3))
next
  case (5 pf' key start)
  then show ?thesis using assms(3) by (simp add: retP_def)
next
  case (6 pf' key start)
  obtain t w where "now pf s = Some (Ok t, s\<lparr>world := w\<rparr>)" "J w"
    using now_returns [OF assms(2,3)] by blast
  then show ?thesis using 6 assms(5) by (simp add: onHost_some logWith_def prog_simps)
qed simp

text \<open>
  The sample of every host in \<open>keys\<close> can be read: each of its counters contributes what \<open>nvs\<close>
  says, however the reads of different hosts follow one another.
\<close>

definition readable ::
    "'w platform \<Rightarrow> ('w \<Rightarrow> bool) \<Rightarrow> (string \<Rightarrow> counter \<Rightarrow> (string \<times> go_value) list) \<Rightarrow> string list
     \<Rightarrow> 'w runtime \<Rightarrow> bool" where
  "readable pf J nvs keys s \<longleftrightarrow> fairRange pf \<and> undisturbed pf J \<and> J (world s) \<and> hasCollect (wpc s)
     \<and> (\<forall>key \<in> set keys. \<exists>h. host key s = Some h
          \<and> (\<forall>metric \<in> set (host_counters h).
               contributes pf J (UseWildcardsExpansion (wpc s)) (host_query h) metric (nvs key metric)))"

lemma readable_host:
  "readable pf J nvs keys s \<Longrightarrow> key \<in> set keys \<Longrightarrow> \<exists>h. host key s = Some h"
  by (auto simp: readable_def)

abbreviation "left nvs s g \<equiv> pending (the (host (keyOf g) s)) (nvs (keyOf g)) g"

definition underWay ::
    "'w platform \<Rightarrow> ('w \<Rightarrow> bool) \<Rightarrow> (string \<Rightarrow> counter \<Rightarrow> (string \<times> go_value) list) \<Rightarrow> string list
     \<Rightarrow> 'w runtime \<Rightarrow> goroutine list \<times> 'w runtime \<Rightarrow> bool" where
  "underWay pf J nvs keys s = (\<lambda>(gs, t). map keyOf gs = keys \<and> wpc t = wpc s \<and> J (world t)
     \<and> (\<forall>g \<in> set gs. onTrack (UseWildcardsExpansion (wpc s)) (the (host (keyOf g) s)) g)
     \<and> (\<exists>new. emitted t = emitted s @ new
          \<and> mset new + (\<Sum>g \<leftarrow> gs. left nvs s g) = (\<Sum>key \<leftarrow> keys. left nvs s (Launched key))))"

lemma underWay_start: "readable pf J nvs keys s \<Longrightarrow> underWay pf J nvs keys s (map Launched keys, s)"
  by (auto simp: underWay_def readable_def comp_def)

lemma schedule_split:
  assumes "schedule pf (gs, s) d"
  obtains xs g ys g' t where "gs = xs @ g # ys" and "d = (xs @ g' # ys, t)"
    and "\<not> finished g" and "goStep pf g s = Some (Ok g', t)"
proof -
  from assms obtain i g t where i: "i < length gs" "\<not> finished (gs ! i)" "goStep pf (gs ! i) s = Some (Ok g, t)"
    and d: "d = (gs[i := g], t)" by (rule scheduleE)
  then show thesis
    using that [of "take i gs" "gs ! i" "drop (Suc i) gs" g t]
    by (simp add: id_take_nth_drop [symmetric] upd_conv_take_nth_drop)
qed

lemma readable_step:
  assumes "readable pf J nvs keys s" and "underWay pf J nvs keys s (gs, t)"
    and "g \<in> set gs" and "\<not> finished g"
  shows "\<exists>g' u new. goStep pf g t = Some (Ok g', u) \<and> J (world u) \<and> emitted u = emitted t @ new
           \<and> onTrack (UseWildcardsExpansion (wpc s)) (the (host (keyOf g) s)) g'
           \<and> left nvs s g = mset new + pending (the (host (keyOf g) s)) (nvs (keyOf g)) g'"
proof -
  have "keyOf g \<in> set keys" using assms(2,3) by (auto simp: underWay_def)
  then obtain h where h: "host (keyOf g) s = Some h" "\<forall>metric \<in> set (host_counters h).
      contributes pf J (UseWildcardsExpansion (wpc s)) (host_query h) metric (nvs (keyOf g) metric)"
    using assms(1) by (auto simp: readable_def)
  have "wpc t = wpc s" "J (world t)" "onTrack (UseWildcardsExpansion (wpc s)) h g"
    using assms(2,3) h(1) by (auto simp: underWay_def)
  with goStep_advances [of pf J t g h "nvs (keyOf g)"] assms(1,4) h show ?thesis
    by (simp add: readable_def host_def)
qed

lemma underWay_step:
  assumes "readable pf J nvs keys s" and "underWay pf J nvs keys s c" and "schedule pf c d"
  shows "underWay pf J nvs keys s d"
proof -
  obtain gs t where c: "c = (gs, t)" by fastforce
  from assms(3) [unfolded c] obtain xs g ys g' u where gs: "gs = xs @ g # ys" and d: "d = (xs @ g' # ys, u)"
    and go: "\<not> finished g" "goStep pf g t = Some (Ok g', u)" by (rule schedule_split)
  obtain new where step: "J (world u)" "emitted u = emitted t @ new"
    "onTrack (UseWildcardsExpansion (wpc s)) (the (host (keyOf g) s)) g'"
    "left nvs s g = mset new + pending (the (host (keyOf g) s)) (nvs (keyOf g)) g'"
    using readable_step [OF assms(1) assms(2) [unfolded c], of g] go gs by auto
  have "keyOf g' = keyOf g" "wpc u = wpc t"
    using goStep_rank [OF go(2,1)] steadyD [OF steady_goStep go(2)] by auto
  then show ?thesis
    using assms(2) step by (auto simp: underWay_def c d gs ac_simps)
qed

lemma underWay_reached:
  assumes "readable pf J nvs keys s" and "(schedule pf)\<^sup>*\<^sup>* (map Launched keys, s) c"
  shows "underWay pf J nvs keys s c"
  using assms(2)
  by (induction rule: rtranclp_induct)
     (auto intro: underWay_start underWay_step assms(1))

lemma underWay_stuck:
  assumes "readable pf J nvs keys s" and "underWay pf J nvs keys s (gs, t)" and "\<nexists>d. schedule pf (gs, t) d"
  shows "gs = map Finished keys"
proof -
  have "finished g" if g: "g \<in> set gs" for g
  proof (rule ccontr)
    assume unfinished: "\<not> finished g"
    then obtain g' u where "goStep pf g t = Some (Ok g', u)" using readable_step [OF assms(1,2) g] by blast
    moreover obtain xs ys where "gs = xs @ g # ys" using g by (auto simp: in_set_conv_decomp)
    ultimately show False using assms(3) schedule_single [of pf g t g' u xs ys] unfinished by blast
  qed
  then have "map (\<lambda>g. Finished (keyOf g)) gs = map id gs"
    using finished_keyOf by (intro map_cong) auto
  then show ?thesis using assms(2) by (auto simp: underWay_def comp_def)
qed

lemma underWay_reports:
  assumes "readable pf J nvs keys s" and "underWay pf J nvs keys s (map Finished keys, t)"
  shows "wpc t = wpc s
       \<and> (\<exists>new part. emitted t = emitted s @ new \<and> mset new = (\<Sum>key \<leftarrow> keys. mset (part key))
            \<and> (\<forall>key \<in> set keys. \<exists>h. host key s = Some h \<and>
                 reports (host_tag h) (host_timestamp h) (allReadings (nvs key) (host_counters h)) (part key)))"
proof -
  let ?part = "\<lambda>key. map (metricOf (the (host key s))) (measureAll (nvs key) (host_counters (the (host key s))) [])"
  obtain new where new: "emitted t = emitted s @ new" "wpc t = wpc s"
    "mset new + (\<Sum>g \<leftarrow> map Finished keys. left nvs s g) = (\<Sum>key \<leftarrow> keys. left nvs s (Launched key))"
    using assms(2) unfolding underWay_def by blast
  moreover have "(\<Sum>g \<leftarrow> map Finished keys. left nvs s g) = {#}" by (induction keys) auto
  ultimately have "mset new = (\<Sum>key \<leftarrow> keys. mset (?part key))" by simp
  moreover have "\<exists>h. host key s = Some h \<and>
      reports (host_tag h) (host_timestamp h) (allReadings (nvs key) (host_counters h)) (?part key)"
    if key: "key \<in> set keys" for key
  proof -
    obtain h where "host key s = Some h" using readable_host [OF assms(1) key] by blast
    then show ?thesis using reports_measureAll [of "?part key" h "nvs key" "host_counters h"] by simp
  qed
  ultimately show ?thesis
    using new(1,2) by (intro conjI exI [of _ new] exI [of _ ?part]) auto
qed

lemma no_infinite_schedule: "wfp (\<lambda>d c. schedule pf c d)"
proof -
  have "wf {(d, c). schedule pf c d}"
    by (rule wf_subset [OF wf_inv_image [OF wf_less_multiset, of "\<lambda>c. mset (map rank (fst c))"]])
       (use schedule_decreases in \<open>auto simp: inv_image_def simp del: mset_map\<close>)
  then show ?thesis by (simp add: wfp_def)
qed

lemma schedule_completes: "\<exists>d. (schedule pf)\<^sup>*\<^sup>* c d \<and> (\<nexists>e. schedule pf d e)"
proof (induction c rule: wfp_induct_rule [OF no_infinite_schedule [of pf]])
  case (1 c)
  show ?case
  proof (cases "\<exists>d. schedule pf c d")
    case True
    with 1 show ?thesis by (meson converse_rtranclp_into_rtranclp)
  qed blast
qed

text \<open>Running the goroutines one after another, in the order of the map, is one of the schedules.\<close>

lemma steady_gatherHost: "steady (gatherHost pf key)"
  unfolding gatherHost_def gatherComputerCounters_def by (intro steady_rules)

lemma sequential_run:
  assumes "\<forall>key \<in> set keys. host key s \<noteq> None" and "forP keys (gatherHost pf) s = Some (Ok (), t)"
  shows "(schedule pf)\<^sup>*\<^sup>* (map Finished done_keys @ map Launched keys, s) (map Finished (done_keys @ keys), t)"
  using assms
proof (induction keys arbitrary: s done_keys)
  case (Cons key keys)
  obtain u where u: "gatherHost pf key s = Some (Ok (), u)" "forP keys (gatherHost pf) u = Some (Ok (), t)"
    using Cons.prems(2) by (auto simp: bindP_eq_Ok)
  obtain h where "host key s = Some h" using Cons.prems(1) by auto
  then have "(schedule pf)\<^sup>*\<^sup>* (map Finished done_keys @ Launched key # map Launched keys, s)
      (map Finished done_keys @ Finished key # map Launched keys, u)"
    using rest_run [of pf "Launched key" s u h] u(1) by simp
  moreover have "(schedule pf)\<^sup>*\<^sup>* (map Finished done_keys @ Finished key # map Launched keys, u)
      (map Finished (done_keys @ key # keys), t)"
    using Cons.IH [of u "done_keys @ [key]"] Cons.prems(1) steadyD [OF steady_gatherHost u(1)] u(2)
    by (simp add: host_def)
  ultimately show ?case by (auto intro: rtranclp_trans)
qed (simp add: retP_def)

text \<open>The sample host, read by one goroutine.\<close>

lemma readable_sample:
  "readable sampleArray (\<lambda>_. True) (\<lambda>_ metric. arrayReadings metric [\<lparr>Name = ''a'', Value = FloatValue 7\<rparr>])
     [''srv''] (sampleRuntime False)"
proof -
  have "contributes sampleArray (\<lambda>_. True) False (host_query sampleHost) sampleCounter
      (arrayReadings sampleCounter [\<lparr>Name = ''a'', Value = FloatValue 7\<rparr>])"
    using sampleHost_yields by (auto simp: contributes_def)
  then show ?thesis
    using host_sample [of False]
    by (simp add: readable_def fairRange_samples host_counters_sample)
       (simp add: sampleRuntime_def NewWinPerfCounters_def)
qed

lemma sample_schedule:
  "\<exists>t. (schedule sampleArray)\<^sup>*\<^sup>* ([Launched ''srv''], sampleRuntime False) ([Finished ''srv''], t)
     \<and> (\<nexists>d. schedule sampleArray ([Finished ''srv''], t) d)"
proof -
  obtain gs t where run: "(schedule sampleArray)\<^sup>*\<^sup>* (map Launched [''srv''], sampleRuntime False) (gs, t)"
    and stuck: "\<nexists>d. schedule sampleArray (gs, t) d"
    using schedule_completes [of sampleArray "(map Launched [''srv''], sampleRuntime False)"] by auto
  then have "gs = map Finished [''srv'']"
    using underWay_stuck [OF readable_sample underWay_reached [OF readable_sample]] by blast
  with run stuck show ?thesis by auto
qed

section \<open>Properties\<close>




text \<open>
  C4. The order of the goroutines does not matter: when the samples of the hosts can be read,
  every schedule that cannot go on has run all goroutines to their end, has left the
  collector as it was, and has handed over, mixed in some order, for each host exactly the
  report of its sample, one entry per group with its tags and its latest values.
\<close>

theorem schedules_report:
  assumes "readable pf J nvs keys s" and "(schedule pf)\<^sup>*\<^sup>* (map Launched keys, s) (gs, t)"
    and "\<nexists>d. schedule pf (gs, t) d"
  shows "gs = map Finished keys \<and> wpc t = wpc s
       \<and> (\<exists>new part. emitted t = emitted s @ new \<and> mset new = (\<Sum>key \<leftarrow> keys. mset (part key))
            \<and> (\<forall>key \<in> set keys. \<exists>h. host key s = Some h \<and>
                 reports (host_tag h) (host_timestamp h) (allReadings (nvs key) (host_counters h)) (part key)))"
proof -
  have inv: "underWay pf J nvs keys s (gs, t)" using assms(1,2) by (rule underWay_reached)
  then have fin: "gs = map Finished keys" using underWay_stuck [OF assms(1) _ assms(3)] by blast
  with inv underWay_reports [OF assms(1), of t] show ?thesis by blast
qed

theorem schedules_report_witness:
  "\<exists>t m. (schedule sampleArray)\<^sup>*\<^sup>* (map Launched [''srv''], sampleRuntime False) ([Finished ''srv''], t)
     \<and> emitted t = [m] \<and> metric_time m = 5 \<and> map_of (metric_fields m) ''Percent_Idle'' = Some (FloatValue 7)"
proof -
  let ?rs = "\<lambda>metric. arrayReadings metric [\<lparr>Name = ''a'', Value = FloatValue 7\<rparr>]"
  obtain t where run: "(schedule sampleArray)\<^sup>*\<^sup>* (map Launched [''srv''], sampleRuntime False) ([Finished ''srv''], t)"
    and stuck: "\<nexists>d. schedule sampleArray ([Finished ''srv''], t) d"
    using sample_schedule by auto
  from schedules_report [OF readable_sample run stuck] obtain new part where
    "emitted t = emitted (sampleRuntime False) @ new" and new: "mset new = mset (part ''srv'')"
    and part: "reports (host_tag sampleHost) (host_timestamp sampleHost)
      (allReadings ?rs (host_counters sampleHost)) (part ''srv'')"
    using host_sample [of False] by auto
  then have emitted: "emitted t = new" by (simp add: sampleRuntime_def)
  show ?thesis
    by (rule reports_single [OF part, where g = "\<lparr>group_name = ''win_perf_counters'',
          group_instance = ''a'', group_objectName = ''Disk''\<rparr>"])
       (use run emitted new in \<open>auto simp: allReadings_def readingsOf_def arrayReadings_def wanted_def sublist_def
          reportedName_def sampleHost_def sampleCounter_def newCounter_def Let_def sanitizedChars_Replace_def
          sanitizedPairs_def append_eq_Cons_conv\<close>)
qed

text \<open>
  Collecting the hosts one after another is one of the schedules: when the bodies of the
  goroutines, run in the order in which the map is walked, end normally, the same end is
  reached by a schedule of the goroutines.
\<close>

theorem sequential_is_a_schedule:
  assumes "\<forall>key \<in> set keys. host key s \<noteq> None" and "forP keys (gatherHost pf) s = Some (Ok (), t)"
  shows "(schedule pf)\<^sup>*\<^sup>* (map Launched keys, s) (map Finished keys, t)"
  using sequential_run [OF assms, of "[]"] by simp

theorem sequential_is_a_schedule_witness:
  "\<exists>t. (schedule sampleArray)\<^sup>*\<^sup>* (map Launched [''srv''], sampleRuntime False) (map Finished [''srv''], t)"
proof -
  obtain t where "gatherHost sampleArray ''srv'' (sampleRuntime False) = Some (Ok (), t)"
    using sample_schedule run_rest [OF _ , of sampleArray "Launched ''srv''" "sampleRuntime False"]
      host_sample [of False] by (fastforce simp: retP_def)
  then have "forP [''srv''] (gatherHost sampleArray) (sampleRuntime False) = Some (Ok (), t)"
    by (simp add: prog_simps)
  from sequential_is_a_schedule [OF _ this] host_sample [of False] show ?thesis by auto
qed

end
