(* ===== verification/Cycle.thy ===== *)
theory Cycle
  imports Goroutines Parsing
begin

text \<open>
  Whole calls of \<open>Gather\<close> (\<open>win_perf_counters.go\<close>): between two refreshes, where every host is
  sampled and then reported, and the first call, which creates the configured counters.
\<close>

section \<open>Sampling the hosts\<close>

text \<open>
  The hosts can be sampled: \<open>K D\<close> holds of the states of the machine in which the queries of
  the hosts \<open>D\<close> have been sampled. Collecting the data of a host adds it to them, at a time of
  which \<open>T\<close> holds, Windows' time of the sample or the clock's; when all hosts have been
  sampled, each of their counters contributes what \<open>nvs\<close> says.
\<close>

definition collects ::
    "'w platform \<Rightarrow> bool \<Rightarrow> (string set \<Rightarrow> 'w \<Rightarrow> bool) \<Rightarrow> (Time \<Rightarrow> bool) \<Rightarrow> string \<Rightarrow> performanceQueryImpl \<Rightarrow> bool" where
  "collects pf useTime K T key q \<longleftrightarrow> (\<forall>D w. K D w \<longrightarrow>
     (if useTime \<and> IsVistaOrNewer pf
      then \<exists>t w'. CollectDataWithTime pf q w = Some (Ok (t, None), w') \<and> T t \<and> K (insert key D) w'
      else T (fst (timeNow pf w)) \<and> (\<exists>w'. CollectData pf q w = Some (Ok (), w') \<and> K (insert key D) w')))"

definition samplable ::
    "'w platform \<Rightarrow> (string set \<Rightarrow> 'w \<Rightarrow> bool) \<Rightarrow> (string \<Rightarrow> Time \<Rightarrow> bool)
     \<Rightarrow> (string \<Rightarrow> counter \<Rightarrow> (string \<times> go_value) list) \<Rightarrow> 'w runtime \<Rightarrow> bool" where
  "samplable pf K T nvs s \<longleftrightarrow> fairRange pf \<and> (\<forall>D. undisturbed pf (K D)) \<and> K {} (world s)
     \<and> (\<forall>key h. host key s = Some h \<longrightarrow>
          collects pf (UsePerfCounterTime (wpc s)) K (T key) key (host_query h)
        \<and> (\<forall>metric \<in> set (host_counters h).
             contributes pf (K (fst ` set (hostCounters (wpc s)))) (UseWildcardsExpansion (wpc s))
               (host_query h) metric (nvs key metric)))"

text \<open>
  The states in which only the times of the samples of the hosts \<open>D\<close> have changed, to times of
  which \<open>T\<close> holds.
\<close>

definition restamped :: "(string \<Rightarrow> Time \<Rightarrow> bool) \<Rightarrow> string set \<Rightarrow> 'w runtime \<Rightarrow> 'w runtime \<Rightarrow> bool" where
  "restamped T D s t \<longleftrightarrow> sameSetup s t
     \<and> (\<forall>key h. host key s = Some h \<longrightarrow> (\<exists>ts. host key t = Some (h\<lparr>host_timestamp := ts\<rparr>)
          \<and> (if key \<in> D then T key ts else ts = host_timestamp h)))"

lemma sameSetup_fields:
  assumes "sameSetup s t"
  shows "UsePerfCounterTime (wpc t) = UsePerfCounterTime (wpc s)"
    and "UseWildcardsExpansion (wpc t) = UseWildcardsExpansion (wpc s)"
    and "hasCollect (wpc t) = hasCollect (wpc s)"
proof -
  have "f ((wpc t)\<lparr>hostCounters := []\<rparr>) = f ((wpc s)\<lparr>hostCounters := []\<rparr>)" for f :: "WinPerfCounters \<Rightarrow> bool"
    using assms by (simp only: sameSetup_def)
  from this [of UsePerfCounterTime] this [of UseWildcardsExpansion] this [of hasCollect]
  show "UsePerfCounterTime (wpc t) = UsePerfCounterTime (wpc s)"
    "UseWildcardsExpansion (wpc t) = UseWildcardsExpansion (wpc s)"
    "hasCollect (wpc t) = hasCollect (wpc s)" by simp_all
qed

lemma restamped_refl: "wpc t = wpc s \<Longrightarrow> emitted t = emitted s \<Longrightarrow> restamped T {} s t"
  by (simp add: restamped_def sameSetup_def host_def)

lemma restamped_trans:
  assumes "restamped T D s t" and "restamped T D' t u"
  shows "restamped T (D \<union> D') s u"
proof -
  have "\<exists>ts. host key u = Some (h\<lparr>host_timestamp := ts\<rparr>) \<and> (if key \<in> D \<union> D' then T key ts else ts = host_timestamp h)"
    if h: "host key s = Some h" for key h
  proof -
    obtain a where a: "host key t = Some (h\<lparr>host_timestamp := a\<rparr>)" "if key \<in> D then T key a else a = host_timestamp h"
      using assms(1) h unfolding restamped_def by blast
    obtain b where "host key u = Some (h\<lparr>host_timestamp := a\<rparr>\<lparr>host_timestamp := b\<rparr>)"
      "if key \<in> D' then T key b else b = host_timestamp (h\<lparr>host_timestamp := a\<rparr>)"
      using assms(2) a(1) unfolding restamped_def by blast
    then show ?thesis using a(2) by (intro exI [of _ b]) (auto split: if_splits)
  qed
  then show ?thesis using assms sameSetup_trans by (auto simp: restamped_def)
qed

lemma restamped_None: "restamped T D s t \<Longrightarrow> host key t = None \<longleftrightarrow> host key s = None"
  unfolding restamped_def sameSetup_def host_def map_of_eq_None_iff by (metis list.set_map)

lemma restamped_setTimestamp:
  assumes "host key s = Some h" and "T key ts"
  shows "restamped T {key} s ((setHost key (h\<lparr>host_timestamp := ts\<rparr>) s)\<lparr>world := w\<rparr>)"
proof -
  have "sameSetup s (setHost key (h\<lparr>host_timestamp := ts\<rparr>) s)"
    using assms(1) by (intro sameSetup_setHost) simp
  then show ?thesis using assms by (auto simp: restamped_def sameSetup_def host_setHost)
qed

lemma collectHost_samples:
  assumes "host key s = Some h" and "\<forall>D. undisturbed pf (K D)" and "K D (world s)"
    and "collects pf (UsePerfCounterTime (wpc s)) K (T key) key (host_query h)"
  shows "\<exists>t. collectHost pf key s = Some (Ok (), t) \<and> K (insert key D) (world t) \<and> restamped T {key} s t"
proof (cases "UsePerfCounterTime (wpc s) \<and> IsVistaOrNewer pf")
  case True
  then obtain ts w where "CollectDataWithTime pf (host_query h) (world s) = Some (Ok (ts, None), w)"
    and w: "T key ts" "K (insert key D) w"
    using assms(3,4) unfolding collects_def by meson
  then have "collectHost pf key s = Some (Ok (), setHost key (h\<lparr>host_timestamp := ts\<rparr>) (s\<lparr>world := w\<rparr>))"
    using True assms(1)
    by (simp add: collectHost_def setTimestamp_def readQuery_def onHost_def machine_def cfg_def prog_simps)
  then show ?thesis
    using restamped_setTimestamp [where T = T, OF assms(1) w(1), of w] w(2) by (auto simp: setHost_world)
next
  case False
  obtain ts w1 where time: "timeNow pf (world s) = (ts, w1)" by fastforce
  then have w1: "now pf s = Some (Ok ts, s\<lparr>world := w1\<rparr>)" by (simp add: now_def machine_def)
  have "K D w1" using time assms(2,3) unfolding undisturbed_def by (metis snd_conv)
  then obtain w where "CollectData pf (host_query h) w1 = Some (Ok (), w)" and w: "K (insert key D) w"
    using False assms(4) unfolding collects_def by meson
  have ts: "T key ts" using False assms(3,4) time unfolding collects_def by (metis fst_conv)
  have "collectHost pf key s
      = bindP (now pf) (\<lambda>t. seqP (setTimestamp key t) (readQuery key (CollectData pf))) s"
    using False by (auto simp: collectHost_def cfg_def bindP_def getP_def)
  then have "collectHost pf key s = Some (Ok (), (setHost key (h\<lparr>host_timestamp := ts\<rparr>) s)\<lparr>world := w\<rparr>)"
    using assms(1) w1 \<open>CollectData pf (host_query h) w1 = Some (Ok (), w)\<close>
    by (simp add: setTimestamp_def readQuery_def onHost_def machine_def prog_simps host_setHost setHost_world)
  then show ?thesis
    using restamped_setTimestamp [where T = T, OF assms(1) ts, of w] w by auto
qed

lemma forP_collectHost:
  assumes "\<forall>D. undisturbed pf (K D)" and "K D (world s)"
    and "\<forall>key \<in> set keys. \<exists>h. host key s = Some h
           \<and> collects pf (UsePerfCounterTime (wpc s)) K (T key) key (host_query h)"
  shows "\<exists>t. forP keys (collectHost pf) s = Some (Ok (), t) \<and> K (set keys \<union> D) (world t)
           \<and> restamped T (set keys) s t"
  using assms(2,3)
proof (induction keys arbitrary: s D)
  case Nil
  then show ?case by (simp add: retP_def restamped_refl)
next
  case (Cons key keys)
  then obtain h where "host key s = Some h" "collects pf (UsePerfCounterTime (wpc s)) K (T key) key (host_query h)" by auto
  from collectHost_samples [where K = K and T = T, OF this(1) assms(1) Cons.prems(1) this(2)] obtain u where
    u: "collectHost pf key s = Some (Ok (), u)" "K (insert key D) (world u)" "restamped T {key} s u" by blast
  then have same: "UsePerfCounterTime (wpc u) = UsePerfCounterTime (wpc s)"
    by (simp add: restamped_def sameSetup_fields)
  have "\<forall>key \<in> set keys. \<exists>h. host key u = Some h
      \<and> collects pf (UsePerfCounterTime (wpc u)) K (T key) key (host_query h)"
  proof
    fix k
    assume "k \<in> set keys"
    then obtain h' where "host k s = Some h'" "collects pf (UsePerfCounterTime (wpc s)) K (T k) k (host_query h')"
      using Cons.prems(2) by auto
    then show "\<exists>h. host k u = Some h \<and> collects pf (UsePerfCounterTime (wpc u)) K (T k) k (host_query h)"
      using u(3) same by (fastforce simp: restamped_def)
  qed
  from Cons.IH [OF u(2) this] obtain t where
    "forP keys (collectHost pf) u = Some (Ok (), t)" "K (set keys \<union> insert key D) (world t)"
    "restamped T (set keys) u t" by blast
  then show ?case using u restamped_trans [OF u(3)] by (auto simp: bindP_def)
qed

section \<open>Reporting the hosts\<close>

lemma gatherHost_readable:
  assumes "readable pf J nvs [key] s"
  shows "\<exists>t. gatherHost pf key s = Some (Ok (), t) \<and> wpc t = wpc s \<and> J (world t)"
proof -
  obtain gs t where run: "(schedule pf)\<^sup>*\<^sup>* (map Launched [key], s) (gs, t)" and stuck: "\<nexists>d. schedule pf (gs, t) d"
    using schedule_completes [of pf "(map Launched [key], s)"] by auto
  have way: "underWay pf J nvs [key] s (gs, t)" using assms run by (rule underWay_reached)
  have gs: "gs = map Finished [key]" using assms way stuck by (rule underWay_stuck)
  obtain h where "host key s = Some h" using assms by (auto simp: readable_def)
  with run_rest [of pf "Launched key" s "(gs, t)" h] run gs have "gatherHost pf key s = Some (Ok (), t)"
    by (simp add: retP_def)
  then show ?thesis using way by (auto simp: underWay_def)
qed

lemma forP_gatherHost:
  assumes "readable pf J nvs keys s"
  shows "\<exists>t. forP keys (gatherHost pf) s = Some (Ok (), t)"
  using assms
proof (induction keys arbitrary: s)
  case (Cons key keys)
  then have "readable pf J nvs [key] s" by (simp add: readable_def)
  then obtain u where u: "gatherHost pf key s = Some (Ok (), u)" "wpc u = wpc s" "J (world u)"
    using gatherHost_readable by blast
  then have "readable pf J nvs keys u"
    using Cons.prems by (simp add: readable_def host_def)
  from Cons.IH [OF this] u(1) show ?case by (auto simp: bindP_def)
qed (simp add: retP_def)

text \<open>The reports of the given hosts, as they are in the state \<open>t\<close>, mixed in some order.\<close>

definition hostReports ::
    "(string \<Rightarrow> counter \<Rightarrow> (string \<times> go_value) list) \<Rightarrow> string list \<Rightarrow> 'w runtime \<Rightarrow> metric list \<Rightarrow> bool" where
  "hostReports nvs keys t new \<longleftrightarrow> (\<exists>part. mset new = (\<Sum>key \<leftarrow> keys. mset (part key))
     \<and> (\<forall>key \<in> set keys. \<exists>h. host key t = Some h
          \<and> reports (host_tag h) (host_timestamp h) (allReadings (nvs key) (host_counters h)) (part key)))"

lemma hostReports_mset: "mset keys = mset keys' \<Longrightarrow> hostReports nvs keys t new = hostReports nvs keys' t new"
  using mset_eq_setD [of keys keys']
  by (simp add: hostReports_def sum_mset_sum_list [symmetric])

text \<open>A host without counters reports nothing.\<close>

lemma hostReports_filter:
  assumes "hostReports nvs keys t new" and "\<And>key h. host key t = Some h \<Longrightarrow> \<not> P key \<Longrightarrow> host_counters h = []"
  shows "hostReports nvs (filter P keys) t new"
proof -
  obtain part where new: "mset new = (\<Sum>key \<leftarrow> keys. mset (part key))"
    and part: "\<forall>key \<in> set keys. \<exists>h. host key t = Some h
      \<and> reports (host_tag h) (host_timestamp h) (allReadings (nvs key) (host_counters h)) (part key)"
    using assms(1) unfolding hostReports_def by blast
  have "part key = []" if "key \<in> set keys" "\<not> P key" for key
    using part that assms(2) by (fastforce simp: reports_def allReadings_def)
  then have "(\<Sum>key \<leftarrow> keys. mset (part key)) = (\<Sum>key \<leftarrow> filter P keys. mset (part key))"
    by (induction keys) auto
  then show ?thesis using new part unfolding hostReports_def by (intro exI [of _ part]) simp
qed

lemma forP_gatherHost_reports:
  assumes "readable pf J nvs keys s"
  shows "\<exists>t new. forP keys (gatherHost pf) s = Some (Ok (), t) \<and> wpc t = wpc s
           \<and> J (world t) \<and> emitted t = emitted s @ new \<and> hostReports nvs keys t new"
proof -
  obtain t where run: "forP keys (gatherHost pf) s = Some (Ok (), t)" using forP_gatherHost [OF assms] by blast
  have hosts: "\<forall>key \<in> set keys. host key s \<noteq> None" using assms by (auto simp: readable_def)
  have "(schedule pf)\<^sup>*\<^sup>* (map Launched keys, s) (map Finished keys, t)"
    using sequential_run [OF hosts run, of "[]"] by simp
  with assms have way: "underWay pf J nvs keys s (map Finished keys, t)" by (rule underWay_reached)
  then have J: "J (world t)" by (simp add: underWay_def)
  from underWay_reports [OF assms way] obtain new part where t: "wpc t = wpc s" "emitted t = emitted s @ new"
    and new: "mset new = (\<Sum>key \<leftarrow> keys. mset (part key))"
      "\<forall>key \<in> set keys. \<exists>h. host key s = Some h \<and>
         reports (host_tag h) (host_timestamp h) (allReadings (nvs key) (host_counters h)) (part key)" by blast
  have "host key t = host key s" for key using t(1) by (simp add: host_def)
  with new have "hostReports nvs keys t new" unfolding hostReports_def by (intro exI [of _ part]) simp
  then show ?thesis using run t J by blast
qed

lemma rangeHosts_permutes:
  assumes "fairRange pf" and "undisturbed pf J" and "J (world s)"
  shows "\<exists>keys w. rangeHosts pf s = Some (Ok keys, s\<lparr>world := w\<rparr>) \<and> J w
           \<and> mset keys = mset (map fst (hostCounters (wpc s)))"
proof -
  let ?keys = "map fst (hostCounters (wpc s))"
  obtain order w where perm: "rangePerm pf (length ?keys) (world s) = (order, w)" by fastforce
  then have "J w" using assms(2,3) unfolding undisturbed_def by (metis snd_conv)
  moreover have "mset (map (\<lambda>i. ?keys ! i) order) = mset ?keys"
    using range_permutes [OF assms(1), of ?keys "world s"] perm by simp
  ultimately show ?thesis
    using perm by (intro exI [of _ "map (\<lambda>i. ?keys ! i) order"] exI [of _ w]) (simp add: rangeHosts_def)
qed

text \<open>The part of \<open>Gather\<close> that every call goes through.\<close>

definition gatherHosts :: "'w platform \<Rightarrow> ('w, unit) rprog" where
  "gatherHosts pf =
     bindP (rangeHosts pf) (\<lambda>keys.
     seqP (forP keys (collectHost pf)) (
     bindP (rangeHosts pf) (\<lambda>keys'. forP keys' (gatherHost pf))))"

lemma samplable_readable:
  assumes "samplable pf K T nvs s" and "hasCollect (wpc s)" and "restamped T D s t"
    and "K (fst ` set (hostCounters (wpc s))) (world t)" and "set keys \<subseteq> fst ` set (hostCounters (wpc s))"
  shows "readable pf (K (fst ` set (hostCounters (wpc s)))) nvs keys t"
proof -
  have same: "UseWildcardsExpansion (wpc t) = UseWildcardsExpansion (wpc s)" "hasCollect (wpc t) = hasCollect (wpc s)"
    using assms(3) sameSetup_fields [of s t] by (simp_all add: restamped_def)
  have "\<exists>h. host key t = Some h \<and> (\<forall>metric \<in> set (host_counters h).
      contributes pf (K (fst ` set (hostCounters (wpc s)))) (UseWildcardsExpansion (wpc t))
        (host_query h) metric (nvs key metric))" if key: "key \<in> set keys" for key
  proof -
    have "key \<in> fst ` set (hostCounters (wpc s))" using key assms(5) by blast
    then obtain h where h: "host key s = Some h" unfolding host_def by (metis map_of_eq_None_iff not_None_eq)
    then obtain ts where "host key t = Some (h\<lparr>host_timestamp := ts\<rparr>)"
      using assms(3) unfolding restamped_def by blast
    then show ?thesis using assms(1) h same by (simp add: samplable_def)
  qed
  then show ?thesis using assms(1,2,4) same by (simp add: readable_def samplable_def)
qed

text \<open>The first loop samples every host once, whatever the order.\<close>

lemma collectHosts_sample:
  assumes sam: "samplable pf K T nvs s"
  defines "all \<equiv> fst ` set (hostCounters (wpc s))"
  shows "\<exists>u. bindP (rangeHosts pf) (\<lambda>keys. forP keys (collectHost pf)) s = Some (Ok (), u)
           \<and> K all (world u) \<and> restamped T all s u"
proof -
  have K: "fairRange pf" "\<And>D. undisturbed pf (K D)" "K {} (world s)" using sam by (auto simp: samplable_def)
  obtain keys w where r: "rangeHosts pf s = Some (Ok keys, s\<lparr>world := w\<rparr>)" "K {} w"
    "mset keys = mset (map fst (hostCounters (wpc s)))"
    using rangeHosts_permutes [where J = "K {}", OF K] by blast
  have keys: "set keys = all" using mset_eq_setD [OF r(3)] by (simp add: all_def)
  have "\<exists>h. host key s = Some h \<and> collects pf (UsePerfCounterTime (wpc s)) K (T key) key (host_query h)"
    if key: "key \<in> set keys" for key
  proof -
    obtain h where "host key s = Some h"
      using key keys unfolding host_def all_def by (metis map_of_eq_None_iff not_None_eq)
    then show ?thesis using sam by (simp add: samplable_def)
  qed
  then have "\<exists>u. forP keys (collectHost pf) (s\<lparr>world := w\<rparr>) = Some (Ok (), u)
      \<and> K (set keys \<union> {}) (world u) \<and> restamped T (set keys) (s\<lparr>world := w\<rparr>) u"
    using K(2) r(2) by (intro forP_collectHost) simp_all
  then show ?thesis using r(1) keys by (auto simp: bindP_def restamped_def sameSetup_def)
qed

lemma restamped_all:
  assumes "restamped T (fst ` set (hostCounters (wpc s))) s t"
  shows "case host key s of None \<Rightarrow> host key t = None
           | Some h \<Rightarrow> \<exists>ts. T key ts \<and> host key t = Some (h\<lparr>host_timestamp := ts\<rparr>)"
proof (cases "host key s")
  case None
  then show ?thesis using restamped_None [OF assms] by simp
next
  case (Some h)
  then have all: "key \<in> fst ` set (hostCounters (wpc s))"
    by (auto simp: host_def dest: map_of_SomeD intro: rev_image_eqI)
  obtain ts where "host key t = Some (h\<lparr>host_timestamp := ts\<rparr>)"
    "if key \<in> fst ` set (hostCounters (wpc s)) then T key ts else ts = host_timestamp h"
    using assms Some unfolding restamped_def by blast
  then show ?thesis unfolding if_P [OF all] using Some by auto
qed

lemma gatherHosts_reports:
  assumes sam: "samplable pf K T nvs s" and "hasCollect (wpc s)"
  shows "\<exists>t new. gatherHosts pf s = Some (Ok (), t) \<and> emitted t = emitted s @ new
           \<and> hostReports nvs (map fst (hostCounters (wpc s))) t new
           \<and> (\<forall>key. case host key s of None \<Rightarrow> host key t = None
                | Some h \<Rightarrow> \<exists>ts. T key ts \<and> host key t = Some (h\<lparr>host_timestamp := ts\<rparr>))"
proof -
  let ?all = "fst ` set (hostCounters (wpc s))"
  obtain u where run: "bindP (rangeHosts pf) (\<lambda>keys. forP keys (collectHost pf)) s = Some (Ok (), u)"
    and u: "K ?all (world u)" "restamped T ?all s u" using collectHosts_sample [OF sam] by blast
  then have names: "map fst (hostCounters (wpc u)) = map fst (hostCounters (wpc s))"
    and quiet: "emitted u = emitted s" by (simp_all add: restamped_def sameSetup_def)
  have "fairRange pf" "undisturbed pf (K ?all)" using sam by (auto simp: samplable_def)
  from rangeHosts_permutes [OF this u(1)] obtain keys w where r: "rangeHosts pf u = Some (Ok keys, u\<lparr>world := w\<rparr>)" "K ?all w"
    "mset keys = mset (map fst (hostCounters (wpc s)))"
    unfolding names by blast
  have "readable pf (K ?all) nvs keys (u\<lparr>world := w\<rparr>)"
  proof (rule samplable_readable [OF sam assms(2)])
    show "restamped T ?all s (u\<lparr>world := w\<rparr>)" using u(2) by (simp add: restamped_def sameSetup_def)
    show "set keys \<subseteq> ?all" using mset_eq_setD [OF r(3)] by simp
  qed (use r(2) in simp)
  from forP_gatherHost_reports [OF this] obtain t new where
    t: "forP keys (gatherHost pf) (u\<lparr>world := w\<rparr>) = Some (Ok (), t)" "wpc t = wpc u"
      "emitted t = emitted s @ new" "hostReports nvs keys t new" using quiet by auto
  have "gatherHosts pf s = seqP (bindP (rangeHosts pf) (\<lambda>keys. forP keys (collectHost pf)))
      (bindP (rangeHosts pf) (\<lambda>keys'. forP keys' (gatherHost pf))) s"
    by (simp add: gatherHosts_def seqP_def bindP_assoc)
  also have "\<dots> = Some (Ok (), t)" using run r(1) t(1) by (simp add: seqP_def bindP_def)
  finally have "gatherHosts pf s = Some (Ok (), t)" .
  moreover have "hostReports nvs (map fst (hostCounters (wpc s))) t new"
    using t(4) hostReports_mset [OF r(3)] by blast
  moreover have "host key t = host key u" for key using t(2) by (simp add: host_def)
  then have "\<forall>key. case host key s of None \<Rightarrow> host key t = None
      | Some h \<Rightarrow> \<exists>ts. T key ts \<and> host key t = Some (h\<lparr>host_timestamp := ts\<rparr>)"
    using restamped_all [OF u(2)] by presburger
  ultimately show ?thesis using t(3) by blast
qed

section \<open>The first call\<close>

text \<open>Every host can be sampled for the first time.\<close>

definition firstSample :: "'w platform \<Rightarrow> 'w runtime \<Rightarrow> bool" where
  "firstSample pf s \<longleftrightarrow>
     (\<forall>key h w. host key s = Some h \<longrightarrow> (\<exists>w'. CollectData pf (host_query h) w = Some (Ok (), w')))"

lemma collectFirst_ok:
  assumes "firstSample pf s" and "\<forall>key \<in> set keys. host key s \<noteq> None"
  shows "\<exists>w. collectFirst pf keys s = Some (Ok True, s\<lparr>world := w\<rparr>)"
  using assms
proof (induction keys arbitrary: s)
  case Nil
  then show ?case by (intro exI [of _ "world s"]) (simp add: retP_def)
next
  case (Cons key keys)
  then obtain h where h: "host key s = Some h" by auto
  obtain w where w: "CollectData pf (host_query h) (world s) = Some (Ok (), w)"
    using Cons.prems(1) h unfolding firstSample_def by blast
  have "\<exists>w'. collectFirst pf keys (s\<lparr>world := w\<rparr>) = Some (Ok True, (s\<lparr>world := w\<rparr>)\<lparr>world := w'\<rparr>)"
    using Cons.prems by (intro Cons.IH) (simp_all add: firstSample_def)
  then show ?case
    using h w by (auto simp: readQuery_def onHost_def machine_def prog_simps)
qed

lemma cleanQueries_none:
  assumes "fairRange pf" and "hostCounters (wpc s) = []"
  shows "cleanQueries pf s = Some (Ok (), s\<lparr>world := snd (rangePerm pf 0 (world s))\<rparr>)"
proof -
  obtain w where "rangePerm pf 0 (world s) = ([], w)"
    using assms(1) unfolding fairRange_def
    by (metis atLeastLessThan0 prod.collapse set_empty)
  then show ?thesis
    using assms(2) by (simp add: cleanQueries_def rangeHosts_def prog_simps setCfg_def)
qed

text \<open>The state after a refresh: the parsed one, with the time of the refresh.\<close>

lemma refresh_parsed:
  assumes "fairRange pf" and "hostCounters (wpc s) = []"
    and "parseConfig pf (s\<lparr>world := snd (rangePerm pf 0 (world s))\<rparr>) = Some (Ok (), t)"
    and "firstSample pf t"
  shows "\<exists>w now. refresh pf s = Some (Ok True, t\<lparr>world := w, wpc := (wpc t)\<lparr>lastRefreshed := now\<rparr>\<rparr>)"
proof -
  obtain keys w1 where range: "rangeHosts pf t = Some (Ok keys, t\<lparr>world := w1\<rparr>)"
    and keys: "set keys = fst ` set (hostCounters (wpc t))" using rangeHosts_keys [OF assms(1)] by blast
  have "\<forall>key \<in> set keys. host key (t\<lparr>world := w1\<rparr>) \<noteq> None"
    using keys by (auto simp: host_def map_of_eq_None_iff)
  then obtain w2 where "collectFirst pf keys (t\<lparr>world := w1\<rparr>) = Some (Ok True, (t\<lparr>world := w1\<rparr>)\<lparr>world := w2\<rparr>)"
    using collectFirst_ok [of pf "t\<lparr>world := w1\<rparr>" keys] assms(4) by (auto simp: firstSample_def)
  moreover obtain tn w3 where "timeNow pf w2 = (tn, w3)" by fastforce
  ultimately show ?thesis
    using cleanQueries_none [OF assms(1,2)] assms(3) range
    by (intro exI [of _ "timeSleep pf second w3"] exI [of _ tn])
       (simp add: refresh_def prog_simps now_def machine_def setCfg_def)
qed

lemma Gather_due:
  "IsZero (lastRefreshed (wpc s)) \<Longrightarrow> refresh pf s = Some (Ok True, t) \<Longrightarrow> Gather pf s = gatherHosts pf t"
  by (simp add: Gather_def gatherHosts_def needsRefresh_def cfg_def prog_simps)

lemma Gather_not_due:
  assumes "\<not> IsZero (lastRefreshed (wpc s))"
    and "CountersRefreshInterval (wpc s) \<le> 0
         \<or> fst (timeNow pf (world s)) \<le> lastRefreshed (wpc s) + CountersRefreshInterval (wpc s)"
    and "undisturbed pf J" and "J (world s)"
  shows "\<exists>w. Gather pf s = gatherHosts pf (s\<lparr>world := w\<rparr>) \<and> J w"
proof (cases "CountersRefreshInterval (wpc s) > 0")
  case True
  obtain t w where time: "timeNow pf (world s) = (t, w)" by fastforce
  then have "J w" using assms(3,4) unfolding undisturbed_def by (metis snd_conv)
  then show ?thesis
    using True time assms(1,2) by (intro exI [of _ w])
      (simp add: Gather_def gatherHosts_def needsRefresh_def cfg_def now_def machine_def prog_simps)
next
  case False
  then show ?thesis
    using assms(1,4) by (intro exI [of _ "world s"])
      (simp add: Gather_def gatherHosts_def needsRefresh_def cfg_def prog_simps)
qed

lemma samplable_world:
  "samplable pf K T nvs s \<Longrightarrow> K {} w \<Longrightarrow> samplable pf K T nvs (s\<lparr>world := w\<rparr>)"
  by (simp add: samplable_def)

text \<open>The hosts that have counters are those of the configuration.\<close>

lemma hostReports_configured:
  assumes "hostReports nvs keys t new" and "distinct keys"
    and "\<forall>key. countersOf t key = map snd (filter (\<lambda>i. fst i = key) items)"
    and "set keys = {key. host key t \<noteq> None}"
  shows "hostReports nvs (remdups (map fst items)) t new"
proof -
  let ?P = "\<lambda>key. key \<in> fst ` set items"
  have "host_counters h = []" if "host key t = Some h" "\<not> ?P key" for key h
  proof -
    have "filter (\<lambda>i. fst i = key) items = []" using that(2) by (auto simp: filter_empty_conv)
    then show ?thesis using assms(3) that(1) by (auto simp: countersOf_def dest!: spec [of _ key])
  qed
  with assms(1) have "hostReports nvs (filter ?P keys) t new" by (rule hostReports_filter)
  moreover have "host key t \<noteq> None" if "key \<in> fst ` set items" for key
    using assms(3) [rule_format, of key] that by (auto simp: countersOf_def filter_empty_conv split: option.splits)
  then have "mset (filter ?P keys) = mset (remdups (map fst items))"
    using assms(2,4) by (intro set_eq_iff_mset_eq_distinct [THEN iffD1]) auto
  ultimately show ?thesis using hostReports_mset by blast
qed

subsection \<open>A sample\<close>

text \<open>The sample host after an earlier refresh, and the readings of its counter.\<close>

definition sampledBefore :: "unit runtime" where
  "sampledBefore = (sampleRuntime False)\<lparr>wpc := (wpc (sampleRuntime False))\<lparr>lastRefreshed := 0\<rparr>\<rparr>"

definition sampleReadings :: "counter \<Rightarrow> (string \<times> go_value) list" where
  "sampleReadings metric = arrayReadings metric [\<lparr>Name = ''a'', Value = FloatValue 7\<rparr>]"

lemma sample_contributes:
  assumes "initialBufferSize \<le> maxBufferSize q" and "\<not> useRawValue metric"
  shows "contributes sampleArray (\<lambda>_. True) False q metric (sampleReadings metric)"
  using sampleArray_yields [OF assms] by (auto simp: contributes_def sampleReadings_def)

lemma sample_collects: "queryHandle q \<noteq> 0 \<Longrightarrow> collects sampleArray False (\<lambda>_ _. True) (\<lambda>ts. ts = 0) key q"
  by (simp add: collects_def CollectData_def sampleArray_def samplePlatform_def pdhCollectQueryData_def)

lemma samplable_sample:
  assumes "\<not> UsePerfCounterTime (wpc s)" and "\<not> UseWildcardsExpansion (wpc s)"
    and "\<And>key h. host key s = Some h \<Longrightarrow> queryHandle (host_query h) \<noteq> 0
          \<and> initialBufferSize \<le> maxBufferSize (host_query h) \<and> (\<forall>metric \<in> set (host_counters h). \<not> useRawValue metric)"
  shows "samplable sampleArray (\<lambda>_ _. True) (\<lambda>_ ts. ts = 0) (\<lambda>_. sampleReadings) s"
  unfolding samplable_def
proof (intro conjI allI impI ballI)
  fix key h metric
  assume "host key s = Some h" and "metric \<in> set (host_counters h)"
  then show "contributes sampleArray (\<lambda>_. True) (UseWildcardsExpansion (wpc s)) (host_query h) metric (sampleReadings metric)"
    using sample_contributes assms(2,3) by auto
next
  fix key h
  assume "host key s = Some h"
  then show "collects sampleArray (UsePerfCounterTime (wpc s)) (\<lambda>_ _. True) (\<lambda>ts. ts = 0) key (host_query h)"
    using sample_collects assms(1,3) by auto
qed (simp_all add: fairRange_samples)

lemma samplable_sampledBefore: "samplable sampleArray (\<lambda>_ _. True) (\<lambda>_ ts. ts = 0) (\<lambda>_. sampleReadings) sampledBefore"
  by (rule samplable_sample)
     (auto simp: sampledBefore_def sampleRuntime_def NewWinPerfCounters_def host_def sampleHost_def
       sampleCounter_def newCounter_def Let_def initialBufferSize_def split: if_splits)

lemma sampledBefore_fields:
  "hasCollect (wpc sampledBefore)" "\<not> IsZero (lastRefreshed (wpc sampledBefore))"
  "fst (timeNow sampleArray (world sampledBefore))
     \<le> lastRefreshed (wpc sampledBefore) + CountersRefreshInterval (wpc sampledBefore)"
  by (simp_all add: sampledBefore_def sampleRuntime_def NewWinPerfCounters_def IsZero_def zeroTime_def second_def)
     (simp add: sampleArray_def samplePlatform_def)

lemma hostReports_one:
  assumes "hostReports nvs [key] t new" and "host key t = Some h"
    and "allReadings (nvs key) (host_counters h) = [((g, f), v)]"
  shows "\<exists>m. new = [m] \<and> map_of (metric_fields m) f = Some v"
proof -
  obtain part where new: "mset new = mset part" and rep: "reports (host_tag h) (host_timestamp h) [((g, f), v)] part"
    using assms by (auto simp: hostReports_def)
  from rep show ?thesis by (rule reports_single [where g = g]) (use new in auto)
qed

lemma hostReports_sample:
  assumes "hostReports (\<lambda>_. sampleReadings) [key] t new" and "host key t = Some h"
    and "map withoutHandle (host_counters h) = [newCounter 0 path ''srv'' ''Disk'' ''*'' ''% Idle'' '''' False False]"
  shows "\<exists>m. new = [m] \<and> map_of (metric_fields m) ''Percent_Idle'' = Some (FloatValue 7)"
proof -
  obtain c where c: "host_counters h = [c]"
    "withoutHandle c = newCounter 0 path ''srv'' ''Disk'' ''*'' ''% Idle'' '''' False False" using assms(3) by auto
  then have "allReadings sampleReadings (host_counters h) = [((\<lparr>group_name = ''win_perf_counters'',
      group_instance = ''a'', group_objectName = ''Disk''\<rparr>, ''Percent_Idle''), FloatValue 7)]"
    by (cases c) (simp add: withoutHandle_def allReadings_def sampleReadings_def readingsOf_def arrayReadings_def
        wanted_def reportedName_def newCounter_def Let_def sanitizedChars_Replace_def
        sanitizedPairs_def sublist_def append_eq_Cons_conv)
  with assms(1,2) show ?thesis by (rule hostReports_one)
qed

text \<open>A configuration with the same counter, before the first call, and its parsed state.\<close>

definition diskRuntime :: "unit runtime" where
  "diskRuntime = \<lparr>wpc = (NewWinPerfCounters True)\<lparr>Object := [\<lparr>object_Sources = [''srv''],
       ObjectName = ''Disk'', Counters = [''% Idle''], Instances = [''*''], Measurement = '''',
       WarnOnMissing = False, FailOnMissing = True, IncludeTotal = False, UseRawValues = False\<rparr>]\<rparr>,
     world = (), loglines = [], emitted = []\<rparr>"

lemma diskRuntime_fields:
  "\<not> UseWildcardsExpansion (wpc diskRuntime)" "hostCounters (wpc diskRuntime) = []"
  "Object (wpc diskRuntime) \<noteq> []" "IsZero (lastRefreshed (wpc diskRuntime))" "hasCollect (wpc diskRuntime)"
  "emitted diskRuntime = []"
  by (simp_all add: diskRuntime_def NewWinPerfCounters_def IsZero_def)

lemma diskRuntime_items: "configItems (wpc diskRuntime) = [(''srv'',
    newCounter 0 (formatPath ''srv'' ''Disk'' ''*'' ''% Idle'') ''srv'' ''Disk'' ''*'' ''% Idle'' '''' False False)]"
  by (simp add: diskRuntime_def configItems_def computersOf_def counterItems_def instanceItem_def)

lemma diskRuntime_parsed:
  assumes "parseConfig sampleArray diskRuntime = Some (Ok (), t)"
  shows "\<not> UsePerfCounterTime (wpc t) \<and> \<not> UseWildcardsExpansion (wpc t)
    \<and> (\<exists>h. hostCounters (wpc t) = [(''srv'', h)] \<and> host_query h = \<lparr>maxBufferSize = 104857600, queryHandle = 1\<rparr>
         \<and> (\<exists>c. host_counters h = [c] \<and> \<not> useRawValue c))"
  using assms
  by (simp add: parseConfig_def diskRuntime_def NewWinPerfCounters_def prog_simps setCfg_def cfg_def addCounters_def
      addInstance_def addItem_def ensureHost_def changeQuery_def onHost_def host_def setHost_def addToQuery_def
      readQuery_def machine_def appendCounter_def logValid_def Let_def sampleArray_def samplePlatform_def Open_def
      openHandle_def pdhOpenQuery_def newPerformanceQuery_def IsVistaOrNewer_def pdhAddEnglishCounterSupported_def
      AddEnglishCounterToQuery_def pdhAddEnglishCounter_def defaultMaxBufferSize_def)
     (auto simp: newCounter_def Let_def)

lemma diskRuntime_samplable:
  assumes "parseConfig sampleArray diskRuntime = Some (Ok (), t)"
  shows "samplable sampleArray (\<lambda>_ _. True) (\<lambda>_ ts. ts = 0) (\<lambda>_. sampleReadings) t \<and> firstSample sampleArray t"
proof -
  from diskRuntime_parsed [OF assms] obtain h c where off: "\<not> UsePerfCounterTime (wpc t)" "\<not> UseWildcardsExpansion (wpc t)"
    and h: "hostCounters (wpc t) = [(''srv'', h)]" "host_query h = \<lparr>maxBufferSize = 104857600, queryHandle = 1\<rparr>"
      "host_counters h = [c]" "\<not> useRawValue c" by blast
  then have hosts: "host key t = Some h' \<Longrightarrow> h' = h" for key h' by (auto simp: host_def split: if_splits)
  then have "samplable sampleArray (\<lambda>_ _. True) (\<lambda>_ ts. ts = 0) (\<lambda>_. sampleReadings) t"
    using off h by (intro samplable_sample) (auto simp: initialBufferSize_def)
  moreover have "firstSample sampleArray t"
    unfolding firstSample_def
    using hosts h(2) by (auto simp: CollectData_def sampleArray_def samplePlatform_def pdhCollectQueryData_def)
  ultimately show ?thesis ..
qed

section \<open>Properties\<close>

text \<open>
  C11. Between two refreshes \<open>Gather\<close> reports every host: when no refresh is due and the hosts
  can be sampled, it returns nil, has sampled each host once, hands over exactly the reports
  of all hosts, stamped with the times of their samples (of which \<open>T\<close> holds, Windows' times or
  the clock's), and changes nothing else of a host.
\<close>

theorem Gather_reports_all_hosts:
  assumes "samplable pf K T nvs s" and "hasCollect (wpc s)" and "\<not> IsZero (lastRefreshed (wpc s))"
    and "CountersRefreshInterval (wpc s) \<le> 0
         \<or> fst (timeNow pf (world s)) \<le> lastRefreshed (wpc s) + CountersRefreshInterval (wpc s)"
  shows "\<exists>t new. Gather pf s = Some (Ok (), t) \<and> emitted t = emitted s @ new
           \<and> hostReports nvs (map fst (hostCounters (wpc s))) t new
           \<and> (\<forall>key. case host key s of None \<Rightarrow> host key t = None
                | Some h \<Rightarrow> \<exists>ts. T key ts \<and> host key t = Some (h\<lparr>host_timestamp := ts\<rparr>))"
proof -
  obtain w where w: "Gather pf s = gatherHosts pf (s\<lparr>world := w\<rparr>)" "K {} w"
    using Gather_not_due [OF assms(3,4), where J = "K {}"] assms(1) by (auto simp: samplable_def)
  from gatherHosts_reports [OF samplable_world [OF assms(1) w(2)]] assms(2) show ?thesis
    by (simp add: w(1))
qed

theorem Gather_reports_all_hosts_witness:
  "\<exists>t m. Gather sampleArray sampledBefore = Some (Ok (), t) \<and> emitted t = [m]
     \<and> map_option host_timestamp (host ''srv'' t) = Some 0
     \<and> map_of (metric_fields m) ''Percent_Idle'' = Some (FloatValue 7)"
proof -
  have "\<exists>t new. Gather sampleArray sampledBefore = Some (Ok (), t) \<and> emitted t = emitted sampledBefore @ new
      \<and> hostReports (\<lambda>_. sampleReadings) (map fst (hostCounters (wpc sampledBefore))) t new
      \<and> (\<forall>key. case host key sampledBefore of None \<Rightarrow> host key t = None
           | Some h \<Rightarrow> \<exists>ts. ts = 0 \<and> host key t = Some (h\<lparr>host_timestamp := ts\<rparr>))"
    using Gather_reports_all_hosts [OF samplable_sampledBefore] sampledBefore_fields by blast
  then obtain t new where t: "Gather sampleArray sampledBefore = Some (Ok (), t)" "emitted t = emitted sampledBefore @ new"
    "hostReports (\<lambda>_. sampleReadings) [''srv''] t new"
    and stamp: "host ''srv'' t = Some (sampleHost\<lparr>host_timestamp := 0\<rparr>)"
    by (auto simp: sampledBefore_def sampleRuntime_def host_def dest!: spec [of _ "''srv''"])
  from t(3) stamp have "\<exists>m. new = [m] \<and> map_of (metric_fields m) ''Percent_Idle'' = Some (FloatValue 7)"
    by (intro hostReports_sample [where key = "''srv''" and h = "sampleHost\<lparr>host_timestamp := 0\<rparr>"
          and path = "''p''"]) (simp_all add: host_counters_sample sampleCounter_def)
  then show ?thesis using t(1,2) stamp by (auto simp: sampledBefore_def sampleRuntime_def)
qed

text \<open>
  The first call reports what is configured: when wildcards are not expanded, Windows accepts
  every query and every counter, and the hosts of the parsed configuration can be sampled,
  the first call of \<open>Gather\<close> returns nil, every host has exactly the counters that the
  configuration lists for it and the time of its sample, and the reports of all these hosts
  are handed over.
\<close>

theorem first_Gather_reports_configuration:
  assumes "cooperative pf" and "\<not> UseWildcardsExpansion (wpc s)" and "hostCounters (wpc s) = []"
    and "Object (wpc s) \<noteq> []" and "IsZero (lastRefreshed (wpc s))" and "hasCollect (wpc s)"
    and "fairRange pf" and "\<forall>w. K {} w"
    and "\<forall>t. parseConfig pf (s\<lparr>world := snd (rangePerm pf 0 (world s))\<rparr>) = Some (Ok (), t)
           \<longrightarrow> samplable pf K T nvs t \<and> firstSample pf t"
  shows "\<exists>t new. Gather pf s = Some (Ok (), t) \<and> emitted t = emitted s @ new
           \<and> (\<forall>key. countersOf t key = map snd (filter (\<lambda>i. fst i = key) (configItems (wpc s))))
           \<and> (\<forall>key h. host key t = Some h \<longrightarrow> T key (host_timestamp h))
           \<and> hostReports nvs (remdups (map fst (configItems (wpc s)))) t new"
proof -
  let ?s = "s\<lparr>world := snd (rangePerm pf 0 (world s))\<rparr>"
  obtain p where p: "parseConfig pf ?s = Some (Ok (), p)" "emitted p = emitted s" "hasCollect (wpc p)"
    "distinct (map fst (hostCounters (wpc p)))"
    "\<forall>key. countersOf p key = map snd (filter (\<lambda>i. fst i = key) (configItems (wpc s)))"
    using parseConfig_gains [OF assms(1), of ?s] assms(2-4,6) by auto
  then have sam: "samplable pf K T nvs p" and first: "firstSample pf p" using assms(9) by auto
  obtain w tn where r: "refresh pf s = Some (Ok True, p\<lparr>world := w, wpc := (wpc p)\<lparr>lastRefreshed := tn\<rparr>\<rparr>)"
    using refresh_parsed [OF assms(7,3) p(1) first] by blast
  let ?p = "p\<lparr>world := w, wpc := (wpc p)\<lparr>lastRefreshed := tn\<rparr>\<rparr>"
  have host: "host key ?p = host key p" for key by (simp add: host_def)
  have "samplable pf K T nvs ?p" using sam assms(8) unfolding samplable_def host by simp
  from gatherHosts_reports [OF this] p(3) obtain t new where
    t: "gatherHosts pf ?p = Some (Ok (), t)" "emitted t = emitted p @ new"
      "hostReports nvs (map fst (hostCounters (wpc p))) t new"
    and stamp: "\<forall>key. case host key p of None \<Rightarrow> host key t = None
      | Some h \<Rightarrow> \<exists>ts. T key ts \<and> host key t = Some (h\<lparr>host_timestamp := ts\<rparr>)"
    unfolding host by auto
  have same_hosts: "host key t = None \<longleftrightarrow> host key p = None" for key
    using stamp [rule_format, of key] by (cases "host key p") auto
  have same: "countersOf t key = countersOf p key" for key
    using stamp [rule_format, of key] by (cases "host key p") (auto simp: countersOf_def)
  have times: "T key (host_timestamp h)" if "host key t = Some h" for key h
    using stamp [rule_format, of key] that by (cases "host key p") auto
  from same p(5) have items: "\<forall>key. countersOf t key = map snd (filter (\<lambda>i. fst i = key) (configItems (wpc s)))" by simp
  have "hostReports nvs (remdups (map fst (configItems (wpc s)))) t new"
    by (rule hostReports_configured [OF t(3) p(4) items])
       (use same_hosts in \<open>auto simp: host_def map_of_eq_None_iff\<close>)
  moreover have "Gather pf s = Some (Ok (), t)" "emitted t = emitted s @ new"
    using Gather_due [OF assms(5) r] t(1,2) p(2) by simp_all
  ultimately show ?thesis using items times by blast
qed

theorem first_Gather_reports_configuration_witness:
  "\<exists>t m. Gather sampleArray diskRuntime = Some (Ok (), t) \<and> emitted t = [m]
     \<and> map_of (metric_fields m) ''Percent_Idle'' = Some (FloatValue 7)"
proof -
  have same: "diskRuntime\<lparr>world := ()\<rparr> = diskRuntime" by (simp add: diskRuntime_def)
  have coop: "cooperative sampleArray" by (simp add: sampleArray_def)
  have "\<exists>t new. Gather sampleArray diskRuntime = Some (Ok (), t) \<and> emitted t = emitted diskRuntime @ new
      \<and> (\<forall>key. countersOf t key = map snd (filter (\<lambda>i. fst i = key) (configItems (wpc diskRuntime))))
      \<and> (\<forall>key h. host key t = Some h \<longrightarrow> host_timestamp h = 0)
      \<and> hostReports (\<lambda>_. sampleReadings) (remdups (map fst (configItems (wpc diskRuntime)))) t new"
    by (rule first_Gather_reports_configuration [where K = "\<lambda>_ _. True" and T = "\<lambda>_ ts. ts = 0", OF coop diskRuntime_fields(1-5)])
       (use diskRuntime_samplable in \<open>simp_all add: fairRange_samples same\<close>)
  then obtain t new where t: "Gather sampleArray diskRuntime = Some (Ok (), t)" "emitted t = new"
    "countersOf t ''srv'' = [newCounter 0 (formatPath ''srv'' ''Disk'' ''*'' ''% Idle'') ''srv'' ''Disk'' ''*''
       ''% Idle'' '''' False False]"
    "hostReports (\<lambda>_. sampleReadings) [''srv''] t new"
    by (auto simp: diskRuntime_fields diskRuntime_items)
  then obtain h where h: "host ''srv'' t = Some h"
    "map withoutHandle (host_counters h) = [newCounter 0 (formatPath ''srv'' ''Disk'' ''*'' ''% Idle'') ''srv'' ''Disk''
       ''*'' ''% Idle'' '''' False False]"
    by (auto simp: countersOf_def split: option.splits)
  from hostReports_sample [OF t(4) h] t(1,2) show ?thesis by auto
qed

end
