(* ===== verification/Session.thy ===== *)
theory Session
  imports Simulated Cycle
begin

text \<open>
  Calls of \<open>Gather\<close> (\<open>win_perf_counters.go\<close>), one after another, on a Windows that keeps to its
  documentation: the first call and every later one, whether or not a refresh is due. The
  data that a call hands over is followed from the bytes that Windows leaves in a buffer to
  the metrics, and a value is read only when its query has been sampled twice. What a session
  needs of the counters and of reading them is the locale \<open>session\<close>; it is interpreted here
  without wildcard expansion and in the theory \<open>Wildcards\<close> with it.
\<close>

section \<open>Sampling\<close>

text \<open>The queries \<open>Q\<close> have been sampled since, and maybe others.\<close>

definition sampledView :: "u64 set \<Rightarrow> pdhView \<Rightarrow> pdhView \<Rightarrow> bool" where
  "sampledView Q V V' \<longleftrightarrow> openQueries V' = openQueries V \<and> counterTable V' = counterTable V
     \<and> (\<forall>q. sampleCount V q \<le> sampleCount V' q) \<and> (\<forall>q \<in> Q. sampleCount V q < sampleCount V' q)"

lemma sampledView_refl [simp]: "sampledView {} V V"
  by (simp add: sampledView_def)

lemma sampledView_trans:
  assumes "sampledView Q V V'" and "sampledView Q' V' V''"
  shows "sampledView (Q \<union> Q') V V''"
  using assms unfolding sampledView_def by (auto intro: le_trans less_le_trans le_less_trans)

lemma sampledView_sampled [simp]: "sampledView {q} V (sampled q D V)"
  by (simp add: sampledView_def sampled_def)

text \<open>The hosts of two states have the same queries and counters.\<close>

abbreviation sameQueries :: "'w runtime \<Rightarrow> 'w runtime \<Rightarrow> bool" where
  "sameQueries s t \<equiv> (\<forall>key. map_option (\<lambda>h. (host_query h, host_counters h)) (host key t)
     = map_option (\<lambda>h. (host_query h, host_counters h)) (host key s))"

lemma sameQueries_host:
  assumes "sameQueries s t" and "host key t = Some h"
  obtains g where "host key s = Some g" "host_query g = host_query h" "host_counters g = host_counters h"
  using assms(1) [rule_format, of key] assms(2) by (cases "host key s") auto

lemma heldBy_sameQueries:
  assumes "sameQueries s t"
  shows "heldBy K t = heldBy K s"
proof -
  have eq: "(\<exists>h. x = Some h \<and> queryHandle (host_query h) = q)
      = (map_option (queryHandle \<circ> fst) (map_option (\<lambda>h. (host_query h, host_counters h)) x) = Some q)" for x q
    by (cases x) auto
  show ?thesis unfolding heldBy_def eq using assms by simp
qed

text \<open>A state in which hosts differ only in their time stamps, and the view only in its samples.\<close>

lemma linked_sampled:
  assumes linked: "linked view room cap k s" and V: "sampledView Q (view (world s)) (view (world t))"
    and same: "sameQueries s t" "map fst (hostCounters (wpc t)) = map fst (hostCounters (wpc s))"
      "MaxBufferSize (wpc t) = MaxBufferSize (wpc s)"
  shows "linked view room cap k t"
proof -
  have "linkedHost (view (world t)) (word_of_int (MaxBufferSize (wpc t))) h" if h: "host key t = Some h" for key h
  proof -
    from same(1) h obtain g where g: "host key s = Some g" "host_query g = host_query h" "host_counters g = host_counters h"
      by (rule sameQueries_host)
    then have "linkedHost (view (world s)) (word_of_int (MaxBufferSize (wpc s))) g" using linked by (simp add: linked_def)
    then show ?thesis using g V same(3) by (simp add: linkedHost_def sampledView_def)
  qed
  moreover have "key = key'" if h: "host key t = Some h" "host key' t = Some h'"
    "queryHandle (host_query h) = queryHandle (host_query h')" for key key' h h'
  proof -
    from same(1) h(1) obtain g where g: "host key s = Some g" "host_query g = host_query h" by (rule sameQueries_host)
    from same(1) h(2) obtain g' where g': "host key' s = Some g'" "host_query g' = host_query h'" by (rule sameQueries_host)
    show ?thesis using linked g g' h(3) unfolding linked_def by metis
  qed
  moreover have "heldBy UNIV t = heldBy UNIV s" using same(1) by (rule heldBy_sameQueries)
  ultimately show ?thesis
    using linked V same(2) by (auto simp: linked_def sampledView_def outside_def used_def)
qed

lemma linked_world:
  "linked view room cap k s \<Longrightarrow> sampledView Q (view (world s)) (view w) \<Longrightarrow> linked view room cap k (s\<lparr>world := w\<rparr>)"
  by (rule linked_sampled) simp_all

text \<open>The first sample of a refresh.\<close>

lemma collectFirst_documented:
  assumes doc: "documented pf view cap A" and "linked view room cap k s" and "\<forall>key \<in> set keys. host key s \<noteq> None"
  shows "\<exists>w. collectFirst pf keys s = Some (Ok True, s\<lparr>world := w\<rparr>)
           \<and> sampledView (heldBy (set keys) s) (view (world s)) (view w)"
  using assms(2,3)
proof (induction keys arbitrary: s)
  case Nil
  then show ?case by (intro exI [of _ "world s"]) (simp add: retP_def heldBy_def)
next
  case (Cons key keys)
  then obtain h where h: "host key s = Some h" by auto
  let ?q = "queryHandle (host_query h)"
  obtain w D where w: "CollectData pf (host_query h) (world s) = Some (Ok (), w)" "view w = sampled ?q D (view (world s))"
    using documented_CollectData [OF doc linked_host(2,1) [OF Cons.prems(1) h]] by blast
  then have V: "sampledView {?q} (view (world s)) (view w)" by simp
  from Cons.IH [OF linked_world [OF Cons.prems(1) V]] Cons.prems(2) obtain u where
    u: "collectFirst pf keys (s\<lparr>world := w\<rparr>) = Some (Ok True, s\<lparr>world := u\<rparr>)"
      "sampledView (heldBy (set keys) s) (view w) (view u)" by auto
  have "{?q} \<union> heldBy (set keys) s = heldBy (set (key # keys)) s" using h by (auto simp: heldBy_def)
  then show ?case
    using u(1) sampledView_trans [OF V u(2)] h w(1)
    by (intro exI [of _ u]) (simp add: readQuery_def onHost_def machine_def prog_simps)
qed

text \<open>The times that a sample can be given.\<close>

definition stamps :: "'w platform \<Rightarrow> (Time \<Rightarrow> bool) \<Rightarrow> bool" where
  "stamps pf T \<longleftrightarrow> (\<forall>w. T (fst (timeNow pf w)))
     \<and> (\<forall>ft w. T (sint (fileTimeToNanos (fst (snd (LocalFileTimeToFileTime pf ft w))))))"

lemma collectHost_documented:
  assumes doc: "documented pf view cap A" and T: "stamps pf T" and linked: "linked view room cap k s"
    and h: "host key s = Some h"
  shows "\<exists>t. collectHost pf key s = Some (Ok (), t) \<and> restamped (\<lambda>_. T) {key} s t
           \<and> sampledView {queryHandle (host_query h)} (view (world s)) (view (world t))"
proof (cases "UsePerfCounterTime (wpc s) \<and> IsVistaOrNewer pf")
  case True
  then obtain ft w1 w D where
    "CollectDataWithTime pf (host_query h) (world s)
       = Some (Ok (sint (fileTimeToNanos (fst (snd (LocalFileTimeToFileTime pf ft w1)))), None), w)"
    and w: "view w = sampled (queryHandle (host_query h)) D (view (world s))"
    using documented_CollectDataWithTime [OF doc linked_host(2,1) [OF linked h]] by blast
  moreover obtain ts where ts: "ts = sint (fileTimeToNanos (fst (snd (LocalFileTimeToFileTime pf ft w1))))" "T ts"
    using T by (simp add: stamps_def)
  ultimately have "collectHost pf key s = Some (Ok (), (setHost key (h\<lparr>host_timestamp := ts\<rparr>) s)\<lparr>world := w\<rparr>)"
    using True h
    by (simp add: collectHost_def setTimestamp_def readQuery_def onHost_def machine_def cfg_def prog_simps setHost_world)
  then show ?thesis using restamped_setTimestamp [where T = "\<lambda>_. T", OF h ts(2), of w] w by auto
next
  case False
  obtain ts w1 where time: "timeNow pf (world s) = (ts, w1)" by fastforce
  have ts: "T ts" using T time unfolding stamps_def by (metis fst_conv)
  have same: "view w1 = view (world s)" using quiet_simps(2) [OF documented_quiet [OF doc], of "world s"] time by simp
  obtain w D where w: "CollectData pf (host_query h) w1 = Some (Ok (), w)"
    "view w = sampled (queryHandle (host_query h)) D (view (world s))"
    using documented_CollectData [OF doc, of "host_query h" w1] linked_host [OF linked h] same by auto
  have "collectHost pf key s = bindP (now pf) (\<lambda>t. seqP (setTimestamp key t) (readQuery key (CollectData pf))) s"
    using False by (auto simp: collectHost_def cfg_def bindP_def getP_def)
  then have "collectHost pf key s = Some (Ok (), (setHost key (h\<lparr>host_timestamp := ts\<rparr>) s)\<lparr>world := w\<rparr>)"
    using h time w(1)
    by (simp add: now_def setTimestamp_def readQuery_def onHost_def machine_def prog_simps host_setHost setHost_world)
  then show ?thesis using restamped_setTimestamp [where T = "\<lambda>_. T", OF h ts, of w] w(2) by auto
qed

lemma restamped_query:
  assumes "restamped T D s t"
  shows "sameQueries s t"
proof
  fix key
  show "map_option (\<lambda>h. (host_query h, host_counters h)) (host key t)
      = map_option (\<lambda>h. (host_query h, host_counters h)) (host key s)"
  proof (cases "host key s")
    case None
    then show ?thesis using restamped_None [OF assms] by simp
  next
    case (Some h)
    then obtain ts where "host key t = Some (h\<lparr>host_timestamp := ts\<rparr>)" using assms unfolding restamped_def by blast
    then show ?thesis using Some by simp
  qed
qed

lemma restamped_config:
  assumes "restamped T D s t"
  shows "(wpc t)\<lparr>hostCounters := []\<rparr> = (wpc s)\<lparr>hostCounters := []\<rparr>"
    "map fst (hostCounters (wpc t)) = map fst (hostCounters (wpc s))" "emitted t = emitted s"
  using assms by (simp_all add: restamped_def sameSetup_def)

lemma config_fields:
  assumes "(wpc t)\<lparr>hostCounters := []\<rparr> = (wpc s)\<lparr>hostCounters := []\<rparr>"
  shows "UseWildcardsExpansion (wpc t) = UseWildcardsExpansion (wpc s)" "MaxBufferSize (wpc t) = MaxBufferSize (wpc s)"
    "hasCollect (wpc t) = hasCollect (wpc s)" "Object (wpc t) = Object (wpc s)" "Sources (wpc t) = Sources (wpc s)"
    "lastRefreshed (wpc t) = lastRefreshed (wpc s)"
  using assms by (cases "wpc s"; cases "wpc t"; simp)+

lemma linked_restamped:
  "linked view room cap k s \<Longrightarrow> restamped T D s t \<Longrightarrow> sampledView Q (view (world s)) (view (world t))
   \<Longrightarrow> linked view room cap k t"
  using restamped_config [of T D s t] config_fields [of t s] restamped_query [of T D s t]
  by (intro linked_sampled [of view room cap k s Q t]) auto

lemma forP_collectHost_documented:
  assumes doc: "documented pf view cap A" and T: "stamps pf T"
    and "linked view room cap k s" and "\<forall>key \<in> set keys. host key s \<noteq> None"
  shows "\<exists>t. forP keys (collectHost pf) s = Some (Ok (), t) \<and> restamped (\<lambda>_. T) (set keys) s t
           \<and> sampledView (heldBy (set keys) s) (view (world s)) (view (world t))"
  using assms(3,4)
proof (induction keys arbitrary: s)
  case Nil
  then show ?case by (simp add: retP_def heldBy_def restamped_refl)
next
  case (Cons key keys)
  then obtain h where h: "host key s = Some h" by auto
  let ?q = "queryHandle (host_query h)"
  obtain u where u: "collectHost pf key s = Some (Ok (), u)" "restamped (\<lambda>_. T) {key} s u"
    "sampledView {?q} (view (world s)) (view (world u))"
    using collectHost_documented [OF doc T Cons.prems(1) h] by blast
  have "\<forall>key \<in> set keys. host key u \<noteq> None" using Cons.prems(2) restamped_None [OF u(2)] by simp
  from Cons.IH [OF linked_restamped [OF Cons.prems(1) u(2,3)] this] obtain t where
    t: "forP keys (collectHost pf) u = Some (Ok (), t)" "restamped (\<lambda>_. T) (set keys) u t"
      "sampledView (heldBy (set keys) u) (view (world u)) (view (world t))" by blast
  have "heldBy (set keys) u = heldBy (set keys) s" using heldBy_sameQueries [OF restamped_query [OF u(2)]] .
  moreover have "{?q} \<union> heldBy (set keys) s = heldBy (set (key # keys)) s" using h by (auto simp: heldBy_def)
  ultimately show ?case
    using u(1) t(1) restamped_trans [OF u(2) t(2)] sampledView_trans [OF u(3) t(3)] by (simp add: bindP_def)
qed

section \<open>Reading\<close>

text \<open>The bytes that Windows leaves for an array of raw or displayable values.\<close>

definition holdsArray :: "arch \<Rightarrow> bool \<Rightarrow> memory \<Rightarrow> addr \<Rightarrow> item list \<Rightarrow> bool" where
  "holdsArray a raw m buf its =
     (if raw then arrayAt a documentedRawItem ''RawValue'' documentedRawCounter ''FirstValue'' m buf its
      else arrayAt a documentedFmtItem ''FmtValue'' documentedFmtValue ''Value'' m buf its)"

text \<open>
  Windows delivers: the data of a counter whose open query has been sampled twice can be
  read, with a buffer that is within the limit.
\<close>

definition delivers :: "'w platform \<Rightarrow> ('w \<Rightarrow> pdhView) \<Rightarrow> u32 \<Rightarrow> bool" where
  "delivers pf view limit \<longleftrightarrow> (\<forall>V \<in> range view. \<forall>raw c q p.
     counterTable V c = Some (q, p) \<longrightarrow> q \<in> openQueries V \<longrightarrow> 2 \<le> sampleCount V q \<longrightarrow>
     length (arrayItems V raw c) \<le> 2 ^ 20
     \<and> (\<exists>need. need < 2 ^ 31 \<and> bufferFits limit need
          \<and> sizedCall pf 1 (\<lambda>w. view w = V) need (if raw then rawArrayCall pf c else doubleArrayCall pf c)
              (\<lambda>buf b n t. n = of_nat (length (arrayItems V raw c))
                 \<and> holdsArray (build pf) raw (mem pf t) buf (arrayItems V raw c))))"

text \<open>The values that the view has for a counter.\<close>

definition valuesIn :: "pdhView \<Rightarrow> counter \<Rightarrow> counterValue list" where
  "valuesIn V metric = itemValues (if useRawValue metric then IntValue else FloatValue)
     (arrayItems V (useRawValue metric) (counterHandle metric))"

lemma answersI:
  "(\<And>w. J w \<Longrightarrow> \<exists>t. p w = Some (Ok v, t) \<and> J t) \<Longrightarrow> answers J p (Inr v)"
  unfolding answers_def attemptP_def by fastforce

lemma contributes_delivered:
  assumes "delivers pf view (maxBufferSize q)" and "counterTable V (counterHandle metric) = Some (queryHandle q, p)"
    and "queryHandle q \<in> openQueries V" and "2 \<le> sampleCount V (queryHandle q)"
    and "useRawValue metric \<longrightarrow> build pf \<noteq> I386" and "V \<in> range view"
  shows "contributes pf (\<lambda>w. view w = V) False q metric (arrayReadings metric (valuesIn V metric))"
proof -
  let ?raw = "useRawValue metric" and ?c = "counterHandle metric" and ?J = "\<lambda>w. view w = V"
  let ?its = "arrayItems V ?raw ?c"
  have len: "length ?its \<le> 2 ^ 20" using assms(1-4,6) unfolding delivers_def by blast
  obtain need where need: "need < 2 ^ 31" "bufferFits (maxBufferSize q) need"
    and call: "sizedCall pf 1 ?J need (if ?raw then rawArrayCall pf ?c else doubleArrayCall pf ?c)
      (\<lambda>buf b n t. n = of_nat (length ?its) \<and> holdsArray (build pf) ?raw (mem pf t) buf ?its)"
    using assms(1-4,6) unfolding delivers_def by blast
  have "yieldsArray pf ?J q metric (valuesIn V metric)"
  proof (cases ?raw)
    case True
    have "answers ?J (GetRawCounterArray pf q ?c) (Inr (itemValues IntValue ?its))"
      using call need len assms(5) True
      by (intro answersI GetRawCounterArray_reads [where J = ?J and need = need]) (simp_all add: holdsArray_def)
    then show ?thesis using True by (simp add: yieldsArray_def valuesIn_def)
  next
    case False
    have "answers ?J (GetFormattedCounterArrayDouble pf q ?c) (Inr (itemValues id ?its))"
      using call need len False
      by (intro answersI GetFormattedCounterArrayDouble_reads [where J = ?J and need = need]) (simp_all add: holdsArray_def)
    moreover have "valuesIn V metric = map (\<lambda>v. \<lparr>Name = Name v, Value = FloatValue (Value v)\<rparr>) (itemValues id ?its)"
      using False by (simp add: valuesIn_def itemValues_def case_prod_unfold)
    ultimately show ?thesis using False unfolding yieldsArray_def by auto
  qed
  then show ?thesis by (auto simp: contributes_def)
qed

section \<open>The state between two calls\<close>

text \<open>
  \<open>configured\<close>: the hosts have these counters. \<open>sampledTimes n\<close>: every host's query has been
  sampled that often.
\<close>

definition configured :: "configItem list \<Rightarrow> 'w runtime \<Rightarrow> bool" where
  "configured items s \<longleftrightarrow> (\<forall>key. countersOf s key = map snd (filter (\<lambda>i. fst i = key) items))"

definition sampledTimes :: "('w \<Rightarrow> pdhView) \<Rightarrow> nat \<Rightarrow> 'w runtime \<Rightarrow> bool" where
  "sampledTimes view n s \<longleftrightarrow>
     (\<forall>key h. host key s = Some h \<longrightarrow> n \<le> sampleCount (view (world s)) (queryHandle (host_query h)))"

lemma countersOf_sameQueries:
  assumes "sameQueries s t"
  shows "countersOf t key = countersOf s key"
proof -
  have eq: "countersOf s key = (case map_option (\<lambda>h. (host_query h, host_counters h)) (host key s) of
      None \<Rightarrow> [] | Some (q, cs) \<Rightarrow> map withoutHandle cs)" for s :: "'a runtime" and key
    by (simp add: countersOf_def split: option.split)
  show ?thesis unfolding eq using assms by simp
qed

lemma configured_sameQueries: "sameQueries s t \<Longrightarrow> configured items t = configured items s"
  using countersOf_sameQueries [of s t] by (simp add: configured_def)

lemma sampledTimes_more:
  assumes "sampledTimes view n s" and "sameQueries s t"
    and "sampledView (heldBy K s) (view (world s)) (view (world t))" and "\<And>key. host key s \<noteq> None \<Longrightarrow> key \<in> K"
  shows "sampledTimes view (Suc n) t"
  unfolding sampledTimes_def
proof (intro allI impI)
  fix key h
  assume "host key t = Some h"
  with assms(2) obtain g where g: "host key s = Some g" "host_query g = host_query h" by (rule sameQueries_host)
  then have "queryHandle (host_query g) \<in> heldBy K s" using assms(4) [of key] unfolding heldBy_def by blast
  then have "sampleCount (view (world s)) (queryHandle (host_query g)) < sampleCount (view (world t)) (queryHandle (host_query g))"
    using assms(3) by (simp add: sampledView_def)
  then show "Suc n \<le> sampleCount (view (world t)) (queryHandle (host_query h))"
    using assms(1) g by (fastforce simp: sampledTimes_def)
qed

lemma hosts_known: "set keys = fst ` set (hostCounters (wpc s)) \<Longrightarrow> key \<in> set keys \<longleftrightarrow> host key s \<noteq> None"
  by (simp add: host_def map_of_eq_None_iff)

lemma rangeHosts_documented:
  assumes "documented pf view cap A" and "fairRange pf"
  shows "\<exists>keys w. rangeHosts pf s = Some (Ok keys, s\<lparr>world := w\<rparr>) \<and> view w = view (world s)
           \<and> mset keys = mset (map fst (hostCounters (wpc s)))"
proof -
  have "undisturbed pf (\<lambda>w. view w = view (world s))"
    using quiet_simps(2,5) [OF documented_quiet [OF assms(1)]] by (simp add: undisturbed_def)
  from rangeHosts_permutes [OF assms(2) this] show ?thesis by simp
qed

lemma needsRefresh_documented:
  assumes "documented pf view cap A"
  shows "\<exists>due w. needsRefresh pf s = Some (Ok due, s\<lparr>world := w\<rparr>) \<and> view w = view (world s)
           \<and> (IsZero (lastRefreshed (wpc s)) \<longrightarrow> due)"
proof -
  obtain t w where time: "timeNow pf (world s) = (t, w)" by fastforce
  then have w: "view w = view (world s)" using quiet_simps(2) [OF documented_quiet [OF assms], of "world s"] by simp
  show ?thesis
  proof (cases "\<not> IsZero (lastRefreshed (wpc s)) \<and> CountersRefreshInterval (wpc s) > 0")
    case True
    then show ?thesis using time w
      by (intro exI [of _ "lastRefreshed (wpc s) + CountersRefreshInterval (wpc s) < t"] exI [of _ w])
         (simp add: needsRefresh_def prog_simps cfg_def now_def machine_def)
  next
    case False
    then show ?thesis
      by (intro exI [of _ "IsZero (lastRefreshed (wpc s))"] exI [of _ "world s"])
         (auto simp: needsRefresh_def prog_simps cfg_def)
  qed
qed

lemma Gather_split:
  "needsRefresh pf s = Some (Ok due, u) \<Longrightarrow> Gather pf s = bindP (if due then refresh pf else retP True)
     (\<lambda>go_on. if \<not> go_on then retP () else gatherHosts pf) u"
  unfolding Gather_def gatherHosts_def by (simp add: bindP_def [of "needsRefresh pf"])

section \<open>The contract of a session\<close>

text \<open>
  What a call of \<open>Gather\<close> needs of Windows and of the collector between two calls. \<open>att\<close> holds
  of a collector that is attached to a Windows as documented; creating the counters anew
  leaves those of \<open>items\<close>, for the state that Windows is in, and when every query has been
  sampled twice each counter has what \<open>readings\<close> says.
\<close>

locale session =
  fixes pf :: "'w platform" and view :: "'w \<Rightarrow> pdhView" and T :: "Time \<Rightarrow> bool" and att :: "'w runtime \<Rightarrow> bool"
    and items :: "pdhView \<Rightarrow> configItem list" and readings :: "pdhView \<Rightarrow> counter \<Rightarrow> (string \<times> go_value) list"
  assumes windows: "att s \<Longrightarrow> \<exists>room cap A. documented pf view cap A \<and> linked view room cap 0 s"
    and holds: "att s \<Longrightarrow> fairRange pf \<and> stamps pf T \<and> hasCollect (wpc s)"
    and samples: "att s \<Longrightarrow> sampledView Q (view (world s)) (view (world t)) \<Longrightarrow> sameQueries s t
      \<Longrightarrow> map fst (hostCounters (wpc t)) = map fst (hostCounters (wpc s))
      \<Longrightarrow> (wpc t)\<lparr>hostCounters := [], lastRefreshed := 0\<rparr> = (wpc s)\<lparr>hostCounters := [], lastRefreshed := 0\<rparr> \<Longrightarrow> att t"
    and reparses: "att s \<Longrightarrow> \<exists>t. seqP (cleanQueries pf) (parseConfig pf) s = Some (Ok (), t) \<and> att t
      \<and> configured (items (view (world s))) t \<and> emitted t = emitted s"
    and reads: "att s \<Longrightarrow> configured (items V) s \<Longrightarrow> sampledTimes view 2 s \<Longrightarrow> host key s = Some h \<Longrightarrow> metric \<in> set (host_counters h)
      \<Longrightarrow> contributes pf (\<lambda>w. view w = view (world s)) (UseWildcardsExpansion (wpc s)) (host_query h) metric
            (readings (view (world s)) metric)"
begin

lemma att_linked:
  assumes "att s"
  obtains cap A room where "documented pf view cap A" "fairRange pf" "stamps pf T" "linked view room cap 0 s"
  using windows [OF assms] holds [OF assms] that by blast

lemma att_world: "att s \<Longrightarrow> view w = view (world s) \<Longrightarrow> att (s\<lparr>world := w\<rparr>)"
  using samples [of s "{}" "s\<lparr>world := w\<rparr>"] by simp

subsection \<open>A refresh\<close>

lemma refresh_attached:
  assumes "att s"
  shows "\<exists>t. refresh pf s = Some (Ok True, t) \<and> att t \<and> configured (items (view (world s))) t \<and> sampledTimes view 1 t
           \<and> emitted t = emitted s"
proof -
  obtain p where p: "seqP (cleanQueries pf) (parseConfig pf) s = Some (Ok (), p)" "att p"
    "configured (items (view (world s))) p" "emitted p = emitted s" using reparses [OF assms] by blast
  obtain cap A room where doc: "documented pf view cap A" and fair: "fairRange pf" and linked: "linked view room cap 0 p"
    using p(2) by (rule att_linked)
  obtain keys w1 where range: "rangeHosts pf p = Some (Ok keys, p\<lparr>world := w1\<rparr>)" "view w1 = view (world p)"
    "mset keys = mset (map fst (hostCounters (wpc p)))" using rangeHosts_documented [OF doc fair] by blast
  then have keys: "set keys = fst ` set (hostCounters (wpc p))" using mset_eq_setD [OF range(3)] by simp
  have "linked view room cap 0 (p\<lparr>world := w1\<rparr>)" using linked_world [OF linked, of "{}" w1] range(2) by simp
  then obtain w2 where first: "collectFirst pf keys (p\<lparr>world := w1\<rparr>) = Some (Ok True, p\<lparr>world := w2\<rparr>)"
    "sampledView (heldBy (set keys) p) (view (world p)) (view w2)"
    using collectFirst_documented [OF doc, of room 0 "p\<lparr>world := w1\<rparr>" keys] hosts_known [OF keys] range(2) by auto
  obtain tn w3 where time: "timeNow pf w2 = (tn, w3)" by fastforce
  let ?t = "p\<lparr>world := timeSleep pf second w3, wpc := (wpc p)\<lparr>lastRefreshed := tn\<rparr>\<rparr>"
  have "view (timeSleep pf second w3) = view w2"
    using quiet_simps(2,3) [OF documented_quiet [OF doc]] time by (metis snd_conv)
  then have V: "sampledView (heldBy (set keys) p) (view (world p)) (view (world ?t))" using first(2) by simp
  have same: "sameQueries p ?t" by (simp add: host_def)
  have "refresh pf s = bindP (seqP (cleanQueries pf) (parseConfig pf)) (\<lambda>_. bindP (rangeHosts pf) (\<lambda>keys.
      bindP (collectFirst pf keys) (\<lambda>go_on. if go_on then
        bindP (now pf) (\<lambda>t. seqP (setCfg (\<lambda>m. m\<lparr>lastRefreshed := t\<rparr>))
          (seqP (machine (\<lambda>w. Some (Ok (), timeSleep pf second w))) (retP True))) else retP False))) s"
    by (simp add: refresh_def seqP_def bindP_assoc)
  also have "\<dots> = Some (Ok True, ?t)"
    using p(1) range(1) first(1) time by (simp add: prog_simps now_def machine_def setCfg_def)
  finally have "refresh pf s = Some (Ok True, ?t)" .
  moreover have "att ?t" using samples [OF p(2) V same] by simp
  moreover have "sampledTimes view (Suc 0) ?t"
    using sampledTimes_more [OF _ same V] hosts_known [OF keys] by (simp add: sampledTimes_def)
  ultimately show ?thesis using configured_sameQueries [OF same] p(3,4) by auto
qed

subsection \<open>A call up to its goroutines\<close>

text \<open>
  The goroutines are started in a state in which the data of every host can be read, after a
  second sample.
\<close>

definition launched :: "configItem list \<Rightarrow> string list \<Rightarrow> 'w runtime \<Rightarrow> bool" where
  "launched is keys u \<longleftrightarrow> configured is u \<and> sampledTimes view 2 u \<and> distinct keys \<and> set keys = fst ` set (hostCounters (wpc u))
     \<and> readable pf (\<lambda>w. view w = view (world u)) (\<lambda>_. readings (view (world u))) keys u
     \<and> (\<forall>key h. host key u = Some h \<longrightarrow> T (host_timestamp h))"

lemma readable_attached:
  assumes "att s" and "configured (items V) s" and "sampledTimes view 2 s" and "\<forall>key \<in> set keys. host key s \<noteq> None"
  shows "readable pf (\<lambda>w. view w = view (world s)) (\<lambda>_. readings (view (world s))) keys s"
proof -
  obtain cap A where doc: "documented pf view cap A" and fair: "fairRange pf" using windows [OF assms(1)] holds [OF assms(1)] by blast
  have "undisturbed pf (\<lambda>w. view w = view (world s))"
    using quiet_simps(2,5) [OF documented_quiet [OF doc]] by (simp add: undisturbed_def)
  then show ?thesis
    using fair holds [OF assms(1)] reads [OF assms(1-3)] assms(4) by (auto simp: readable_def)
qed

lemma sampleHosts_attached:
  assumes at: "att s" and one: "sampledTimes view 1 s"
  shows "\<exists>u. bindP (rangeHosts pf) (\<lambda>keys. forP keys (collectHost pf)) s = Some (Ok (), u) \<and> att u \<and> sampledTimes view 2 u
           \<and> restamped (\<lambda>_. T) (fst ` set (hostCounters (wpc s))) s u"
proof -
  obtain cap A room where doc: "documented pf view cap A" and fair: "fairRange pf" and T: "stamps pf T"
    and linked: "linked view room cap 0 s" using at by (rule att_linked)
  obtain keys w where range: "rangeHosts pf s = Some (Ok keys, s\<lparr>world := w\<rparr>)" "view w = view (world s)"
    "mset keys = mset (map fst (hostCounters (wpc s)))" using rangeHosts_documented [OF doc fair] by blast
  then have keys: "set keys = fst ` set (hostCounters (wpc s))" using mset_eq_setD [OF range(3)] by simp
  have "linked view room cap 0 (s\<lparr>world := w\<rparr>)" using linked_world [OF linked, of "{}" w] range(2) by simp
  then obtain u where u: "forP keys (collectHost pf) (s\<lparr>world := w\<rparr>) = Some (Ok (), u)"
    "restamped (\<lambda>_. T) (set keys) (s\<lparr>world := w\<rparr>) u" "sampledView (heldBy (set keys) s) (view (world s)) (view (world u))"
    using forP_collectHost_documented [OF doc T, of room 0 "s\<lparr>world := w\<rparr>" keys] hosts_known [OF keys] range(2) by auto
  have su: "restamped (\<lambda>_. T) (set keys) s u" using u(2) by (simp add: restamped_def sameSetup_def)
  note same = restamped_query [OF su]
  have config: "(wpc u)\<lparr>hostCounters := [], lastRefreshed := 0\<rparr> = (wpc s)\<lparr>hostCounters := [], lastRefreshed := 0\<rparr>"
    using restamped_config(1) [OF su] by (metis WinPerfCounters.surjective WinPerfCounters.update_convs)
  have "att u" using samples [OF at u(3) same restamped_config(2) [OF su] config] .
  moreover have "sampledTimes view (Suc 1) u"
    using sampledTimes_more [OF one same u(3)] hosts_known [OF keys] by simp
  ultimately show ?thesis using range(1) u(1) su keys by (simp add: bindP_def numeral_2_eq_2)
qed

lemma sampled_launched:
  assumes at: "att s" and conf: "configured (items V) s" and one: "sampledTimes view 1 s"
  shows "\<exists>keys u. bindP (rangeHosts pf) (\<lambda>keys. seqP (forP keys (collectHost pf)) (
             bindP (rangeHosts pf) (\<lambda>keys'. retP (Some keys')))) s = Some (Ok (Some keys), u)
           \<and> att u \<and> launched (items V) keys u \<and> emitted u = emitted s \<and> sameQueries s u"
proof -
  obtain u where u: "bindP (rangeHosts pf) (\<lambda>keys. forP keys (collectHost pf)) s = Some (Ok (), u)" "att u" "sampledTimes view 2 u"
    "restamped (\<lambda>_. T) (fst ` set (hostCounters (wpc s))) s u"
    using sampleHosts_attached [OF at one] by blast
  have conf: "configured (items V) u" using configured_sameQueries [OF restamped_query [OF u(4)]] conf by simp
  obtain cap A room where doc: "documented pf view cap A" and fair: "fairRange pf" and linked: "linked view room cap 0 u"
    using u(2) by (rule att_linked)
  obtain keys w where range: "rangeHosts pf u = Some (Ok keys, u\<lparr>world := w\<rparr>)" "view w = view (world u)"
    "mset keys = mset (map fst (hostCounters (wpc u)))" using rangeHosts_documented [OF doc fair] by blast
  let ?u = "u\<lparr>world := w\<rparr>"
  have keys: "set keys = fst ` set (hostCounters (wpc u))" using mset_eq_setD [OF range(3)] by simp
  have "att ?u" using att_world [OF u(2) range(2)] .
  moreover have more: "configured (items V) ?u" "sampledTimes view 2 ?u"
    using u(3) conf range(2) by (simp_all add: configured_def sampledTimes_def)
  moreover have "readable pf (\<lambda>w. view w = view (world ?u)) (\<lambda>_. readings (view (world ?u))) keys ?u"
    using readable_attached [OF \<open>att ?u\<close> more] hosts_known [OF keys] by simp
  moreover have "distinct keys"
    using linked mset_eq_imp_distinct_iff [OF range(3)] by (simp add: linked_def)
  moreover have "T (host_timestamp h)" if "host key ?u = Some h" for key h
    using restamped_all [OF u(4), of key] that by (auto split: option.splits)
  ultimately have "launched (items V) keys ?u" using keys by (simp add: launched_def)
  moreover have "bindP (rangeHosts pf) (\<lambda>keys. seqP (forP keys (collectHost pf)) (
      bindP (rangeHosts pf) (\<lambda>keys'. retP (Some keys')))) s = Some (Ok (Some keys), ?u)"
    using u(1) range(1) unfolding seqP_def bindP_assoc [symmetric] by (simp add: bindP_def retP_def)
  moreover have "emitted ?u = emitted s" using restamped_config(3) [OF u(4)] by simp
  moreover have "sameQueries s ?u" using restamped_query [OF u(4)] by simp
  ultimately show ?thesis using \<open>att ?u\<close> by blast
qed

text \<open>The state between two calls: after a completed refresh the counters exist and have been sampled.\<close>

definition between :: "'w runtime \<Rightarrow> bool" where
  "between s \<longleftrightarrow> att s \<and> (\<not> IsZero (lastRefreshed (wpc s)) \<longrightarrow> (\<exists>V \<in> range view. configured (items V) s) \<and> sampledTimes view 1 s)"

lemma between_world: "between s \<Longrightarrow> view w = view (world s) \<Longrightarrow> between (s\<lparr>world := w\<rparr>)"
  using att_world [of s w] by (simp add: between_def configured_def sampledTimes_def)

text \<open>The counters after a call: those that Windows lists now when a refresh was due, otherwise those of before.\<close>

definition renewed :: "'w runtime \<Rightarrow> bool \<Rightarrow> pdhView \<Rightarrow> 'w runtime \<Rightarrow> bool" where
  "renewed s due V t \<longleftrightarrow> V \<in> range view \<and> (if due then V = view (world s) else (\<forall>key. countersOf t key = countersOf s key))"

lemma launch_attached:
  assumes "between s"
  shows "\<exists>due w keys u V. needsRefresh pf s = Some (Ok due, s\<lparr>world := w\<rparr>) \<and> launch pf s = Some (Ok (Some keys), u)
           \<and> att u \<and> launched (items V) keys u \<and> emitted u = emitted s \<and> renewed s due V u"
proof -
  obtain cap A where doc: "documented pf view cap A" using windows [of s] assms by (auto simp: between_def)
  obtain due w where due: "needsRefresh pf s = Some (Ok due, s\<lparr>world := w\<rparr>)" "view w = view (world s)"
    "IsZero (lastRefreshed (wpc s)) \<longrightarrow> due" using needsRefresh_documented [OF doc] by blast
  let ?s = "s\<lparr>world := w\<rparr>"
  have between: "between ?s" using assms due(2) by (rule between_world)
  have "\<exists>p V. (if due then refresh pf else retP True) ?s = Some (Ok True, p) \<and> att p \<and> configured (items V) p \<and> sampledTimes view 1 p
      \<and> emitted p = emitted s \<and> renewed s due V p"
  proof (cases due)
    case True
    then show ?thesis using refresh_attached [of ?s] between due(2) by (auto simp: between_def renewed_def)
  next
    case False
    then show ?thesis using between due(3) by (auto simp: between_def retP_def renewed_def)
  qed
  then obtain p V where p: "(if due then refresh pf else retP True) ?s = Some (Ok True, p)" "att p"
    "configured (items V) p" "sampledTimes view 1 p" "emitted p = emitted s" "renewed s due V p" by blast
  obtain keys u where u: "bindP (rangeHosts pf) (\<lambda>keys. seqP (forP keys (collectHost pf)) (
      bindP (rangeHosts pf) (\<lambda>keys'. retP (Some keys')))) p = Some (Ok (Some keys), u)" "att u" "launched (items V) keys u"
    "emitted u = emitted p" "sameQueries p u" using sampled_launched [OF p(2-4)] by blast
  have "renewed s due V u" using p(6) countersOf_sameQueries [OF u(5)] by (simp add: renewed_def)
  moreover have "launch pf s = Some (Ok (Some keys), u)"
    using due(1) p(1) u(1) by (simp add: launch_def bindP_def [of "needsRefresh pf"] bindP_def [of "if due then _ else _"])
  ultimately show ?thesis using due(1) u(2-4) p(5) by metis
qed

subsection \<open>What the goroutines leave\<close>

definition reported :: "configItem list \<Rightarrow> 'w runtime \<Rightarrow> 'w runtime \<Rightarrow> bool" where
  "reported is s t \<longleftrightarrow> (\<exists>new. emitted t = emitted s @ new
       \<and> hostReports (\<lambda>_. readings (view (world t))) (remdups (map fst is)) t new)
     \<and> configured is t \<and> sampledTimes view 2 t \<and> (\<forall>key h. host key t = Some h \<longrightarrow> T (host_timestamp h))"

lemma launched_reported:
  assumes at: "att u" and u: "launched (items V) keys u" and V: "V \<in> range view"
    and ends: "(schedule pf)\<^sup>*\<^sup>* (map Launched keys, u) (map Finished keys, t)"
  shows "between t \<and> reported (items V) u t \<and> wpc t = wpc u"
proof -
  have read: "readable pf (\<lambda>w. view w = view (world u)) (\<lambda>_. readings (view (world u))) keys u"
    and conf: "configured (items V) u" and two: "sampledTimes view 2 u" and keys: "set keys = fst ` set (hostCounters (wpc u))"
    and stamped: "\<forall>key h. host key u = Some h \<longrightarrow> T (host_timestamp h)" using u by (simp_all add: launched_def)
  have way: "underWay pf (\<lambda>w. view w = view (world u)) (\<lambda>_. readings (view (world u))) keys u (map Finished keys, t)"
    using read ends by (rule underWay_reached)
  then have t: "view (world t) = view (world u)" by (simp add: underWay_def)
  from underWay_reports [OF read way] obtain new part where wpc: "wpc t = wpc u" and new: "emitted t = emitted u @ new"
    "mset new = (\<Sum>key \<leftarrow> keys. mset (part key))" "\<forall>key \<in> set keys. \<exists>h. host key u = Some h
      \<and> reports (host_tag h) (host_timestamp h) (allReadings (readings (view (world u))) (host_counters h)) (part key)" by blast
  have host: "host key t = host key u" for key using wpc by (simp add: host_def)
  then have same: "sameQueries u t" by simp
  have conf': "configured (items V) t" using configured_sameQueries [OF same] conf by simp
  have "hostReports (\<lambda>_. readings (view (world t))) keys t new"
    using new(2,3) host t unfolding hostReports_def by metis
  then have "hostReports (\<lambda>_. readings (view (world t))) (remdups (map fst (items V))) t new"
    using u conf' hosts_known [OF keys] host
    by (intro hostReports_configured [where keys = keys]) (auto simp: configured_def launched_def)
  moreover have "sampledTimes view 2 t" using two host t by (simp add: sampledTimes_def)
  moreover from this have "sampledTimes view 1 t" by (fastforce simp: sampledTimes_def)
  moreover have "att t" using samples [OF at _ same, of "{}"] wpc t by simp
  ultimately show ?thesis
    using stamped host conf' V new(1) wpc unfolding between_def reported_def by auto
qed

lemma Gather_attached:
  assumes "between s"
  shows "\<exists>t V. Gather pf s = Some (Ok (), t) \<and> between t \<and> reported (items V) s t"
proof -
  obtain keys u V where u: "launch pf s = Some (Ok (Some keys), u)" "att u" "launched (items V) keys u" "V \<in> range view" "emitted u = emitted s"
    using launch_attached [OF assms] unfolding renewed_def by blast
  have read: "readable pf (\<lambda>w. view w = view (world u)) (\<lambda>_. readings (view (world u))) keys u" using u(3) by (simp add: launched_def)
  obtain t where run: "forP keys (gatherHost pf) u = Some (Ok (), t)" using forP_gatherHost [OF read] by blast
  have "\<forall>key \<in> set keys. host key u \<noteq> None" using read by (auto simp: readable_def)
  then have "(schedule pf)\<^sup>*\<^sup>* (map Launched keys, u) (map Finished keys, t)"
    using sequential_run [OF _ run, of "[]"] by simp
  from launched_reported [OF u(2-4) this] show ?thesis
    using u(1,5) run by (auto simp: Gather_launch bindP_def reported_def)
qed

subsection \<open>Calls one after another\<close>

lemma gathers_attached:
  assumes "between s"
  shows "\<exists>t. gathers pf n s = Some (replicate n (Ok ()), t) \<and> between t"
  using assms
proof (induction n arbitrary: s)
  case (Suc n)
  then obtain u where u: "Gather pf s = Some (Ok (), u)" "between u" using Gather_attached by blast
  then show ?case using Suc.IH [OF u(2)] by auto
qed simp

lemma gatherRun_attached:
  assumes "between s" and run: "gatherRun pf s r t"
  shows "r = Ok () \<and> between t"
proof -
  obtain keys u V where u: "launch pf s = Some (Ok (Some keys), u)" "att u" "launched (items V) keys u" "V \<in> range view"
    using launch_attached [OF assms(1)] unfolding renewed_def by blast
  from run show ?thesis
    by (cases rule: gatherRunE) (use u launched_reported [OF u(2-4)] in auto)
qed

lemma gatherRuns_attached:
  assumes "gatherRuns pf s rs t" and "between s"
  shows "(\<forall>r \<in> set rs. r = Ok ()) \<and> between t"
  using assms by (induction rule: gatherRuns.induct) (use gatherRun_attached in auto)

text \<open>The call after any number of calls, with its goroutines in any order.\<close>

lemma schedules_attached:
  assumes "between s"
  shows "(\<exists>t. gatherRun pf s (Ok ()) t)
    \<and> (\<exists>due w keys u V. needsRefresh pf s = Some (Ok due, s\<lparr>world := w\<rparr>) \<and> launch pf s = Some (Ok (Some keys), u)
        \<and> (\<forall>gs t. (schedule pf)\<^sup>*\<^sup>* (map Launched keys, u) (gs, t) \<longrightarrow> (\<nexists>d. schedule pf (gs, t) d) \<longrightarrow>
             gs = map Finished keys \<and> att t \<and> reported (items V) s t \<and> renewed s due V t))"
proof -
  obtain due w keys u V where u: "needsRefresh pf s = Some (Ok due, s\<lparr>world := w\<rparr>)" "launch pf s = Some (Ok (Some keys), u)"
    "att u" "launched (items V) keys u" "emitted u = emitted s" "renewed s due V u"
    using launch_attached [OF assms] by blast
  have read: "readable pf (\<lambda>w. view w = view (world u)) (\<lambda>_. readings (view (world u))) keys u" using u(4) by (simp add: launched_def)
  have all: "gs = map Finished keys" if "(schedule pf)\<^sup>*\<^sup>* (map Launched keys, u) (gs, t)" "\<nexists>d. schedule pf (gs, t) d" for gs t
    using underWay_stuck [OF read underWay_reached [OF read that(1)] that(2)] .
  obtain gs t where "(schedule pf)\<^sup>*\<^sup>* (map Launched keys, u) (gs, t)" "\<nexists>d. schedule pf (gs, t) d"
    using schedule_completes [of pf "(map Launched keys, u)"] by auto
  then have "gatherRun pf s (Ok ()) t" using all gatherRun.waited [OF u(2)] by blast
  moreover have "att t \<and> reported (items V) s t \<and> renewed s due V t"
    if "(schedule pf)\<^sup>*\<^sup>* (map Launched keys, u) (map Finished keys, t)" for t
  proof -
    have t: "between t" "reported (items V) u t" "wpc t = wpc u" using launched_reported [OF u(3,4) _ that] u(6) by (auto simp: renewed_def)
    then have "countersOf t = countersOf u" by (auto simp: countersOf_def host_def)
    then show ?thesis using t u(5,6) by (simp add: reported_def renewed_def between_def)
  qed
  ultimately show ?thesis using u(1,2) all by metis
qed

end

section \<open>Without wildcard expansion\<close>

text \<open>
  \<open>attached\<close>: the collector's handles are linked to the view and its configuration has the
  given plan and limit.
\<close>

definition attached ::
    "('w \<Rightarrow> pdhView) \<Rightarrow> nat \<Rightarrow> nat \<Rightarrow> plannedItem list \<Rightarrow> u32 \<Rightarrow> 'w runtime \<Rightarrow> bool" where
  "attached view room cap plan limit s \<longleftrightarrow> linked view room cap 0 s \<and> \<not> UseWildcardsExpansion (wpc s) \<and> configPlan (wpc s) = plan
     \<and> word_of_int (MaxBufferSize (wpc s)) = limit \<and> Object (wpc s) \<noteq> [] \<and> hasCollect (wpc s)"

lemma attached_sampled:
  assumes "attached view room cap plan limit s" and "sampledView Q (view (world s)) (view (world t))" and "sameQueries s t"
    and "map fst (hostCounters (wpc t)) = map fst (hostCounters (wpc s))"
    and "(wpc t)\<lparr>hostCounters := [], lastRefreshed := 0\<rparr> = (wpc s)\<lparr>hostCounters := [], lastRefreshed := 0\<rparr>"
  shows "attached view room cap plan limit t"
proof -
  have same: "UseWildcardsExpansion (wpc t) = UseWildcardsExpansion (wpc s)" "MaxBufferSize (wpc t) = MaxBufferSize (wpc s)"
    "hasCollect (wpc t) = hasCollect (wpc s)" "Object (wpc t) = Object (wpc s)" "Sources (wpc t) = Sources (wpc s)"
    using assms(5) by (cases "wpc s"; cases "wpc t"; simp)+
  then have "configPlan (wpc t) = configPlan (wpc s)" by (simp add: configPlan_def)
  moreover have "linked view room cap 0 t"
    using assms(1-4) same by (intro linked_sampled [of view room cap 0 s Q t]) (simp_all add: attached_def)
  ultimately show ?thesis using assms(1) same by (simp add: attached_def)
qed

text \<open>Cleaning and parsing, with or without refused counters.\<close>

lemma reparse_documented:
  assumes doc: "documented pf view cap A" and fair: "fairRange pf" and at: "attached view room cap plan limit s"
    and room: "room + 2 * length plan \<le> cap"
  defines "A' \<equiv> \<lambda>path. A (utf16PtrFromString path)"
  shows "\<exists>r t. seqP (cleanQueries pf) (parseConfig pf) s = Some (r, t) \<and> attached view room cap plan limit t
           \<and> configured (created A' plan) t \<and> emitted t = emitted s \<and> lastRefreshed (wpc t) = lastRefreshed (wpc s)
           \<and> (if complete A' plan then r = Ok () else \<exists>e. r = Err e)"
proof -
  have linked: "linked view room cap 0 s" and plan: "configPlan (wpc s) = plan" using at by (simp_all add: attached_def)
  obtain c where c: "cleanQueries pf s = Some (Ok (), c)" "used (view (world c)) \<le> room"
    "wpc c = (wpc s)\<lparr>hostCounters := []\<rparr>" "emitted c = emitted s"
    using cleanQueries_linked [OF doc fair linked] by blast
  have none: "host key c = None" for key using c(3) by (simp add: host_def)
  have "linked view room cap (2 * length plan + 0) c"
    using linked c(2,3) none room by (simp add: linked_def heldBy_def outside_none)
  moreover have "configPlan (wpc c) = plan" "Object (wpc c) \<noteq> []"
    using c(3) plan at by (simp_all add: attached_def configPlan_def)
  moreover have "\<not> UseWildcardsExpansion (wpc c)" using c(3) at by (simp add: attached_def)
  ultimately obtain r t where t: "parseConfig pf c = Some (r, t)" "linked view room cap 0 t"
    "gains (created A' plan) (c\<lparr>wpc := defaultSources (wpc c)\<rparr>) t"
    "if complete A' plan then r = Ok () else \<exists>e. r = Err e" "\<not> UseWildcardsExpansion (wpc t)"
    using documented.parseConfig_outcome [of c pf view cap A room 0] doc unfolding A'_def by auto
  note same = gains_fields [OF t(3)]
  have "configPlan (wpc t) = configPlan (wpc c)"
    using same(1,2) configPlan_defaultSources [of "wpc c"] by (simp add: configPlan_def)
  then have "attached view room cap plan limit t"
    using t(2,5) same at c(3) \<open>configPlan (wpc c) = plan\<close> by (simp add: attached_def defaultSources_def)
  moreover have "configured (created A' plan) t"
    using t(3) none by (simp add: configured_def gains_def countersOf_def host_def defaultSources_def)
  moreover have "emitted t = emitted s" using t(3) c(4) by (simp add: gains_def)
  ultimately show ?thesis using c(1,3) t(1,4) same(7) by (simp add: seqP_def bindP_def defaultSources_def)
qed

definition rawAllowed :: "'w platform \<Rightarrow> plannedItem list \<Rightarrow> bool" where
  "rawAllowed pf plan \<longleftrightarrow> build pf = I386 \<longrightarrow> (\<forall>(strict, key, c) \<in> set plan. \<not> useRawValue c)"

lemma created_subset: "set (created A plan) \<subseteq> snd ` set plan"
  unfolding created_def by (auto dest: set_takeWhileD)

lemma configured_raw:
  assumes "rawAllowed pf plan" and "configured (created A plan) s" and "host key s = Some h"
    and "metric \<in> set (host_counters h)"
  shows "useRawValue metric \<longrightarrow> build pf \<noteq> I386"
proof -
  have "withoutHandle metric \<in> set (countersOf s key)" using assms(3,4) by (simp add: countersOf_def)
  then have "withoutHandle metric \<in> snd ` set (created A plan)" using assms(2) by (auto simp: configured_def)
  then obtain strict key' where "(strict, key', withoutHandle metric) \<in> set plan" using created_subset [of A plan] by force
  then show ?thesis using assms(1) by (fastforce simp: rawAllowed_def withoutHandle_def)
qed

text \<open>The collector on a Windows whose data it can read, with counters that complete the plan.\<close>

definition plainly ::
    "'w platform \<Rightarrow> ('w \<Rightarrow> pdhView) \<Rightarrow> (u16 list option \<Rightarrow> bool) \<Rightarrow> (Time \<Rightarrow> bool) \<Rightarrow> nat \<Rightarrow> nat \<Rightarrow> plannedItem list \<Rightarrow> u32
     \<Rightarrow> 'w runtime \<Rightarrow> bool" where
  "plainly pf view A T room cap plan limit s \<longleftrightarrow> documented pf view cap A \<and> fairRange pf \<and> stamps pf T \<and> delivers pf view limit
     \<and> rawAllowed pf plan \<and> room + 2 * length plan \<le> cap \<and> complete (\<lambda>path. A (utf16PtrFromString path)) plan
     \<and> attached view room cap plan limit s"

definition arrayIn :: "pdhView \<Rightarrow> counter \<Rightarrow> (string \<times> go_value) list" where
  "arrayIn V metric = arrayReadings metric (valuesIn V metric)"

interpretation plain: session pf view T "plainly pf view A T room cap plan limit"
    "\<lambda>_. created (\<lambda>path. A (utf16PtrFromString path)) plan" arrayIn
    for pf :: "'w platform" and view T A room cap plan limit
proof (unfold_locales, goal_cases)
  case (1 s)
  then show ?case unfolding plainly_def attached_def by blast
next
  case (2 s)
  then show ?case by (simp add: plainly_def attached_def)
next
  case (3 s Q t)
  then show ?case using attached_sampled [of view room cap plan limit s Q t] by (simp add: plainly_def)
next
  case (4 s)
  then show ?case using reparse_documented [of pf view cap A room plan limit s] by (auto simp: plainly_def)
next
  case (5 s V key h metric)
  then have linked: "linked view room cap 0 s" and limit: "word_of_int (MaxBufferSize (wpc s)) = limit"
    and off: "\<not> UseWildcardsExpansion (wpc s)" by (simp_all add: plainly_def attached_def)
  have "linkedHost (view (world s)) limit h" using linked 5(4) limit by (auto simp: linked_def)
  moreover have "useRawValue metric \<longrightarrow> build pf \<noteq> I386" using configured_raw [of pf, OF _ 5(2,4,5)] 5(1) by (simp add: plainly_def)
  ultimately have "contributes pf (\<lambda>w. view w = view (world s)) False (host_query h) metric
      (arrayReadings metric (valuesIn (view (world s)) metric))"
    using 5 by (intro contributes_delivered [where p = "utf16PtrFromString (counterPath metric)"])
      (auto simp: linkedHost_def sampledTimes_def plainly_def)
  then show ?case using off by (simp add: arrayIn_def)
qed

text \<open>What a call reports: the data of the last sample, of every host with counters.\<close>

definition reportsView :: "('w \<Rightarrow> pdhView) \<Rightarrow> configItem list \<Rightarrow> 'w runtime \<Rightarrow> metric list \<Rightarrow> bool" where
  "reportsView view items t new \<longleftrightarrow> hostReports (\<lambda>_. arrayIn (view (world t))) (remdups (map fst items)) t new"

lemma documented_mono: "documented pf view cap A \<Longrightarrow> cap' \<le> cap \<Longrightarrow> documented pf view cap' A"
  unfolding documented_def
proof (elim conjE, intro conjI)
  assume le: "cap' \<le> cap" and opens: "opensQueries pf view cap"
  show "opensQueries pf view cap'"
    unfolding opensQueries_def
  proof (intro allI impI)
    fix d u w ret q w'
    assume "used (view w) < cap'" and call: "PdhOpenQuery pf d u w = (ret, q, w')"
    then have "used (view w) < cap" using le by simp
    with opens call show "(ucast ret :: u32) = errorSuccess \<and> q \<noteq> 0 \<and> q \<notin> openQueries (view w) \<and> view w' = opened q (view w)"
      unfolding opensQueries_def by blast
  qed
qed (simp_all add: addsCounters_def addsBy_mono)

text \<open>A collector before its first call.\<close>

definition neverCalled :: "'w runtime \<Rightarrow> bool" where
  "neverCalled s \<longleftrightarrow> hostCounters (wpc s) = [] \<and> IsZero (lastRefreshed (wpc s)) \<and> Object (wpc s) \<noteq> [] \<and> hasCollect (wpc s)"

definition unused :: "'w runtime \<Rightarrow> bool" where
  "unused s \<longleftrightarrow> neverCalled s \<and> \<not> UseWildcardsExpansion (wpc s)"

lemma unused_attached:
  assumes "unused s"
  shows "attached view (used (view (world s))) (used (view (world s)) + k) (configPlan (wpc s))
           (word_of_int (MaxBufferSize (wpc s))) s"
proof -
  have none: "host key s = None" for key using assms by (simp add: unused_def neverCalled_def host_def)
  then have "heldBy UNIV s = {}" by (simp add: heldBy_def)
  then show ?thesis using assms none by (simp add: attached_def linked_def unused_def neverCalled_def outside_none)
qed

text \<open>A refused counter of an object marked \<open>FailOnMissing\<close>.\<close>

lemma bindP_eq_Err: "m s = Some (Err e, t) \<Longrightarrow> bindP m f s = Some (Err e, t)"
  by (simp add: bindP_def)

lemma Gather_refused:
  assumes doc: "documented pf view cap A" and fair: "fairRange pf" and room: "room + 2 * length plan \<le> cap"
    and at: "attached view room cap plan limit s" and zero: "IsZero (lastRefreshed (wpc s))"
    and "\<not> complete (\<lambda>path. A (utf16PtrFromString path)) plan"
  shows "\<exists>e t. Gather pf s = Some (Err e, t) \<and> attached view room cap plan limit t
           \<and> IsZero (lastRefreshed (wpc t)) \<and> emitted t = emitted s"
proof -
  obtain e t where t: "seqP (cleanQueries pf) (parseConfig pf) s = Some (Err e, t)" "attached view room cap plan limit t"
    "emitted t = emitted s" "lastRefreshed (wpc t) = lastRefreshed (wpc s)"
    using reparse_documented [OF doc fair at room] assms(6) by auto
  have "Gather pf s = bindP (refresh pf) (\<lambda>go_on. if \<not> go_on then retP () else gatherHosts pf) s"
    using zero Gather_split [of pf s True s] by (simp add: needsRefresh_def prog_simps cfg_def)
  moreover have "refresh pf s = Some (Err e, t)"
    using t(1) unfolding refresh_def seqP_def bindP_assoc [symmetric] by (simp add: bindP_eq_Err)
  ultimately show ?thesis using t zero by (simp add: bindP_eq_Err)
qed

text \<open>A new collector is between two calls.\<close>

lemma unused_between:
  assumes "documented pf view cap A" and "fairRange pf" and "stamps pf T"
    and "delivers pf view (word_of_int (MaxBufferSize (wpc s)))" and "rawAllowed pf (configPlan (wpc s))"
    and "unused s" and "used (view (world s)) + 2 * length (configPlan (wpc s)) \<le> cap"
    and "complete (\<lambda>path. A (utf16PtrFromString path)) (configPlan (wpc s))"
  shows "plain.between view pf A T (used (view (world s))) (used (view (world s)) + 2 * length (configPlan (wpc s)))
           (configPlan (wpc s)) (word_of_int (MaxBufferSize (wpc s))) s"
  using assms documented_mono [OF assms(1,7)] unused_attached [OF assms(6)]
  by (simp add: plain.between_def plainly_def unused_def neverCalled_def)

lemma session_reports:
  assumes "documented pf view cap A" and "fairRange pf" and "stamps pf T"
    and "delivers pf view (word_of_int (MaxBufferSize (wpc s)))" and "rawAllowed pf (configPlan (wpc s))"
    and "unused s" and "used (view (world s)) + 2 * length (configPlan (wpc s)) \<le> cap"
    and "complete (\<lambda>path. A (utf16PtrFromString path)) (configPlan (wpc s))"
  defines "items \<equiv> created (\<lambda>path. A (utf16PtrFromString path)) (configPlan (wpc s))"
  shows "\<exists>s' t. gathers pf n s = Some (replicate n (Ok ()), s') \<and> Gather pf s' = Some (Ok (), t)
           \<and> (\<exists>new. emitted t = emitted s' @ new \<and> reportsView view items t new)"
proof -
  obtain s' where s': "gathers pf n s = Some (replicate n (Ok ()), s')"
    "plain.between view pf A T (used (view (world s))) (used (view (world s)) + 2 * length (configPlan (wpc s)))
       (configPlan (wpc s)) (word_of_int (MaxBufferSize (wpc s))) s'"
    using plain.gathers_attached [OF unused_between [OF assms(1-8)], of n] by blast
  then show ?thesis
    using plain.Gather_attached [OF s'(2)] unfolding plain.reported_def reportsView_def items_def by blast
qed

section \<open>Properties\<close>


subsection \<open>The simulated Windows\<close>

lemma simPlatform_delivers: "delivers simPlatform simView 104857600"
proof -
  have held: "holdsArray AMD64 True m 4096 []" "holdsArray AMD64 False (simMemory 0) 4096 [([97], 0, 7)]" for m
    by (simp_all add: holdsArray_def arrayAt_def layout_simps Let_def All_less_Suc loadPointer_def bytesAt_def simMemory_def
        le64_def le32_def le16_def)
  show ?thesis
    unfolding delivers_def
  proof (intro ballI allI impI)
    fix V raw c q p
    assume "V \<in> range simView"
    then have items: "arrayItems V raw c = simItems raw c" by (auto simp: simView_def)
    have fits: "length (arrayItems V raw c) \<le> 2 ^ 20" "(if raw then 0 else 28 :: u32) < 2 ^ 31"
      "bufferFits 104857600 (if raw then 0 else 28)"
      by (simp_all add: items simItems_def bufferFits_def initialBufferSize_def)
    have "sizedCall simPlatform 1 (\<lambda>w. simView w = V) (if raw then 0 else 28)
        (if raw then rawArrayCall simPlatform c else doubleArrayCall simPlatform c)
        (\<lambda>buf b n t. n = of_nat (length (arrayItems V raw c))
           \<and> holdsArray (build simPlatform) raw (mem simPlatform t) buf (arrayItems V raw c))"
      unfolding items sizedCall_def
      by (cases raw) (use held in \<open>simp_all add: simPlatform_call simItems_def simView_def\<close>)
    then show "length (arrayItems V raw c) \<le> 2 ^ 20 \<and> (\<exists>need. need < 2 ^ 31 \<and> bufferFits 104857600 need
        \<and> sizedCall simPlatform 1 (\<lambda>w. simView w = V) need
            (if raw then rawArrayCall simPlatform c else doubleArrayCall simPlatform c)
            (\<lambda>buf b n t. n = of_nat (length (arrayItems V raw c))
               \<and> holdsArray (build simPlatform) raw (mem simPlatform t) buf (arrayItems V raw c)))"
      using fits by (intro conjI exI [of _ "if raw then 0 else 28"])
  qed
qed

lemma simPlatform_stamps: "stamps simPlatform (\<lambda>_. True)" "fairRange simPlatform"
  by (simp_all add: stamps_def fairRange_def simPlatform_def)

lemma simRuntime_ready:
  "unused (simRuntime False inst)"
  "used (simView (world (simRuntime False inst))) + 2 * length (configPlan (wpc (simRuntime False inst))) \<le> 8"
  "rawAllowed simPlatform (configPlan (wpc (simRuntime False inst)))"
  "delivers simPlatform simView (word_of_int (MaxBufferSize (wpc (simRuntime False inst))))"
  using simPlatform_delivers by (simp_all add: unused_def neverCalled_def simRuntime_plan rawAllowed_def simRuntime_start simPlatform_call)

lemma hostReports_cong:
  assumes "\<And>key h metric. key \<in> set keys \<Longrightarrow> host key t = Some h \<Longrightarrow> metric \<in> set (host_counters h)
            \<Longrightarrow> nvs key metric = nvs' key metric"
  shows "hostReports nvs keys t new = hostReports nvs' keys t new"
proof -
  have "allReadings (nvs key) (host_counters h) = allReadings (nvs' key) (host_counters h)"
    if "key \<in> set keys" "host key t = Some h" for key h
    using assms [OF that] unfolding allReadings_def by (intro arg_cong [where f = concat] map_cong) simp_all
  then show ?thesis unfolding hostReports_def by metis
qed

lemma simView_reports:
  fixes t :: "simState runtime"
  defines "c \<equiv> newCounter 0 (formatPath ''srv'' ''Disk'' ''*'' ''% Idle'') ''srv'' ''Disk'' ''*'' ''% Idle'' '''' False False"
  assumes "reportsView simView [(''srv'', c)] t new" and "countersOf t ''srv'' = [c]"
  shows "\<exists>m. new = [m] \<and> map_of (metric_fields m) ''Percent_Idle'' = Some (FloatValue 7)"
proof -
  obtain h where h: "host ''srv'' t = Some h" "map withoutHandle (host_counters h) = [c]"
    using assms(3) by (auto simp: countersOf_def split: option.splits)
  have "\<not> useRawValue metric" if "metric \<in> set (host_counters h)" for metric
  proof -
    have "withoutHandle metric \<in> set [c]" using that h(2) by (metis image_eqI list.set_map)
    then have "useRawValue (withoutHandle metric) = useRawValue c" by simp
    then show ?thesis by (simp add: withoutHandle_def c_def newCounter_def Let_def)
  qed
  then have "hostReports (\<lambda>_. sampleReadings) [''srv''] t new"
    using assms(2) h(1) unfolding reportsView_def
    by (subst hostReports_cong [where nvs' = "\<lambda>_. arrayIn (simView (world t))"])
       (auto simp: sampleReadings_def arrayIn_def valuesIn_def simView_def simItems_def itemValues_def validStatus_def
         utf16ToString_def surrogate_def encodeRune_def char_of_def bit_0)
  from hostReports_sample [OF this h(1) h(2) [unfolded c_def]] show ?thesis .
qed


text \<open>
  C9. A refused counter of an object marked \<open>FailOnMissing\<close> makes every call fail: on the same
  Windows each of any number of calls returns an error, nothing is handed over, the refresh is
  tried again each time, and the handles in use do not pile up.
\<close>

theorem refused_counter_fails_every_call:
  assumes "documented pf view cap A" and "fairRange pf" and "unused s"
    and "used (view (world s)) + 2 * length (configPlan (wpc s)) \<le> cap"
    and "\<not> complete (\<lambda>path. A (utf16PtrFromString path)) (configPlan (wpc s))"
  shows "\<exists>rs t. gathers pf n s = Some (rs, t) \<and> length rs = n \<and> (\<forall>r \<in> set rs. \<exists>e. r = Err e)
           \<and> emitted t = emitted s \<and> IsZero (lastRefreshed (wpc t))
           \<and> used (view (world t)) \<le> used (view (world s)) + 2 * length (configPlan (wpc s))"
proof -
  let ?room = "used (view (world s))" and ?plan = "configPlan (wpc s)" and ?limit = "word_of_int (MaxBufferSize (wpc s)) :: u32"
  let ?cap = "?room + 2 * length ?plan"
  have doc: "documented pf view ?cap A" using assms(1,4) by (rule documented_mono)
  have "\<exists>rs t. gathers pf n u = Some (rs, t) \<and> length rs = n \<and> (\<forall>r \<in> set rs. \<exists>e. r = Err e)
      \<and> emitted t = emitted u \<and> IsZero (lastRefreshed (wpc t)) \<and> attached view ?room ?cap ?plan ?limit t"
    if "attached view ?room ?cap ?plan ?limit u" "IsZero (lastRefreshed (wpc u))" for u
    using that
  proof (induction n arbitrary: u)
    case (Suc n)
    obtain e t where t: "Gather pf u = Some (Err e, t)" "attached view ?room ?cap ?plan ?limit t"
      "IsZero (lastRefreshed (wpc t))" "emitted t = emitted u"
      using Gather_refused [OF doc assms(2) le_refl Suc.prems assms(5)] by blast
    from Suc.IH [OF t(2,3)] t(1,4) show ?case by auto
  qed simp
  from this [OF unused_attached [OF assms(3)]] assms(3) show ?thesis
    by (fastforce simp: unused_def neverCalled_def attached_def linked_def)
qed

theorem refused_counter_fails_every_call_witness:
  "\<exists>rs t. gathers simPlatform 3 (simRuntime False ''1'') = Some (rs, t) \<and> length rs = 3
     \<and> (\<forall>r \<in> set rs. \<exists>e. r = Err e) \<and> emitted t = [] \<and> used (simView (world t)) \<le> 2"
proof -
  let ?A' = "\<lambda>path. \<not> hasOne (utf16PtrFromString path)" and ?s = "simRuntime False ''1''"
  have "\<not> complete ?A' (configPlan (wpc ?s))"
    using simPlatform_paths(2) by (simp add: simRuntime_plan complete_def tolerated_def accepted_def)
  from refused_counter_fails_every_call [OF simPlatform_documented simPlatform_stamps(2) simRuntime_ready(1,2) this, of 3]
  show ?thesis by (simp add: simRuntime_plan) (auto simp: simRuntime_def used_def simView_def)
qed

end
