(* ===== verification/Handles.thy ===== *)
theory Handles
  imports Session
begin

text \<open>
  No query is lost (\<open>Gather\<close> and what it calls in \<open>win_perf_counters.go\<close>, \<open>Open\<close> and \<open>Close\<close>
  of \<open>performance_query.go\<close>): at every moment between two calls the queries that Windows has
  open are those that were open before and those whose handles the collector holds, one for
  each host, whatever failed meanwhile. It is an instance of the locale \<open>collector_invariant\<close>.
\<close>

section \<open>Queries that Windows has open\<close>

text \<open>
  \<open>Q\<close> is the set of open queries in a state of the machine: opening a query yields a handle
  that is not in use or opens nothing, closing one removes it or fails and leaves it open,
  and no other call changes the set.
\<close>

definition opensTracked :: "'w platform \<Rightarrow> ('w \<Rightarrow> pdhQueryHandle set) \<Rightarrow> bool" where
  "opensTracked pf Q \<longleftrightarrow> (\<forall>d u w ret q w'. PdhOpenQuery pf d u w = (ret, q, w') \<longrightarrow>
     (if (ucast ret :: u32) = errorSuccess then q \<noteq> 0 \<and> q \<notin> Q w \<and> Q w' = insert q (Q w) else Q w' = Q w))"

definition closesTracked :: "'w platform \<Rightarrow> ('w \<Rightarrow> pdhQueryHandle set) \<Rightarrow> bool" where
  "closesTracked pf Q \<longleftrightarrow> (\<forall>q w ret w'. PdhCloseQuery pf q w = (ret, w') \<longrightarrow>
     Q w' = (if (ucast ret :: u32) = errorSuccess then Q w - {q} else Q w))"

definition keepsTracked :: "'w platform \<Rightarrow> ('w \<Rightarrow> pdhQueryHandle set) \<Rightarrow> bool" where
  "keepsTracked pf Q \<longleftrightarrow> quiet pf Q \<and> (\<forall>w q.
       (\<forall>p u. Q (snd (snd (PdhAddCounterW pf q p u w))) = Q w)
     \<and> (\<forall>proc p u. PdhAddEnglishCounterW pf = Some proc \<longrightarrow> Q (snd (snd (proc q p u w))) = Q w)
     \<and> Q (snd (PdhCollectQueryData pf q w)) = Q w
     \<and> (\<forall>proc. PdhCollectQueryDataWithTime pf = Some proc \<longrightarrow> Q (snd (snd (proc q w))) = Q w))"

definition tracks :: "'w platform \<Rightarrow> ('w \<Rightarrow> pdhQueryHandle set) \<Rightarrow> bool" where
  "tracks pf Q \<longleftrightarrow> opensTracked pf Q \<and> closesTracked pf Q \<and> keepsTracked pf Q"

lemma tracks_quiet: "tracks pf Q \<Longrightarrow> quiet pf Q"
  by (simp add: tracks_def keepsTracked_def)

lemma tracks_simps:
  assumes "tracks pf Q"
  shows "Q (snd (snd (PdhAddCounterW pf q p u w))) = Q w"
    "PdhAddEnglishCounterW pf = Some proc \<Longrightarrow> Q (snd (snd (proc q p u w))) = Q w"
    "Q (snd (PdhCollectQueryData pf q w)) = Q w"
    "PdhCollectQueryDataWithTime pf = Some proc' \<Longrightarrow> Q (snd (snd (proc' q w))) = Q w"
  using assms unfolding tracks_def keepsTracked_def by metis+

section \<open>Methods of the query that keep a view\<close>

text \<open>A program over the machine returns and keeps the view.\<close>

definition still :: "('w \<Rightarrow> 'v) \<Rightarrow> ('w, 'a) prog \<Rightarrow> bool" where
  "still view p \<longleftrightarrow> (\<forall>w. \<exists>r w'. p w = Some (r, w') \<and> view w' = view w)"

context buffered_read
begin

lemma getter_still:
  assumes "quiet pf view" and "maxBufferSize m < 2 ^ 31"
    and "\<And>buf b w ret sz n w'. call buf b w = (ret, sz, n, w') \<Longrightarrow> sz < 2 ^ 31"
    and "\<And>buf b w. view (snd (snd (snd (call buf b w)))) = view w"
  shows "still view (getter m)"
  unfolding still_def
proof
  fix w
  have alloc: "view w1 = view w0" if "newObject pf k w0 = (buf, w1)" for k w0 buf w1
    using quiet_simps(1) [OF assms(1), of k w0] that by simp
  have calls: "view w2 = view w1" if "call buf b w1 = (ret, sz, n, w2)" for buf b w1 ret sz n w2
    using assms(4) [of buf b w1] that by simp
  have "\<exists>r t. bufferLoop pf width (maxBufferSize m) call decode initialBufferSize w = Some (r, t) \<and> view t = view w"
    by (rule bufferLoop_rule [where J = "\<lambda>t. view t = view w"])
       (use assms(1-3) alloc calls in \<open>auto simp: initialBufferSize_def\<close>)
  then show "\<exists>r t. getter m w = Some (r, t) \<and> view t = view w" by (simp add: getter_loop)
qed

end

lemma array_methods_still:
  assumes "quiet pf view" and "boundedSizes pf" and "maxBufferSize m < 2 ^ 31"
  shows "still view (GetCounterPath pf m h)" "still view (ExpandWildCardPath pf m path)"
    "still view (GetFormattedCounterArrayDouble pf m h)" "still view (GetRawCounterArray pf m h)"
proof -
  note quiet = quiet_simps [OF assms(1)]
  show "still view (GetCounterPath pf m h)"
    by (rule counterPath.getter_still [OF assms(1,3)])
       (erule boundedSizes_calls(1) [OF assms(2)], simp add: pdhGetCounterInfo_def case_prod_unfold Let_def quiet)
  show "still view (ExpandWildCardPath pf m path)"
    by (rule expand.getter_still [OF assms(1,3)])
       (erule boundedSizes_calls(2) [OF assms(2)], simp add: pdhExpandWildCardPath_def case_prod_unfold Let_def quiet)
  show "still view (GetFormattedCounterArrayDouble pf m h)"
    by (rule doubleArray.getter_still [OF assms(1,3)])
       (erule boundedSizes_calls(5) [OF assms(2)], simp add: pdhGetFormattedCounterArrayDouble_def case_prod_unfold Let_def quiet)
  show "still view (GetRawCounterArray pf m h)"
    by (rule rawArray.getter_still [OF assms(1,3)])
       (erule boundedSizes_calls(6) [OF assms(2)], simp add: pdhGetRawCounterArray_def case_prod_unfold Let_def quiet)
qed

lemma singleValue_still:
  assumes "quiet pf view" and "\<And>p w. view (snd (call p w)) = view w"
  shows "still view (singleValue pf val call load)"
  unfolding still_def singleValue_def
  by (simp add: case_prod_unfold Let_def failPdh_eq assms quiet_simps(1) [OF assms(1)])

lemma value_methods_still:
  assumes "quiet pf view"
  shows "still view (GetFormattedCounterValueDouble pf m h)" "still view (GetRawCounterValue pf m h)"
proof -
  note quiet = quiet_simps [OF assms]
  show "still view (GetFormattedCounterValueDouble pf m h)"
    unfolding GetFormattedCounterValueDouble_def
    by (rule singleValue_still [OF assms])
       (simp add: pdhGetFormattedCounterValueDouble_def case_prod_unfold Let_def quiet)
  have "still view (singleValue pf (pdhRawCounter (build pf)) (pdhGetRawCounterValue pf h) (loadFirst (build pf)))"
    by (rule singleValue_still [OF assms]) (simp add: pdhGetRawCounterValue_def case_prod_unfold Let_def quiet)
  then show "still view (GetRawCounterValue pf m h)"
    by (simp add: GetRawCounterValue_def still_def failP_def)
qed

lemma handle_methods_still:
  assumes "tracks pf Q"
  shows "still Q (AddCounterToQuery pf m path)" "still Q (AddEnglishCounterToQuery pf m path)"
    "still Q (CollectData pf m)" "still Q (CollectDataWithTime pf m)"
proof -
  note quiet = tracks_quiet [OF assms]
  note simps = tracks_simps [OF assms] quiet_simps [OF quiet] quiet_newPdhError [OF quiet]
  show "still Q (AddCounterToQuery pf m path)"
    by (simp add: still_def AddCounterToQuery_def pdhAddCounter_def case_prod_unfold Let_def failPdh_eq simps)
  show "still Q (AddEnglishCounterToQuery pf m path)"
    by (simp add: still_def AddEnglishCounterToQuery_def pdhAddEnglishCounter_def case_prod_unfold Let_def
        failPdh_eq simps split: option.split)
  show "still Q (CollectData pf m)"
    by (simp add: still_def CollectData_def pdhCollectQueryData_def case_prod_unfold Let_def failPdh_eq simps)
  show "still Q (CollectDataWithTime pf m)"
    by (simp add: still_def CollectDataWithTime_def pdhCollectQueryDataWithTime_def case_prod_unfold Let_def
        simps split: option.split)
qed

section \<open>Handles that the collector holds\<close>

definition handleOf :: "hostCountersInfo \<Rightarrow> pdhQueryHandle option" where
  "handleOf h = (if isOpen (host_query h) then Some (queryHandle (host_query h)) else None)"

definition handles :: "'w runtime \<Rightarrow> string \<rightharpoonup> pdhQueryHandle" where
  "handles s = (\<lambda>key. Option.bind (host key s) handleOf)"

text \<open>
  The books are balanced: the open queries are \<open>base\<close> and those of the hosts, which are
  different from one another and from those of \<open>base\<close>.
\<close>

definition balanced :: "('w \<Rightarrow> pdhQueryHandle set) \<Rightarrow> pdhQueryHandle set \<Rightarrow> 'w runtime \<Rightarrow> bool" where
  "balanced Q base s \<longleftrightarrow> Q (world s) = base \<union> ran (handles s) \<and> base \<inter> ran (handles s) = {}
     \<and> inj_on (handles s) (dom (handles s))"

lemma handles_update [simp]:
  "handles (s\<lparr>world := w\<rparr>) = handles s" "handles (s\<lparr>loglines := l\<rparr>) = handles s" "handles (s\<lparr>emitted := e\<rparr>) = handles s"
  "handles (s\<lparr>wpc := (wpc s)\<lparr>cachedHostname := name\<rparr>\<rparr>) = handles s"
  "handles (s\<lparr>wpc := (wpc s)\<lparr>Sources := sources\<rparr>\<rparr>) = handles s"
  "handles (s\<lparr>wpc := (wpc s)\<lparr>lastRefreshed := t\<rparr>\<rparr>) = handles s"
  by (simp_all add: handles_def host_def)

lemma handles_setHost: "handles (setHost key h s) = (handles s)(key := handleOf h)"
  by (auto simp: handles_def host_setHost)

lemma handles_setHost_same:
  "host key s = Some h \<Longrightarrow> host_query h' = host_query h \<Longrightarrow> handles (setHost key h' s) = handles s"
  by (auto simp: handles_def host_setHost handleOf_def)

lemma balanced_same:
  "handles t = handles s \<Longrightarrow> Q (world t) = Q (world s) \<Longrightarrow> balanced Q base t = balanced Q base s"
  by (simp add: balanced_def)

lemma balanced_opened:
  assumes "balanced Q base s" and "handles s key = None"
    and "q \<notin> Q (world s)" and "Q (world t) = insert q (Q (world s))" and "handles t = (handles s)(key \<mapsto> q)"
  shows "balanced Q base t"
proof -
  have "ran (handles t) = insert q (ran (handles s))" using assms(2,5) by simp
  moreover have "inj_on (handles t) (dom (handles t))"
    using assms by (auto simp: balanced_def inj_on_def ran_def)
  ultimately show ?thesis using assms by (auto simp: balanced_def)
qed

lemma balanced_closed:
  assumes "balanced Q base s" and "handles s key = Some q"
    and "Q (world t) = Q (world s) - {q}" and "handles t = (handles s)(key := None)"
  shows "balanced Q base t"
proof -
  have "handles s key' \<noteq> Some q" if "key' \<noteq> key" for key'
    using assms(1,2) that unfolding balanced_def inj_on_def by (metis domI)
  then have "ran (handles t) = ran (handles s) - {q}"
    using assms(2,4) by (auto simp: ran_def) (metis option.inject)
  moreover have "q \<in> ran (handles s)" using assms(2) by (rule ranI)
  moreover have "inj_on (handles t) (dom (handles t))"
    using assms(1,4) by (auto simp: balanced_def inj_on_def)
  ultimately show ?thesis using assms(1,3) unfolding balanced_def by blast
qed

section \<open>The steps of the collector\<close>

text \<open>Opening the query of a new host and closing one keep the books.\<close>

lemma ensureHost_balanced:
  assumes "tracks pf Q" and "balanced Q base s" and "ensureHost pf computer tag s = Some (r, t)"
  shows "balanced Q base t"
proof (cases "host computer s")
  case (Some h)
  then show ?thesis using assms(2,3) by (simp add: ensureHost_def prog_simps)
next
  case None
  let ?q = "newPerformanceQuery computer (word_of_int (MaxBufferSize (wpc s)))"
  let ?h = "\<lparr>host_computer = computer, host_tag = tag, host_counters = [], host_query = ?q, host_timestamp = zeroTime\<rparr>"
  obtain ret q w where call: "PdhOpenQuery pf 0 0 (world s) = (ret, q, w)" by (metis prod_cases3)
  have closed: "handleOf ?h = None" "handles s computer = None"
    using None by (simp_all add: handleOf_def isOpen_def newPerformanceQuery_def handles_def)
  note run = assms(3) [unfolded ensureHost_def]
  show ?thesis
  proof (cases "(ucast ret :: u32) = errorSuccess")
    case True
    then have "q \<noteq> 0" "q \<notin> Q (world s)" "Q w = insert q (Q (world s))"
      using assms(1) call unfolding tracks_def opensTracked_def by metis+
    moreover have "t = (setHost computer (?h\<lparr>host_query := ?q\<lparr>queryHandle := q\<rparr>\<rparr>) (setHost computer ?h s))\<lparr>world := w\<rparr>"
      using run None True call
      by (simp add: prog_simps cfg_def changeQuery_def onHost_def host_setHost Open_def openHandle_def pdhOpenQuery_def
          newPerformanceQuery_def)
    ultimately show ?thesis
      using balanced_opened [OF assms(2) closed(2), of q t]
      by (simp add: handles_setHost handleOf_def isOpen_def)
  next
    case False
    then have "Q w = Q (world s)"
      using assms(1) call unfolding tracks_def opensTracked_def by metis
    moreover have "t = (setHost computer ?h (setHost computer ?h s))\<lparr>world := snd (newPdhError pf (ucast ret) w)\<rparr>"
      using run None False call
      by (simp add: prog_simps cfg_def changeQuery_def onHost_def host_setHost Open_def openHandle_def pdhOpenQuery_def
          newPerformanceQuery_def withMachine_failPdh)
    ultimately show ?thesis
      using balanced_same [of t s Q base] assms(2) closed quiet_newPdhError [OF tracks_quiet [OF assms(1)]]
      by (simp add: handles_setHost fun_upd_idem)
  qed
qed

lemma closeHost_balanced:
  assumes "tracks pf Q" and "balanced Q base s" and "changeQuery key (Close pf) s = Some (r, t)"
  shows "balanced Q base t" and "r = Ok () \<Longrightarrow> handles t = (handles s)(key := None)"
    and "r \<noteq> Ok () \<Longrightarrow> handles t = handles s"
proof -
  have "balanced Q base t \<and> (r = Ok () \<longrightarrow> handles t = (handles s)(key := None)) \<and> (r \<noteq> Ok () \<longrightarrow> handles t = handles s)"
  proof (cases "host key s")
    case None
    then show ?thesis using assms(2,3) by (auto simp: changeQuery_def onHost_def)
  next
    case (Some h)
    note run = assms(3) [unfolded changeQuery_def onHost_def Some option.case]
    have same: "handles (setHost key h s) = handles s" using Some by (rule handles_setHost_same) simp
    show ?thesis
    proof (cases "queryHandle (host_query h) = 0")
      case True
      then have "r = Err errUninitializedQuery" "t = (setHost key h s)\<lparr>world := world s\<rparr>"
        using run by (simp_all add: Close_def)
      then show ?thesis using same assms(2) balanced_same [of t s Q base] by simp
    next
      case False
      let ?q = "queryHandle (host_query h)"
      obtain ret w where call: "PdhCloseQuery pf ?q (world s) = (ret, w)" by fastforce
      have Q: "Q w = (if (ucast ret :: u32) = errorSuccess then Q (world s) - {?q} else Q (world s))"
        using assms(1) call unfolding tracks_def closesTracked_def by blast
      show ?thesis
      proof (cases "(ucast ret :: u32) = errorSuccess")
        case True
        have "handles s key = Some ?q" using Some False by (simp add: handles_def handleOf_def isOpen_def)
        moreover have "r = Ok ()" "t = (setHost key (h\<lparr>host_query := (host_query h)\<lparr>queryHandle := 0\<rparr>\<rparr>) s)\<lparr>world := w\<rparr>"
          using run False True call by (simp_all add: Close_def pdhCloseQuery_def)
        ultimately show ?thesis
          using balanced_closed [OF assms(2), of key ?q t] Q True by (simp add: handles_setHost handleOf_def isOpen_def)
      next
        case failed: False
        then have "r \<noteq> Ok ()" "t = (setHost key h s)\<lparr>world := snd (newPdhError pf (ucast ret) w)\<rparr>"
          using run False call by (auto simp: Close_def pdhCloseQuery_def withMachine_failPdh)
        then show ?thesis
          using same balanced_same [of t s Q base] assms(2) Q failed quiet_newPdhError [OF tracks_quiet [OF assms(1)]] by simp
      qed
    qed
  qed
  then show "balanced Q base t" "r = Ok () \<Longrightarrow> handles t = (handles s)(key := None)" "r \<noteq> Ok () \<Longrightarrow> handles t = handles s"
    by auto
qed

lemma closeAll_balanced:
  assumes "tracks pf Q" and "balanced Q base s" and "forP keys (\<lambda>key. changeQuery key (Close pf)) s = Some (r, t)"
  shows "balanced Q base t" and "r = Ok () \<Longrightarrow> dom (handles t) = dom (handles s) - set keys"
proof -
  have "balanced Q base t \<and> (r = Ok () \<longrightarrow> dom (handles t) = dom (handles s) - set keys)"
    using assms(2,3)
  proof (induction keys arbitrary: s)
    case Nil
    then show ?case by (simp add: retP_def)
  next
    case (Cons key keys)
    obtain r1 u where step: "changeQuery key (Close pf) s = Some (r1, u)"
      and rest: "(case r1 of Ok _ \<Rightarrow> forP keys (\<lambda>key. changeQuery key (Close pf)) u | Err e \<Rightarrow> Some (Err e, u)
                  | Panic p \<Rightarrow> Some (Panic p, u)) = Some (r, t)"
      using Cons.prems(2) by (auto simp: bindP_def split: option.splits)
    note u = closeHost_balanced [OF assms(1) Cons.prems(1) step]
    show ?case
    proof (cases "r1 = Ok ()")
      case True
      then show ?thesis using Cons.IH [OF u(1)] u(2) rest by (auto split: if_splits)
    next
      case False
      then show ?thesis using u(1) rest by (cases r1) auto
    qed
  qed
  then show "balanced Q base t" "r = Ok () \<Longrightarrow> dom (handles t) = dom (handles s) - set keys" by auto
qed

lemma cleanQueries_balanced:
  assumes "tracks pf Q" and "fairRange pf" and "balanced Q base s" and "cleanQueries pf s = Some (r, t)"
  shows "balanced Q base t"
proof -
  obtain keys w where range: "rangeHosts pf s = Some (Ok keys, s\<lparr>world := w\<rparr>)" "set keys = fst ` set (hostCounters (wpc s))"
    and w: "Q w = Q (world s)"
  proof -
    let ?n = "length (map fst (hostCounters (wpc s)))"
    obtain keys w where "rangeHosts pf s = Some (Ok keys, s\<lparr>world := w\<rparr>)" "set keys = fst ` set (hostCounters (wpc s))"
      using rangeHosts_keys [OF assms(2)] by blast
    moreover from this(1) have "w = snd (rangePerm pf ?n (world s))"
      by (auto simp: rangeHosts_def Let_def case_prod_unfold dest: arg_cong [where f = world])
    ultimately show thesis using that quiet_simps(5) [OF tracks_quiet [OF assms(1)]] by simp
  qed
  have start: "balanced Q base (s\<lparr>world := w\<rparr>)" using assms(3) w by (simp add: balanced_def)
  obtain r1 u where close: "forP keys (\<lambda>key. changeQuery key (Close pf)) (s\<lparr>world := w\<rparr>) = Some (r1, u)"
    and rest: "(case r1 of Ok _ \<Rightarrow> Some (Ok (), u\<lparr>wpc := (wpc u)\<lparr>hostCounters := []\<rparr>\<rparr>) | Err e \<Rightarrow> Some (Err e, u)
                | Panic p \<Rightarrow> Some (Panic p, u)) = Some (r, t)"
    using assms(4) range(1)
    by (auto simp: cleanQueries_def seqP_def bindP_def setCfg_def modifyP_def split: option.splits)
  note u = closeAll_balanced [OF assms(1) start close]
  show ?thesis
  proof (cases "r1 = Ok ()")
    case True
    have "dom (handles s) \<subseteq> set keys"
      using range(2) by (auto simp: handles_def host_def bind_eq_Some_conv) (metis fst_conv image_eqI map_of_SomeD)
    then have "dom (handles u) = {}" using u(2) [OF True] by auto
    then have "handles u = Map.empty" by simp
    moreover have "handles t = Map.empty" "world t = world u" using rest True by (auto simp: handles_def host_def)
    ultimately show ?thesis using u(1) by (simp add: balanced_def)
  next
    case False
    then show ?thesis using u(1) rest by (cases r1) auto
  qed
qed

section \<open>The invariant\<close>

definition accounted :: "'w platform \<Rightarrow> ('w \<Rightarrow> pdhQueryHandle set) \<Rightarrow> pdhQueryHandle set \<Rightarrow> 'w runtime \<Rightarrow> bool" where
  "accounted pf Q base s \<longleftrightarrow> (tracks pf Q \<and> fairRange pf \<and> boundedSizes pf) \<and> goodRuntime s \<and> balanced Q base s"

text \<open>A program that keeps the collector well formed, and the books when it returns.\<close>

lemma keeps_accounted:
  assumes "boundedSizes pf \<Longrightarrow> keeps goodRuntime m"
    and "\<And>s r t. tracks pf Q \<Longrightarrow> fairRange pf \<Longrightarrow> balanced Q base s \<Longrightarrow> m s = Some (r, t) \<Longrightarrow> balanced Q base t"
  shows "keeps (accounted pf Q base) m"
proof (rule keepsI)
  fix s assume s: "accounted pf Q base s"
  then obtain r t where "m s = Some (r, t)" "goodRuntime t"
    using assms(1) by (auto simp: accounted_def elim: keepsE)
  then show "\<exists>r t. m s = Some (r, t) \<and> accounted pf Q base t"
    using s assms(2) [of s r t] by (simp add: accounted_def)
qed

lemma keeps_still:
  assumes "\<And>q. tracks pf Q \<Longrightarrow> boundedSizes pf \<Longrightarrow> maxBufferSize q < 2 ^ 31 \<Longrightarrow> still Q (p q)"
  shows "keeps (accounted pf Q base) (readQuery key p)"
proof (rule keepsI)
  fix s assume s: "accounted pf Q base s"
  show "\<exists>r t. readQuery key p s = Some (r, t) \<and> accounted pf Q base t"
  proof (cases "host key s")
    case None
    then show ?thesis using s by (simp add: readQuery_def onHost_def)
  next
    case (Some h)
    then have "maxBufferSize (host_query h) < 2 ^ 31" using s goodRuntime_host(2) by (auto simp: accounted_def)
    then have "still Q (p (host_query h))" using assms s by (simp add: accounted_def)
    then obtain r w where "p (host_query h) (world s) = Some (r, w)" "Q w = Q (world s)"
      unfolding still_def by blast
    then show ?thesis
      using Some s by (simp add: readQuery_def onHost_def machine_def accounted_def balanced_def)
  qed
qed

lemma accounted_step:
  assumes "accounted pf Q base s" and "goodRuntime t = goodRuntime s" and "handles t = handles s"
    and "tracks pf Q \<Longrightarrow> Q (world t) = Q (world s)"
  shows "accounted pf Q base t"
  using assms by (simp add: accounted_def balanced_def)

lemma keeps_accounted_host:
  fixes pf :: "'w platform"
  assumes "\<And>h. host_query (f h) = host_query h"
    and "keeps (goodRuntime :: 'w runtime \<Rightarrow> bool) (onHost key (\<lambda>h. modifyP (setHost key (f h))))"
  shows "keeps (accounted pf Q base) (onHost key (\<lambda>h. modifyP (setHost key (f h))))"
proof (rule keeps_accounted)
  fix s r t
  assume s: "balanced Q base s" and run: "onHost key (\<lambda>h. modifyP (setHost key (f h))) s = Some (r, t)"
  then have "handles t = handles s" "world t = world s"
    using handles_setHost_same [of key s _ "f _"] assms(1)
    by (auto simp: onHost_def modifyP_def setHost_def split: option.splits)
  then show "balanced Q base t" using s by (simp add: balanced_def)
qed (rule assms(2))

interpretation accounted: collector_invariant pf "accounted pf Q base" for pf Q base
proof unfold_locales
  show "accounted pf Q base s \<Longrightarrow> accounted pf Q base (s\<lparr>loglines := l\<rparr>)" for s l
    by (erule accounted_step) simp_all
  show "accounted pf Q base s \<Longrightarrow> accounted pf Q base (s\<lparr>emitted := l\<rparr>)" for s l
    by (erule accounted_step) simp_all
  show "accounted pf Q base s \<Longrightarrow> accounted pf Q base (s\<lparr>wpc := (wpc s)\<lparr>cachedHostname := x\<rparr>\<rparr>)" for s x
    by (erule accounted_step) simp_all
  show "accounted pf Q base s \<Longrightarrow> accounted pf Q base (s\<lparr>wpc := (wpc s)\<lparr>Sources := x\<rparr>\<rparr>)" for s x
    by (erule accounted_step) simp_all
  show "accounted pf Q base s \<Longrightarrow> accounted pf Q base (s\<lparr>wpc := (wpc s)\<lparr>lastRefreshed := x\<rparr>\<rparr>)" for s x
    by (erule accounted_step) simp_all
  show "accounted pf Q base s \<Longrightarrow> accounted pf Q base (s\<lparr>world := snd (rangePerm pf n (world s))\<rparr>)" for s n
    by (erule accounted_step) (simp_all add: quiet_simps tracks_quiet)
  show "accounted pf Q base s \<Longrightarrow> accounted pf Q base (s\<lparr>world := snd (osHostname pf (world s))\<rparr>)" for s
    by (erule accounted_step) (simp_all add: quiet_simps tracks_quiet)
  show "accounted pf Q base s \<Longrightarrow> accounted pf Q base (s\<lparr>world := snd (timeNow pf (world s))\<rparr>)" for s
    by (erule accounted_step) (simp_all add: quiet_simps tracks_quiet)
  show "accounted pf Q base s \<Longrightarrow> accounted pf Q base (s\<lparr>world := timeSleep pf d (world s)\<rparr>)" for s d
    by (erule accounted_step) (simp_all add: quiet_simps tracks_quiet)
  show "keeps (accounted pf Q base) (ensureHost pf computer tag)" for computer tag
    by (rule keeps_accounted [OF keeps_ensureHost ensureHost_balanced])
  show "keeps (accounted pf Q base) (cleanQueries pf)"
    by (rule keeps_accounted [OF keeps_cleanQueries cleanQueries_balanced])
  show "counter_measurement c \<noteq> '''' \<Longrightarrow> keeps (accounted pf Q base) (appendCounter key c)" for c key
    using keeps_accounted_host [OF _ keeps_appendCounter [unfolded appendCounter_def]] by (simp add: appendCounter_def)
  show "keeps (accounted pf Q base) (setTimestamp key t)" for key t
    using keeps_accounted_host [OF _ keeps_setTimestamp [unfolded setTimestamp_def]] by (simp add: setTimestamp_def)
qed (intro keeps_still handle_methods_still array_methods_still value_methods_still tracks_quiet; assumption)+

lemma accounted_start:
  assumes "tracks pf Q" and "fairRange pf" and "boundedSizes pf" and "goodRuntime s" and "hostCounters (wpc s) = []"
  shows "accounted pf Q (Q (world s)) s"
proof -
  have "handles s = Map.empty" using assms(5) by (simp add: handles_def host_def)
  then show ?thesis using assms by (simp add: accounted_def balanced_def)
qed

lemma cleanQueries_hosts: "cleanQueries pf s = Some (Ok (), t) \<Longrightarrow> hostCounters (wpc t) = []"
  by (auto simp: cleanQueries_def seqP_def bindP_def setCfg_def modifyP_def split: option.splits result.splits)

text \<open>The goroutines of a call keep an invariant at each of their steps.\<close>

context collector_invariant
begin

lemma keeps_goStep: "keeps J (goStep pf g)"
  by (cases "(pf, g)" rule: goStep.cases) (auto intro!: keeps_rules)

lemma keeps_launch: "keeps J (launch pf)"
  unfolding launch_def by (intro keeps_rules)

lemma schedule_keeps: "(schedule pf)\<^sup>*\<^sup>* c d \<Longrightarrow> J (snd c) \<Longrightarrow> J (snd d)"
  by (induction rule: rtranclp_induct) (auto elim!: schedule.cases dest: keepsD [OF keeps_goStep])

lemma gatherRuns_keep: "gatherRuns pf s rs t \<Longrightarrow> J s \<Longrightarrow> J t"
proof (induction rule: gatherRuns.induct)
  case (another s rs t r u)
  then have "J t" by blast
  from another.hyps(2) show ?case
    by (cases rule: gatherRunE) (use keepsD [OF keeps_launch \<open>J t\<close>] schedule_keeps in fastforce)+
qed simp

end

section \<open>Properties\<close>

text \<open>
  C5. No query is lost: after any number of calls of \<open>Gather\<close>, whatever Windows refused and
  whichever calls ended with an error or a panic, with or without wildcard expansion and in
  whatever order the goroutines of each call ran, the queries that Windows has open are
  those that were open at the start and those whose handles the collector's hosts hold, each
  held by one host; and when \<open>cleanQueries\<close> succeeds, all that the collector opened is closed.
  The calls do come back.
\<close>

theorem no_query_lost:
  assumes "tracks pf Q" and "fairRange pf" and "boundedSizes pf" and "goodRuntime s" and "hostCounters (wpc s) = []"
  shows "(\<exists>rs t. gathers pf n s = Some (rs, t) \<and> length rs = n \<and> balanced Q (Q (world s)) t)
       \<and> (\<forall>rs t. gatherRuns pf s rs t \<longrightarrow> balanced Q (Q (world s)) t
            \<and> (\<forall>u. cleanQueries pf t = Some (Ok (), u) \<longrightarrow> Q (world u) = Q (world s)))"
proof -
  note start = accounted_start [OF assms]
  have "Q (world u) = Q (world s)" if "balanced Q (Q (world s)) t" and u: "cleanQueries pf t = Some (Ok (), u)" for t u
  proof -
    have "balanced Q (Q (world s)) u" using cleanQueries_balanced [OF assms(1,2) that] .
    moreover have "handles u = Map.empty" using cleanQueries_hosts [OF u] by (simp add: handles_def host_def)
    ultimately show ?thesis by (simp add: balanced_def)
  qed
  moreover have "balanced Q (Q (world s)) t" if "gatherRuns pf s rs t" for rs t
    using accounted.gatherRuns_keep [OF that start] by (simp add: accounted_def)
  ultimately show ?thesis
    using accounted.gathers_keep [OF start, of n] unfolding accounted_def by blast
qed

lemma simPlatform_tracks: "tracks simPlatform (\<lambda>w. openQueries (fst w))" "boundedSizes simPlatform"
  by (auto simp: tracks_def opensTracked_def closesTracked_def keepsTracked_def quiet_def simPlatform_def simAdd_def
      boundedSizes_def view_defs Let_def freshHandle_free split: if_splits)

theorem no_query_lost_witness:
  "\<exists>rs t. gathers simPlatform 2 (simRuntime False ''1'') = Some (rs, t) \<and> openQueries (fst (world t)) = ran (handles t)"
proof -
  have "goodRuntime (simRuntime False ''1'')" "hostCounters (wpc (simRuntime False ''1'')) = []" "openQueries (fst (world (simRuntime False ''1''))) = {}"
    by (simp_all add: simRuntime_def goodRuntime_def wfHosts_def NewWinPerfCounters_def defaultMaxBufferSize_def)
  then show ?thesis
    using no_query_lost [OF simPlatform_tracks(1) simPlatform_stamps(2) simPlatform_tracks(2), of "simRuntime False ''1''" 2]
    by (auto simp: balanced_def)
qed

end
