(* ===== verification/Expansion.thy ===== *)
theory Expansion
  imports Simulated
begin

text \<open>
  The expansion of wildcards (\<open>addItem\<close> under \<open>parseConfig\<close> of \<open>win_perf_counters.go\<close>): which
  counters come out of the paths that Windows lists, with localised names or with the
  configured English ones, and which are left out. What the proof needs of Windows and of the
  state is the locale \<open>expansion_setup\<close>, which is interpreted for a Windows that keeps to its
  documentation.
\<close>

section \<open>The specification\<close>

text \<open>
  The counter for an expanded path, without its handle. With localised names the path and
  its parts are taken as they are; otherwise the configured object and counter are put back,
  around the expanded instance.
\<close>

definition expandedCounter ::
    "bool \<Rightarrow> string \<Rightarrow> string \<Rightarrow> string \<Rightarrow> bool \<Rightarrow> bool \<Rightarrow> string \<times> string \<times> string \<times> string \<times> string \<Rightarrow> counter" where
  "expandedCounter localized origObject origCounter measurement inclTotal useRaw =
     (\<lambda>(path, computer, object_name, inst, ctr).
        if localized then newCounter 0 path computer object_name inst ctr measurement inclTotal useRaw
        else newCounter 0 (formatPath computer origObject (if inst = '''' then emptyInstance else inst) origCounter)
               computer origObject inst origCounter measurement inclTotal useRaw)"

text \<open>The total is left out when all instances were asked for and totals were not.\<close>

definition expandedCounters ::
    "bool \<Rightarrow> string \<Rightarrow> string \<Rightarrow> string \<Rightarrow> string \<Rightarrow> bool \<Rightarrow> bool
     \<Rightarrow> (string \<times> string \<times> string \<times> string \<times> string) list \<Rightarrow> counter list" where
  "expandedCounters localized origInstance origObject origCounter measurement inclTotal useRaw items =
     map (expandedCounter localized origObject origCounter measurement inclTotal useRaw)
       (filter (\<lambda>(path, computer, object_name, inst, ctr).
          inclTotal \<or> origInstance \<noteq> ''*'' \<or> inst \<noteq> ''_Total'') items)"

type_synonym expandedPath = "string \<times> string \<times> string \<times> string \<times> string"

text \<open>What a configured counter yields when Windows expands its path to those that \<open>E\<close> lists.\<close>

definition expansionOf ::
    "bool \<Rightarrow> (string \<Rightarrow> expandedPath list) \<Rightarrow> string \<Rightarrow> string \<Rightarrow> bool \<Rightarrow> bool \<Rightarrow> string \<Rightarrow> counter list" where
  "expansionOf localized E inst measurement inclTotal useRaw path =
     (case extractCounterInfoFromCounterPath path of
        Ok (_, origObject, _, origCounter) \<Rightarrow>
          expandedCounters localized inst origObject origCounter measurement inclTotal useRaw (E path)
      | _ \<Rightarrow> [])"

definition expanded :: "bool \<Rightarrow> (string \<Rightarrow> expandedPath list) \<Rightarrow> yield" where
  "expanded localized E obj computer ctr inst = map (Pair computer) (expansionOf localized E inst (Measurement obj)
     (IncludeTotal obj) (UseRawValues obj) (formatPath computer (ObjectName obj) inst ctr))"

text \<open>A counter can be expanded when Windows accepts its path and the path can be taken apart.\<close>

definition expandable :: "(string \<Rightarrow> bool) \<Rightarrow> string \<Rightarrow> bool" where
  "expandable B path \<longleftrightarrow> B path \<and> (\<exists>parts. extractCounterInfoFromCounterPath path = Ok parts)"

section \<open>The contract of expanding\<close>

text \<open>The path under which an expanded counter is kept, and the call that adds it.\<close>

definition keptPath :: "bool \<Rightarrow> string \<Rightarrow> string \<Rightarrow> expandedPath \<Rightarrow> string" where
  "keptPath localized origObj origCtr = (\<lambda>(path, computer, object_name, inst, ctr).
     if localized then path else formatPath computer origObj (if inst = '''' then emptyInstance else inst) origCtr)"

definition keptAdd :: "'w platform \<Rightarrow> bool \<Rightarrow> performanceQueryImpl \<Rightarrow> string \<Rightarrow> ('w, pdhCounterHandle) prog" where
  "keptAdd pf localized q path = (if localized then AddCounterToQuery pf q path else AddEnglishCounterToQuery pf q path)"

lemma keptAdd_readQuery:
  assumes "host key s = Some h"
    and "keptAdd pf localized (host_query h) (keptPath localized origObj origCtr (path, computer, ob, inst, ctr)) (world s) = Some (Ok c, w)"
  shows "(if \<not> localized then
        (let newInstance = (if inst = '''' then emptyInstance else inst);
             path' = formatPath computer origObj newInstance origCtr
         in bindP (readQuery key (\<lambda>q. AddEnglishCounterToQuery pf q path')) (\<lambda>handle.
            retP (path', newCounter handle path' computer origObj inst origCtr me it ur)))
      else
        bindP (readQuery key (\<lambda>q. AddCounterToQuery pf q path)) (\<lambda>handle.
          retP (path, newCounter handle path computer ob inst ctr me it ur))) s
     = Some (Ok (keptPath localized origObj origCtr (path, computer, ob, inst, ctr),
         (expandedCounter localized origObj origCtr me it ur (path, computer, ob, inst, ctr))\<lparr>counterHandle := c\<rparr>), s\<lparr>world := w\<rparr>)"
  using assms
  by (simp add: keptAdd_def keptPath_def expandedCounter_def readQuery_def onHost_def machine_def bindP_apply retP_def Let_def
      newCounter_def split: if_splits)

lemma withoutHandle_expanded [simp]:
  "withoutHandle ((expandedCounter l origObj origCtr me it ur item)\<lparr>counterHandle := c\<rparr>) = expandedCounter l origObj origCtr me it ur item"
  by (simp add: expandedCounter_def withoutHandle_def newCounter_def Let_def split: prod.split)

lemma counterPath_expanded [simp]:
  "counterPath (expandedCounter l origObj origCtr me it ur item) = keptPath l origObj origCtr item"
  by (simp add: expandedCounter_def keptPath_def newCounter_def Let_def split: prod.split)

lemma expandedCounters_Cons:
  "expandedCounters l inst obj ctr me it ur ((path, computer, ob, i, c) # items)
   = (if i = ''_Total'' \<and> inst = ''*'' \<and> \<not> it then [] else [expandedCounter l obj ctr me it ur (path, computer, ob, i, c)])
     @ expandedCounters l inst obj ctr me it ur items"
  "expandedCounters l inst obj ctr me it ur [] = []"
  by (auto simp: expandedCounters_def)

text \<open>
  \<open>P k\<close> is what holds while \<open>k\<close> more handles can be asked for. Windows accepts the paths of
  which \<open>B\<close> holds, expands them to those that \<open>E\<close> lists, at most \<open>bound\<close> of them, and accepts
  these, as well as those with the configured names.
\<close>

locale expansion_setup = host_setup pf P for pf :: "'w platform" and P +
  fixes localized :: bool and B :: "string \<Rightarrow> bool" and E :: "string \<Rightarrow> expandedPath list" and bound :: nat
  assumes expands: "P k s \<Longrightarrow> UseWildcardsExpansion (wpc s) \<and> LocalizeWildcardsExpansion (wpc s) = localized"
    and refused: "P (Suc k) s \<Longrightarrow> host key s = Some h \<Longrightarrow> \<not> B path \<Longrightarrow>
      \<exists>e w. addToQuery pf key path s = Some (Err e, s\<lparr>world := w\<rparr>) \<and> P k (s\<lparr>world := w\<rparr>)"
    and listed: "P (Suc k) s \<Longrightarrow> host key s = Some h \<Longrightarrow> B path \<Longrightarrow>
      \<exists>handle w1 full w2 w3. addToQuery pf key path s = Some (Ok handle, s\<lparr>world := w1\<rparr>)
        \<and> GetCounterPath pf (host_query h) handle w1 = Some (Ok full, w2)
        \<and> ExpandWildCardPath pf (host_query h) full w2 = Some (Ok (map fst (E path)), w3) \<and> P k (s\<lparr>world := w3\<rparr>)"
    and bounded: "P k s \<Longrightarrow> expandable B path \<Longrightarrow> length (E path) \<le> bound"
    and listed_parts: "P k s \<Longrightarrow> expandable B path \<Longrightarrow> item \<in> set (E path) \<Longrightarrow>
      extractCounterInfoFromCounterPath (fst item) = Ok (snd item)"
    and add_listed: "P (Suc k) s \<Longrightarrow> host key s = Some h \<Longrightarrow> expandable B path \<Longrightarrow> item \<in> set (E path) \<Longrightarrow>
      \<exists>c w. AddCounterToQuery pf (host_query h) (fst item) (world s) = Some (Ok c, w) \<and> P k (s\<lparr>world := w\<rparr>)"
    and add_kept: "P (Suc k) s \<Longrightarrow> host key s = Some h \<Longrightarrow> B path \<Longrightarrow>
      extractCounterInfoFromCounterPath path = Ok (c0, origObj, i0, origCtr) \<Longrightarrow> item \<in> set (E path) \<Longrightarrow>
      \<exists>c w. keptAdd pf localized (host_query h) (keptPath localized origObj origCtr item) (world s) = Some (Ok c, w)
        \<and> P k (s\<lparr>world := w\<rparr>)
        \<and> (\<forall>new. counterHandle new = c \<longrightarrow> counterPath new = keptPath localized origObj origCtr item \<longrightarrow>
             P k ((setHost key (h\<lparr>host_counters := host_counters h @ [new]\<rparr>) s)\<lparr>world := w\<rparr>))"
begin

text \<open>The body of the loop over the expanded paths, and the loop.\<close>

lemma addExpanded_adds:
  assumes P: "P (2 + k) s" and h: "host key s = Some h" and B: "B path"
    and parts: "extractCounterInfoFromCounterPath path = Ok (c0, origObj, i0, origCtr)" and item: "item \<in> set (E path)"
  shows "\<exists>t. addExpanded pf key origInst origObj origCtr me it ur (fst item) s = Some (Ok (), t) \<and> P k t \<and> host key t \<noteq> None
    \<and> gains (map (Pair key) (expandedCounters localized origInst origObj origCtr me it ur [item])) s t"
proof -
  have ok: "expandable B path" using B parts by (simp add: expandable_def)
  obtain p computer ob inst ctr where i: "item = (p, computer, ob, inst, ctr)" by (cases item)
  have taken: "extractCounterInfoFromCounterPath p = Ok (computer, ob, inst, ctr)"
    using listed_parts [OF P ok item] by (simp add: i)
  obtain c1 w1 where first: "AddCounterToQuery pf (host_query h) p (world s) = Some (Ok c1, w1)" "P (Suc k) (s\<lparr>world := w1\<rparr>)"
    using add_listed [of "Suc k" s, OF _ h ok item] P by (auto simp: i)
  let ?s = "s\<lparr>world := w1\<rparr>" and ?new = "\<lambda>c. (expandedCounter localized origObj origCtr me it ur item)\<lparr>counterHandle := c\<rparr>"
  have h1: "host key ?s = Some h" using h by simp
  obtain c w where kept: "keptAdd pf localized (host_query h) (keptPath localized origObj origCtr item) (world ?s) = Some (Ok c, w)"
    and Pw: "P k (?s\<lparr>world := w\<rparr>)" "P k ((setHost key (h\<lparr>host_counters := host_counters h @ [?new c]\<rparr>) ?s)\<lparr>world := w\<rparr>)"
    using add_kept [OF first(2) h1 B parts item] by fastforce
  have run: "addExpanded pf key origInst origObj origCtr me it ur (fst item) s =
      (if inst = ''_Total'' \<and> origInst = ''*'' \<and> \<not> it then retP ()
       else seqP (appendCounter key (?new c)) (logValid (keptPath localized origObj origCtr item))) (s\<lparr>world := w\<rparr>)"
    using keptAdd_readQuery [OF h1, of pf localized origObj origCtr p computer ob inst ctr c w me it ur] kept first(1) h taken expands [OF P]
    by (simp add: i addExpanded_def liftR_def cfg_def getP_def bindP_apply readQuery_def onHost_def machine_def del: split_paired_All)
  show ?thesis
  proof (cases "inst = ''_Total'' \<and> origInst = ''*'' \<and> \<not> it")
    case True
    then show ?thesis
      using run Pw(1) h gains_none [of "s\<lparr>world := w\<rparr>" s] by (simp add: i retP_def expandedCounters_Cons)
  next
    case False
    have "P k (setHost key (h\<lparr>host_counters := host_counters h @ [?new c]\<rparr>) (s\<lparr>world := w\<rparr>))"
      using Pw(2) by (simp add: setHost_world)
    from appendCounter_kept [OF _ this] h obtain t where
      "seqP (appendCounter key (?new c)) (logValid (keptPath localized origObj origCtr item)) (s\<lparr>world := w\<rparr>) = Some (Ok (), t)"
      "P k t" "host key t \<noteq> None" "gains [(key, withoutHandle (?new c))] (s\<lparr>world := w\<rparr>) t" by auto
    then show ?thesis using run False by (simp add: i expandedCounters_Cons gains_def)
  qed
qed

lemma forP_addExpanded:
  assumes "P (2 * length items + k) s" and "host key s \<noteq> None" and "B path"
    and "extractCounterInfoFromCounterPath path = Ok (c0, origObj, i0, origCtr)" and "set items \<subseteq> set (E path)"
  shows "\<exists>t. forP (map fst items) (addExpanded pf key origInst origObj origCtr me it ur) s = Some (Ok (), t) \<and> P k t
    \<and> gains (map (Pair key) (expandedCounters localized origInst origObj origCtr me it ur items)) s t"
  using assms(1,2,5)
proof (induction items arbitrary: s)
  case Nil
  then show ?case using gains_refl [of s] by (simp add: retP_def expandedCounters_Cons)
next
  case (Cons item items)
  obtain h where h: "host key s = Some h" using Cons.prems(2) by blast
  obtain t where t: "addExpanded pf key origInst origObj origCtr me it ur (fst item) s = Some (Ok (), t)"
    "P (2 * length items + k) t" "host key t \<noteq> None"
    "gains (map (Pair key) (expandedCounters localized origInst origObj origCtr me it ur [item])) s t"
    using addExpanded_adds [of "2 * length items + k" s key h path c0 origObj i0 origCtr item origInst me it ur] Cons.prems h assms(3,4) by auto
  obtain u where u: "forP (map fst items) (addExpanded pf key origInst origObj origCtr me it ur) t = Some (Ok (), u)" "P k u"
    "gains (map (Pair key) (expandedCounters localized origInst origObj origCtr me it ur items)) t u"
    using Cons.IH [OF t(2,3)] Cons.prems(3) by auto
  have "expandedCounters localized origInst origObj origCtr me it ur (item # items)
      = expandedCounters localized origInst origObj origCtr me it ur [item] @ expandedCounters localized origInst origObj origCtr me it ur items"
    by (cases item) (simp add: expandedCounters_Cons)
  then show ?case using t(1) u(1,2) gains_trans [OF t(4) u(3)] by (simp add: bindP_def)
qed

text \<open>A configured counter, from its host to the loop.\<close>

lemma addItem_expands:
  assumes P: "P (2 + 2 * bound + k) s"
  shows "\<exists>r t. addItem pf path computer ob inst ct me it ur s = Some (r, t) \<and> P k t
     \<and> (if expandable B path then r = Ok () \<and> gains (map (Pair computer) (expansionOf localized E inst me it ur path)) s t
        else (\<exists>e. r = Err e) \<and> gains [] s t)"
proof -
  obtain tag s1 s2 h where 1: "(if computer = ''localhost'' then hostname pf else retP computer) s = Some (Ok tag, s1)"
    and 2: "ensureHost pf computer tag s1 = Some (Ok (), s2)" "P (Suc (2 * bound + k)) s2" and h: "host computer s2 = Some h"
    and gone: "\<And>w. gains [] s (s2\<lparr>world := w\<rparr>)"
    by (rule host_reached [of "Suc (2 * bound + k)" s computer]) (use P in simp_all)
  have room: "P k t" if "P (2 * bound + k) t" for t using spare_add [OF that] .
  show ?thesis
  proof (cases "B path")
    case False
    then obtain e w where "addToQuery pf computer path s2 = Some (Err e, s2\<lparr>world := w\<rparr>)" "P (2 * bound + k) (s2\<lparr>world := w\<rparr>)"
      using refused [OF 2(2) h] by blast
    then show ?thesis
      using 1 2(1) False gone room by (simp add: addItem_def seqP_def bindP_apply expandable_def)
  next
    case True
    then obtain handle w1 full w2 w3 where w: "addToQuery pf computer path s2 = Some (Ok handle, s2\<lparr>world := w1\<rparr>)"
      "GetCounterPath pf (host_query h) handle w1 = Some (Ok full, w2)"
      "ExpandWildCardPath pf (host_query h) full w2 = Some (Ok (map fst (E path)), w3)" "P (2 * bound + k) (s2\<lparr>world := w3\<rparr>)"
      using listed [OF 2(2) h] by blast
    have run: "addItem pf path computer ob inst ct me it ur s =
        bindP (liftR (extractCounterInfoFromCounterPath path)) (\<lambda>(_, origObjectName, _, origCounterName).
          forP (map fst (E path)) (addExpanded pf computer inst origObjectName origCounterName me it ur)) (s2\<lparr>world := w3\<rparr>)"
      using 1 2(1) w(1-3) h expands [OF 2(2)]
      by (simp add: addItem_def seqP_def bindP_apply cfg_def getP_def readQuery_def onHost_def machine_def)
    show ?thesis
    proof (cases "extractCounterInfoFromCounterPath path")
      case (Ok parts)
      obtain c0 origObj i0 origCtr where parts: "parts = (c0, origObj, i0, origCtr)" by (cases parts)
      have ok: "expandable B path" using True Ok by (simp add: expandable_def parts)
      have "P (2 * (bound - length (E path)) + (2 * length (E path) + k)) (s2\<lparr>world := w3\<rparr>)"
        using w(4) bounded [OF w(4) ok] by (simp add: algebra_simps)
      then have "P (2 * length (E path) + k) (s2\<lparr>world := w3\<rparr>)" by (rule spare_add)
      from forP_addExpanded [OF this _ True Ok [unfolded parts] order_refl, of computer inst me it ur] h obtain t where
        t: "forP (map fst (E path)) (addExpanded pf computer inst origObj origCtr me it ur) (s2\<lparr>world := w3\<rparr>) = Some (Ok (), t)" "P k t"
          "gains (map (Pair computer) (expandedCounters localized inst origObj origCtr me it ur (E path))) (s2\<lparr>world := w3\<rparr>) t" by auto
      then show ?thesis
        using gains_trans [OF gone t(3)] run ok Ok by (simp add: parts bindP_def liftR_def expansionOf_def)
    next
      case (Err e)
      then show ?thesis using run room [OF w(4)] gone by (simp add: bindP_def liftR_def expandable_def)
    next
      case (Panic p)
      then show ?thesis using extract_no_panic [of path] by simp
    qed
  qed
qed

end

sublocale expansion_setup \<subseteq> carried: plan_setup pf P "expandable B" "2 + 2 * bound" "expanded localized E"
proof (unfold_locales, goal_cases)
  case (1 k s computer obj inst ctr)
  then show ?case
    using addItem_expands [of k s "formatPath computer (ObjectName obj) inst ctr" computer "ObjectName obj" inst ctr
        "Measurement obj" "IncludeTotal obj" "UseRawValues obj"]
    unfolding expanded_def by blast
qed

section \<open>Windows that expands paths, as documented\<close>

text \<open>The paths to which a path is expanded, with their parts.\<close>

definition listing :: "(u16 list option \<Rightarrow> u16 list list) \<Rightarrow> string \<Rightarrow> expandedPath list" where
  "listing X path = map (\<lambda>us. (utf16ToString us,
     case extractCounterInfoFromCounterPath (utf16ToString us) of Ok parts \<Rightarrow> parts | _ \<Rightarrow> ('''', '''', '''', '''')))
     (X (utf16PtrFromString path))"

text \<open>
  The full path of a counter can be asked for, and the paths to which it expands, with buffers
  within the limit.
\<close>

definition hasFullPath :: "'w platform \<Rightarrow> ('w \<Rightarrow> bool) \<Rightarrow> u32 \<Rightarrow> u64 \<Rightarrow> u16 list \<Rightarrow> bool" where
  "hasFullPath pf J limit c us \<longleftrightarrow> list_all (\<lambda>u. u \<noteq> 0) us \<and> length us < 2 ^ 29
     \<and> (\<exists>need. need < 2 ^ 31 \<and> bufferFits limit need \<and> sizedCall pf 1 J need (counterInfoCall pf c)
          (\<lambda>buf b n t. \<exists>p. loadPointer (build pf) (mem pf t)
              (buf + of_nat (offsetOf (windowsABI (build pf)) documentedCounterInfo ''SzFullPath'')) = p
            \<and> p \<noteq> 0 \<and> unitsAt (mem pf t) p (us @ [0])))"

definition hasExpansion :: "'w platform \<Rightarrow> ('w \<Rightarrow> bool) \<Rightarrow> u32 \<Rightarrow> string \<Rightarrow> u16 list list \<Rightarrow> bool" where
  "hasExpansion pf J limit full uss \<longleftrightarrow> list_all pathUnits uss
     \<and> (\<exists>need. need < 2 ^ 31 \<and> bufferFits limit need \<and> length (multiString uss) \<le> unat need
          \<and> sizedCall pf 2 J need (expandCall pf full)
              (\<lambda>buf b n t. unitsAt (mem pf t) buf (multiString uss) \<and> buf \<noteq> 0 \<and> unat buf + 2 * unat b < 2 ^ 64))"

definition listsPaths :: "'w platform \<Rightarrow> ('w \<Rightarrow> pdhView) \<Rightarrow> u32 \<Rightarrow> bool" where
  "listsPaths pf view limit \<longleftrightarrow> (\<forall>V \<in> range view. \<forall>c q p. counterTable V c = Some (q, p) \<longrightarrow> q \<in> openQueries V \<longrightarrow>
     (\<exists>us. hasFullPath pf (\<lambda>w. view w = V) limit c us
        \<and> hasExpansion pf (\<lambda>w. view w = V) limit (utf16ToString us) (expansions V p)))"

text \<open>
  The listed paths are at most \<open>bound\<close>, have the form of a path and are accepted, as are those
  with the configured names unless names are localised; \<open>L\<close> tells the paths that are accepted
  with localised names.
\<close>

definition acceptsListed ::
    "('w \<Rightarrow> pdhView) \<Rightarrow> bool \<Rightarrow> (u16 list option \<Rightarrow> bool) \<Rightarrow> (u16 list option \<Rightarrow> bool) \<Rightarrow> nat \<Rightarrow> bool" where
  "acceptsListed view localized A L bound \<longleftrightarrow> (\<forall>V \<in> range view. \<forall>path c0 obj i0 ctr.
     A (utf16PtrFromString path) \<longrightarrow> extractCounterInfoFromCounterPath path = Ok (c0, obj, i0, ctr) \<longrightarrow>
     length (expansions V (utf16PtrFromString path)) \<le> bound
     \<and> (\<forall>item \<in> set (listing (expansions V) path). extractCounterInfoFromCounterPath (fst item) = Ok (snd item)
          \<and> L (utf16PtrFromString (fst item))
          \<and> (\<not> localized \<longrightarrow> A (utf16PtrFromString (keptPath False obj ctr item)))))"

definition expandsPaths ::
    "'w platform \<Rightarrow> ('w \<Rightarrow> pdhView) \<Rightarrow> nat \<Rightarrow> u32 \<Rightarrow> bool \<Rightarrow> (u16 list option \<Rightarrow> bool) \<Rightarrow> (u16 list option \<Rightarrow> bool) \<Rightarrow> nat \<Rightarrow> bool" where
  "expandsPaths pf view cap limit localized A L bound \<longleftrightarrow> addsBy view cap L (PdhAddCounterW pf)
     \<and> (localized \<or> PdhAddEnglishCounterW pf \<noteq> None) \<and> listsPaths pf view limit \<and> acceptsListed view localized A L bound"

lemma addsBy_AddCounterToQuery:
  assumes "addsBy view cap L (PdhAddCounterW pf)" and "queryHandle q \<in> openQueries (view w)" and "queryHandle q \<noteq> 0"
    and "used (view w) < cap" and "L (utf16PtrFromString path)"
  shows "\<exists>c w'. AddCounterToQuery pf q path w = Some (Ok c, w') \<and> counterTable (view w) c = None
           \<and> view w' = added (queryHandle q) c (utf16PtrFromString path) (view w)"
proof -
  obtain ret c w' where call: "PdhAddCounterW pf (queryHandle q) (utf16PtrFromString path) 0 w = (ret, c, w')" by (metis prod_cases3)
  then have "(ucast ret :: u32) = errorSuccess \<and> counterTable (view w) c = None
      \<and> view w' = added (queryHandle q) c (utf16PtrFromString path) (view w)"
    using addsByD [OF assms(1,2,4) call] assms(5) by simp
  with call assms(3) show ?thesis
    by (intro exI [of _ c] exI [of _ w']) (simp add: AddCounterToQuery_def pdhAddCounter_def)
qed

lemma addsBy_AddEnglishCounterToQuery:
  assumes "addsCounters pf view cap A" and "PdhAddEnglishCounterW pf \<noteq> None" and "queryHandle q \<in> openQueries (view w)"
    and "queryHandle q \<noteq> 0" and "used (view w) < cap" and "A (utf16PtrFromString path)"
  shows "\<exists>c w'. AddEnglishCounterToQuery pf q path w = Some (Ok c, w') \<and> counterTable (view w) c = None
           \<and> view w' = added (queryHandle q) c (utf16PtrFromString path) (view w)"
proof -
  obtain proc where proc: "PdhAddEnglishCounterW pf = Some proc" using assms(2) by blast
  obtain ret c w' where call: "proc (queryHandle q) (utf16PtrFromString path) 0 w = (ret, c, w')" by (metis prod_cases3)
  then have "(ucast ret :: u32) = errorSuccess \<and> counterTable (view w) c = None
      \<and> view w' = added (queryHandle q) c (utf16PtrFromString path) (view w)"
    using addsByD [of view cap A proc, OF _ assms(3,5) call] assms(1,6) proc by (simp add: addsCounters_def addProc_def)
  with call proc assms(4) show ?thesis
    by (intro exI [of _ c] exI [of _ w']) (simp add: AddEnglishCounterToQuery_def pdhAddEnglishCounter_def)
qed

lemma listsPaths_expands:
  assumes "listsPaths pf view (maxBufferSize q)" and "counterTable (view w) c = Some (queryHandle q, p)"
    and "queryHandle q \<in> openQueries (view w)"
  shows "\<exists>full w2 w3. GetCounterPath pf q c w = Some (Ok full, w2)
           \<and> ExpandWildCardPath pf q full w2 = Some (Ok (map utf16ToString (expansions (view w) p)), w3) \<and> view w3 = view w"
proof -
  let ?J = "\<lambda>t. view t = view w"
  obtain us where us: "hasFullPath pf ?J (maxBufferSize q) c us"
    and uss: "hasExpansion pf ?J (maxBufferSize q) (utf16ToString us) (expansions (view w) p)"
    using assms unfolding listsPaths_def by blast
  obtain w2 where w2: "GetCounterPath pf q c w = Some (Ok (utf16ToString us), w2)" "view w2 = view w"
    using us GetCounterPath_reads [where J = ?J and us = us and w = w and m = q and pf = pf and h = c]
    unfolding hasFullPath_def by fastforce
  obtain w3 where "ExpandWildCardPath pf q (utf16ToString us) w2 = Some (Ok (map utf16ToString (expansions (view w) p)), w3)" "view w3 = view w"
    using uss ExpandWildCardPath_lists [where J = ?J and w = w2 and m = q and pf = pf] w2(2)
    unfolding hasExpansion_def by blast
  then show ?thesis using w2(1) by blast
qed

text \<open>What the set-up keeps on such a machine while its expansions are \<open>X\<close>.\<close>

definition expanding ::
    "'w platform \<Rightarrow> ('w \<Rightarrow> pdhView) \<Rightarrow> nat \<Rightarrow> nat \<Rightarrow> u32 \<Rightarrow> bool \<Rightarrow> (u16 list option \<Rightarrow> bool) \<Rightarrow> (u16 list option \<Rightarrow> bool) \<Rightarrow> nat
     \<Rightarrow> (u16 list option \<Rightarrow> u16 list list) \<Rightarrow> nat \<Rightarrow> 'w runtime \<Rightarrow> bool" where
  "expanding pf view room cap limit localized A L bound X k s \<longleftrightarrow>
     documented pf view cap A \<and> expandsPaths pf view cap limit localized A L bound \<and> linked view room cap k s
     \<and> UseWildcardsExpansion (wpc s) \<and> LocalizeWildcardsExpansion (wpc s) = localized
     \<and> word_of_int (MaxBufferSize (wpc s)) = limit \<and> expansions (view (world s)) = X"

lemma expanding_same:
  assumes "expanding pf view room cap limit localized A L bound X k s" and "hostCounters (wpc t) = hostCounters (wpc s)"
    and "UseWildcardsExpansion (wpc t) = UseWildcardsExpansion (wpc s)"
    and "LocalizeWildcardsExpansion (wpc t) = LocalizeWildcardsExpansion (wpc s)"
    and "MaxBufferSize (wpc t) = MaxBufferSize (wpc s)" and "view (world t) = view (world s)"
  shows "expanding pf view room cap limit localized A L bound X k t"
  using assms linked_same [of view room cap k s t] by (simp add: expanding_def)

lemma expanding_added:
  assumes "expanding pf view room cap limit localized A L bound X (Suc k) s" and "host key s = Some h"
    and "counterTable (view (world s)) c = None" and "view w = added (queryHandle (host_query h)) c p (view (world s))"
  shows "expanding pf view room cap limit localized A L bound X k (s\<lparr>world := w\<rparr>)"
  using assms linked_added [of view room cap k s key h c w p] by (simp add: expanding_def added_def)

lemma expanding_append:
  assumes "expanding pf view room cap limit localized A L bound X (Suc k) s" and "host key s = Some h"
    and "counterTable (view (world s)) (counterHandle c) = None"
    and "view w = added (queryHandle (host_query h)) (counterHandle c) (utf16PtrFromString (counterPath c)) (view (world s))"
  shows "expanding pf view room cap limit localized A L bound X k
           ((setHost key (h\<lparr>host_counters := host_counters h @ [c]\<rparr>) s)\<lparr>world := w\<rparr>)"
  using assms linked_append [of view room cap k s key h c w] by (simp add: expanding_def added_def)

lemma expanding_host:
  assumes "expanding pf view room cap limit localized A L bound X k s" and "host key s = Some h"
  shows "queryHandle (host_query h) \<in> openQueries (view (world s))" "queryHandle (host_query h) \<noteq> 0"
    "maxBufferSize (host_query h) = limit"
  using assms by (auto simp: expanding_def linked_def linkedHost_def)

lemma acceptsListedD:
  assumes "expanding pf view room cap limit localized A L bound X k s"
    and "A (utf16PtrFromString path)" and "extractCounterInfoFromCounterPath path = Ok (c0, obj, i0, ctr)"
  shows "length (listing X path) \<le> bound"
    and "item \<in> set (listing X path) \<Longrightarrow> extractCounterInfoFromCounterPath (fst item) = Ok (snd item)
      \<and> L (utf16PtrFromString (fst item)) \<and> (\<not> localized \<longrightarrow> A (utf16PtrFromString (keptPath False obj ctr item)))"
proof -
  have X: "X = expansions (view (world s))" and acc: "acceptsListed view localized A L bound"
    using assms(1) by (simp_all add: expanding_def expandsPaths_def)
  have all: "length (expansions (view (world s)) (utf16PtrFromString path)) \<le> bound
      \<and> (\<forall>item \<in> set (listing (expansions (view (world s))) path). extractCounterInfoFromCounterPath (fst item) = Ok (snd item)
          \<and> L (utf16PtrFromString (fst item)) \<and> (\<not> localized \<longrightarrow> A (utf16PtrFromString (keptPath False obj ctr item))))"
    using acc assms(2,3) unfolding acceptsListed_def by blast
  then show "length (listing X path) \<le> bound" by (simp add: listing_def X)
  show "extractCounterInfoFromCounterPath (fst item) = Ok (snd item) \<and> L (utf16PtrFromString (fst item))
      \<and> (\<not> localized \<longrightarrow> A (utf16PtrFromString (keptPath False obj ctr item)))" if "item \<in> set (listing X path)"
    using all that unfolding X by blast
qed

text \<open>An expanded path, added under a localised or an English name.\<close>

lemma expanding_AddCounter:
  assumes ex: "expanding pf view room cap limit localized A L bound X (Suc k) s" and h: "host key s = Some h"
    and "L (utf16PtrFromString path)"
  shows "\<exists>c w. AddCounterToQuery pf (host_query h) path (world s) = Some (Ok c, w) \<and> counterTable (view (world s)) c = None
           \<and> view w = added (queryHandle (host_query h)) c (utf16PtrFromString path) (view (world s))"
  using addsBy_AddCounterToQuery [of view cap L pf "host_query h" "world s" path] expanding_host [OF ex h] ex assms(3)
  by (auto simp: expanding_def expandsPaths_def linked_def)

lemma expanding_keptAdd:
  assumes ex: "expanding pf view room cap limit localized A L bound X (Suc k) s" and h: "host key s = Some h"
    and "A (utf16PtrFromString path)" and "extractCounterInfoFromCounterPath path = Ok (c0, obj, i0, ctr)"
    and "item \<in> set (listing X path)"
  defines "kept \<equiv> keptPath localized obj ctr item"
  shows "\<exists>c w. keptAdd pf localized (host_query h) kept (world s) = Some (Ok c, w) \<and> counterTable (view (world s)) c = None
           \<and> view w = added (queryHandle (host_query h)) c (utf16PtrFromString kept) (view (world s))"
proof (cases localized)
  case True
  then have "kept = fst item" unfolding kept_def by (cases item) (simp add: keptPath_def)
  then show ?thesis
    using expanding_AddCounter [OF ex h, of kept] acceptsListedD(2) [OF ex assms(3-5)] True by (simp add: keptAdd_def)
next
  case False
  then show ?thesis
    using addsBy_AddEnglishCounterToQuery [of pf view cap A "host_query h" "world s" kept] expanding_host [OF ex h] ex
      acceptsListedD(2) [OF ex assms(3-5)]
    by (auto simp: keptAdd_def kept_def expanding_def expandsPaths_def documented_def linked_def)
qed

lemma expanding_listed:
  assumes ex: "expanding pf view room cap limit localized A L bound X (Suc k) s" and h: "host key s = Some h"
    and "A (utf16PtrFromString path)"
  shows "\<exists>handle w1 full w2 w3. addToQuery pf key path s = Some (Ok handle, s\<lparr>world := w1\<rparr>)
        \<and> GetCounterPath pf (host_query h) handle w1 = Some (Ok full, w2)
        \<and> ExpandWildCardPath pf (host_query h) full w2 = Some (Ok (map fst (listing X path)), w3)
        \<and> expanding pf view room cap limit localized A L bound X k (s\<lparr>world := w3\<rparr>)"
proof -
  have doc: "documented pf view cap A" and linked: "linked view room cap (Suc k) s" and X: "X = expansions (view (world s))"
    and lists: "listsPaths pf view limit" using ex by (simp_all add: expanding_def expandsPaths_def)
  note q = expanding_host [OF ex h]
  obtain c w1 where w1: "addToQuery pf key path s = Some (Ok c, s\<lparr>world := w1\<rparr>)" "counterTable (view (world s)) c = None"
    "view w1 = added (queryHandle (host_query h)) c (utf16PtrFromString path) (view (world s))"
    using documented_addToQuery [OF doc linked h, of path] assms(3) by auto
  then have "counterTable (view w1) c = Some (queryHandle (host_query h), utf16PtrFromString path)"
    "queryHandle (host_query h) \<in> openQueries (view w1)" and X1: "expansions (view w1) = X"
    using q(1) X by (simp_all add: added_def)
  then obtain full w2 w3 where w3: "GetCounterPath pf (host_query h) c w1 = Some (Ok full, w2)"
    "ExpandWildCardPath pf (host_query h) full w2 = Some (Ok (map utf16ToString (X (utf16PtrFromString path))), w3)" "view w3 = view w1"
    using listsPaths_expands [of pf view "host_query h" w1 c "utf16PtrFromString path"] lists q(3) by auto
  have "map utf16ToString (X (utf16PtrFromString path)) = map fst (listing X path)" by (simp add: listing_def comp_def)
  moreover have "expanding pf view room cap limit localized A L bound X k (s\<lparr>world := w3\<rparr>)"
    using expanding_added [OF ex h w1(2), of w3 "utf16PtrFromString path"] w1(3) w3(3) by simp
  ultimately show ?thesis using w1(1) w3(1,2) by auto
qed

interpretation expanding: expansion_setup pf "expanding pf view room cap limit localized A L bound X" localized
    "\<lambda>path. A (utf16PtrFromString path)" "listing X" bound for pf :: "'w platform" and view room cap limit localized A L bound X
proof (unfold_locales, goal_cases)
  case (1 k s)
  then show ?case using linked_spare by (auto simp: expanding_def)
next
  case (2 k s l)
  then show ?case using expanding_same [of pf view room cap limit localized A L bound X k s "s\<lparr>loglines := l\<rparr>"] by simp
next
  case (3 k s n)
  then show ?case
    using expanding_same [of pf view room cap limit localized A L bound X k s
        "s\<lparr>world := snd (osHostname pf (world s)), wpc := (wpc s)\<lparr>cachedHostname := n\<rparr>\<rparr>"]
    by (auto simp: expanding_def quiet_simps(4) dest: documented_quiet)
next
  case (4 k s x)
  then show ?case
    using expanding_same [of pf view room cap limit localized A L bound X k s "s\<lparr>wpc := (wpc s)\<lparr>Sources := x\<rparr>\<rparr>"] by simp
next
  case (5 k s key tag)
  then show ?case using documented_newHost [of pf view cap A room k s key tag] by (auto simp: expanding_def)
next
  case (6 k s)
  then show ?case by (simp add: expanding_def)
next
  case (7 k s key h path)
  then obtain e w where "addToQuery pf key path s = Some (Err e, s\<lparr>world := w\<rparr>)" "view w = view (world s)"
    using documented_addToQuery [of pf view cap A room k s key h path] by (auto simp: expanding_def)
  moreover have "linked view room cap k s" using 7 linked_spare by (auto simp: expanding_def)
  ultimately show ?case
    using 7 linked_same [of view room cap k s "s\<lparr>world := w\<rparr>"] by (auto simp: expanding_def)
next
  case (8 k s key h path)
  then show ?case by (rule expanding_listed)
next
  case (9 k s path)
  then obtain parts where "extractCounterInfoFromCounterPath path = Ok parts" "A (utf16PtrFromString path)"
    by (auto simp: expandable_def)
  then show ?case using acceptsListedD(1) [OF 9(1)] by (cases parts) auto
next
  case (10 k s path item)
  then obtain parts where "extractCounterInfoFromCounterPath path = Ok parts" "A (utf16PtrFromString path)"
    by (auto simp: expandable_def)
  then show ?case using acceptsListedD(2) [OF 10(1) _ _ 10(3)] by (cases parts) auto
next
  case (11 k s key h path item)
  then obtain parts where "extractCounterInfoFromCounterPath path = Ok parts" "A (utf16PtrFromString path)"
    by (auto simp: expandable_def)
  then have "L (utf16PtrFromString (fst item))" using acceptsListedD(2) [OF 11(1) _ _ 11(4)] by (cases parts) auto
  from expanding_AddCounter [OF 11(1,2) this] show ?case using expanding_added [OF 11(1,2)] by blast
next
  case (12 k s key h path c0 origObj i0 origCtr item)
  from expanding_keptAdd [OF 12] obtain c w where
    "keptAdd pf localized (host_query h) (keptPath localized origObj origCtr item) (world s) = Some (Ok c, w)"
    "counterTable (view (world s)) c = None"
    "view w = added (queryHandle (host_query h)) c (utf16PtrFromString (keptPath localized origObj origCtr item)) (view (world s))"
    by blast
  then show ?case
    using expanding_added [OF 12(1,2)] expanding_append [OF 12(1,2)] by (intro exI [of _ c] exI [of _ w]) auto
qed

section \<open>Properties\<close>


text \<open>The simulated Windows lists one path for every counter.\<close>

lemma simUnits_path: "utf16ToString simUnits = formatPath '''' ''O'' ''i'' ''c''"
  by (simp add: simUnits_def utf16ToString_def surrogate_def encodeRune_def char_of_def bit_0 formatPath_def emptyInstance_def)

lemma simPaths_taken_apart:
  "extractCounterInfoFromCounterPath (formatPath ''srv'' ''Disk'' ''*'' ''% Idle'') = Ok (''srv'', ''Disk'', ''*'', ''% Idle'')"
  "extractCounterInfoFromCounterPath (formatPath '''' ''O'' ''i'' ''c'') = Ok ('''', ''O'', ''i'', ''c'')"
  using extract_prefixed [of "''srv''" "''Disk''" "''*''" "''% Idle''" bs] extract_prefixed [of "''''" "''O''" "''i''" "''c''" bs]
  by (simp_all add: formatPath_split printable_def plainName_def closedName_def bracketedName_def emptyInstance_def)

lemma simPlatform_listing: "listing (\<lambda>p. [simUnits]) path = [(formatPath '''' ''O'' ''i'' ''c'', '''', ''O'', ''i'', ''c'')]"
  by (simp add: listing_def simUnits_path simPaths_taken_apart)

lemma simMemory_paths:
  "unitsAt (simMemory 2) 4096 (simUnits @ [0])" "unitsAt (simMemory 2) 4096 (multiString [simUnits])"
  "loadPointer AMD64 (simMemory 2) (4096 + of_nat (offsetOf (windowsABI AMD64) documentedCounterInfo ''SzFullPath'')) = 4096"
  by (simp_all add: simMemory_def simUnits_def multiString_def layout_simps loadPointer_def bytesAt_def nth_append
      le64_def le32_def le16_def)

lemma simPlatform_lists: "listsPaths simPlatform simView 104857600"
proof -
  have info: "sizedCall simPlatform 1 (\<lambda>w. simView w = V) 48 (counterInfoCall simPlatform c) (\<lambda>buf b n t.
      \<exists>p. loadPointer (build simPlatform) (mem simPlatform t)
              (buf + of_nat (offsetOf (windowsABI (build simPlatform)) documentedCounterInfo ''SzFullPath'')) = p
            \<and> p \<noteq> 0 \<and> unitsAt (mem simPlatform t) p (simUnits @ [0]))" for V c
    unfolding sizedCall_def simPlatform_call using simMemory_paths(1,3) by (simp add: simView_def)
  have "unat (b :: u32) < 9223372036854773760" for b
    using unsigned_less [where ?'a = nat, of b] by simp
  then have list: "sizedCall simPlatform 2 (\<lambda>w. simView w = V) 9 (expandCall simPlatform full) (\<lambda>buf b n t.
      unitsAt (mem simPlatform t) buf (multiString [simUnits]) \<and> buf \<noteq> 0 \<and> unat buf + 2 * unat b < 2 ^ 64)" for V full
    unfolding sizedCall_def simPlatform_call using simMemory_paths(2) by (simp add: simView_def)
  have "hasFullPath simPlatform (\<lambda>w. simView w = V) 104857600 c simUnits" for V c
    unfolding hasFullPath_def using info [of V c]
    by (intro conjI exI [of _ 48]) (simp_all add: simUnits_def bufferFits_def initialBufferSize_def)
  moreover have "hasExpansion simPlatform (\<lambda>w. simView w = V) 104857600 full [simUnits]" for V full
    unfolding hasExpansion_def using list [of V full]
    by (intro conjI exI [of _ 9])
       (simp_all add: simUnits_def bufferFits_def initialBufferSize_def pathUnits_def basicUnit_def surrogate_def multiString_def)
  moreover have "expansions V p = [simUnits]" if "V \<in> range simView" for V p using that by (auto simp: simView_def)
  ultimately show ?thesis unfolding listsPaths_def by (metis (no_types, lifting))
qed

lemma simPlatform_expands: "expandsPaths simPlatform simView 8 104857600 True (\<lambda>p. \<not> hasOne p) (\<lambda>p. \<not> hasOne p) 1"
proof -
  have "\<not> hasOne (utf16PtrFromString (formatPath '''' ''O'' ''i'' ''c''))"
    by (simp add: formatPath_def hasOne_def emptyInstance_def utf16PtrFromString_ascii)
  moreover have "expansions V = (\<lambda>p. [simUnits])" if "V \<in> range simView" for V using that by (auto simp: simView_def)
  ultimately have "acceptsListed simView True (\<lambda>p. \<not> hasOne p) (\<lambda>p. \<not> hasOne p) 1"
    unfolding acceptsListed_def by (simp add: simPlatform_listing simPaths_taken_apart)
  then show ?thesis using simPlatform_adds simPlatform_lists by (simp add: expandsPaths_def simPlatform_def)
qed


end
