(* ===== verification/Wildcards.thy ===== *)
theory Wildcards
  imports Session Expansion
begin

text \<open>
  Calls of \<open>Gather\<close> (\<open>win_perf_counters.go\<close>), one after another, with wildcard expansion on a
  Windows that keeps to its documentation: every refresh creates the counters that Windows
  lists at that moment, and every call reports the single values of the counters there are.
  It is the second interpretation of the locale \<open>session\<close>.
\<close>

section \<open>Reading single values\<close>

text \<open>The structure that Windows leaves for a raw or displayable value.\<close>

definition valueLayout :: "bool \<Rightarrow> go_type" where
  "valueLayout raw = (if raw then documentedRawCounter else documentedFmtValue)"

definition holdsValue :: "arch \<Rightarrow> bool \<Rightarrow> memory \<Rightarrow> addr \<Rightarrow> u32 \<times> u64 \<Rightarrow> bool" where
  "holdsValue a raw m p sv \<longleftrightarrow>
     le32 m (p + of_nat (offsetOf (windowsABI a) (valueLayout raw) ''CStatus'')) = fst sv
   \<and> le64 m (p + of_nat (offsetOf (windowsABI a) (valueLayout raw) (if raw then ''FirstValue'' else ''Value''))) = snd sv"

text \<open>The codes that mean that there is no data.\<close>

definition noData :: "u32 \<Rightarrow> bool" where
  "noData code \<longleftrightarrow> isKnownCounterDataError (PdhError code '''')"

text \<open>
  Windows delivers: the value of a counter whose open query has been sampled twice can be
  read, or there is no data for it, which the call or the status in the structure says.
\<close>

definition deliversValues :: "'w platform \<Rightarrow> ('w \<Rightarrow> pdhView) \<Rightarrow> bool" where
  "deliversValues pf view \<longleftrightarrow> (\<forall>V \<in> range view. \<forall>raw c q p.
     counterTable V c = Some (q, p) \<longrightarrow> q \<in> openQueries V \<longrightarrow> 2 \<le> sampleCount V q \<longrightarrow>
     (validStatus (fst (valueItem V raw c)) \<or> noData (fst (valueItem V raw c)))
     \<and> (\<forall>w buf wa ret wb. view w = V \<longrightarrow> newObject pf (sizeOf (windowsABI (build pf)) (valueLayout raw)) w = (buf, wa) \<longrightarrow>
          (if raw then pdhGetRawCounterValue pf c buf wa else pdhGetFormattedCounterValueDouble pf c buf wa) = (ret, wb) \<longrightarrow>
          ret = errorSuccess \<and> holdsValue (build pf) raw (mem pf wb) buf (valueItem V raw c)
          \<or> ret = fst (valueItem V raw c) \<and> noData ret))"

text \<open>What the view has for a counter.\<close>

definition valueIn :: "pdhView \<Rightarrow> counter \<Rightarrow> go_value option" where
  "valueIn V metric = (let (status, v) = valueItem V (useRawValue metric) (counterHandle metric) in
     if validStatus status then Some (if useRawValue metric then IntValue v else FloatValue v) else None)"

lemma noData_error: "noData code \<Longrightarrow> isKnownCounterDataError (fst (newPdhError pf code w))"
  by (simp add: noData_def isKnownCounterDataError_def)

lemma noData_codes: "noData code \<Longrightarrow> code \<noteq> errorSuccess \<and> \<not> validStatus code"
  by (auto simp: noData_def isKnownCounterDataError_def validStatus_def)

text \<open>A call that ends as documented gives the value or a known error, and leaves the view alone.\<close>

lemma outcome_available:
  assumes "quiet pf view" and "view wb = V" and "validStatus (fst sv) \<or> noData (fst sv)"
    and "ret = errorSuccess \<and> status = fst sv \<and> v = snd sv \<or> ret = fst sv \<and> noData ret"
    and "p w = (if ret \<noteq> errorSuccess then failPdh pf ret wb else if validStatus status then Some (Ok v, wb) else failPdh pf status wb)"
  shows "\<exists>x w'. attemptP p w = Some (Ok x, w') \<and> view w' = V
           \<and> available (if validStatus (fst sv) then Some (f (snd sv)) else None) (map_sum id f x)"
proof (cases "validStatus (fst sv)")
  case True
  then have "p w = Some (Ok (snd sv), wb)" using assms(4,5) noData_codes by auto
  then show ?thesis using True assms(2) by (simp add: attemptP_def available_def)
next
  case False
  then have "p w = failPdh pf (fst sv) wb" "noData (fst sv)" using assms(3-5) noData_codes by auto
  then show ?thesis
    using False assms(2) quiet_newPdhError [OF assms(1)] noData_error
    by (simp add: attemptP_def available_def failPdh_outcome)
qed

lemma value_delivered:
  assumes del: "deliversValues pf view" and quiet: "quiet pf view" and "counterTable V (counterHandle metric) = Some (queryHandle q, p)"
    and "queryHandle q \<in> openQueries V" and "2 \<le> sampleCount V (queryHandle q)" and "V \<in> range view"
    and raw: "useRawValue metric \<longrightarrow> build pf \<noteq> I386" and "queryHandle q \<noteq> 0"
  shows "yieldsValue pf (\<lambda>w. view w = V) q metric (available (valueIn V metric))"
proof -
  let ?raw = "useRawValue metric" and ?c = "counterHandle metric"
  let ?sv = "valueItem V ?raw ?c" and ?f = "if ?raw then IntValue else FloatValue"
  have status: "validStatus (fst ?sv) \<or> noData (fst ?sv)"
    and call: "view w = V \<Longrightarrow> newObject pf (sizeOf (windowsABI (build pf)) (valueLayout ?raw)) w = (buf, wa) \<Longrightarrow>
        (if ?raw then pdhGetRawCounterValue pf ?c buf wa else pdhGetFormattedCounterValueDouble pf ?c buf wa) = (ret, wb) \<Longrightarrow>
        ret = errorSuccess \<and> holdsValue (build pf) ?raw (mem pf wb) buf ?sv \<or> ret = fst ?sv \<and> noData ret" for w buf wa ret wb
    using del assms(3-6) unfolding deliversValues_def by blast+
  have val: "valueIn V metric = (if validStatus (fst ?sv) then Some (?f (snd ?sv)) else None)"
    by (simp add: valueIn_def case_prod_unfold)
  have "\<exists>x w'. attemptP (if ?raw then GetRawCounterValue pf q ?c else GetFormattedCounterValueDouble pf q ?c) w = Some (Ok x, w')
      \<and> view w' = V \<and> available (valueIn V metric) (map_sum id ?f x)" if w: "view w = V" for w
  proof -
    obtain buf wa where new: "newObject pf (sizeOf (windowsABI (build pf)) (valueLayout ?raw)) w = (buf, wa)" by fastforce
    obtain ret wb where run: "(if ?raw then pdhGetRawCounterValue pf ?c buf wa else pdhGetFormattedCounterValueDouble pf ?c buf wa) = (ret, wb)"
      by fastforce
    have V: "view wb = V"
      using quiet_simps(1) [OF quiet, of "sizeOf (windowsABI (build pf)) (valueLayout ?raw)" w] new run w
        quiet_simps(8,12) [OF quiet]
      by (auto simp: pdhGetRawCounterValue_def pdhGetFormattedCounterValueDouble_def case_prod_unfold Let_def split: if_splits)
    let ?status = "le32 (mem pf wb) (buf + of_nat (offsetOf (windowsABI (build pf)) (valueLayout ?raw) ''CStatus''))"
    let ?v = "le64 (mem pf wb) (buf + of_nat (offsetOf (windowsABI (build pf)) (valueLayout ?raw) (if ?raw then ''FirstValue'' else ''Value'')))"
    have "(if ?raw then GetRawCounterValue pf q ?c else GetFormattedCounterValueDouble pf q ?c) w
        = (if ret \<noteq> errorSuccess then failPdh pf ret wb else if validStatus ?status then Some (Ok ?v, wb) else failPdh pf ?status wb)"
      using GetRawCounterValue_outcome [of pf w buf wa ?c ret wb _ _ q] GetFormattedCounterValueDouble_outcome [of pf w buf wa ?c ret wb _ _ q]
        new run raw assms(8) by (simp add: valueLayout_def split: if_splits)
    then show ?thesis
      using outcome_available [OF quiet V status, of ret ?status ?v
          "if ?raw then GetRawCounterValue pf q ?c else GetFormattedCounterValueDouble pf q ?c" w ?f] call [OF w new run]
      unfolding val holdsValue_def by blast
  qed
  then show ?thesis by (cases ?raw) (simp_all add: yieldsValue_def givesValue_def)
qed

section \<open>The collector between two calls\<close>

text \<open>
  The collector is linked to a Windows that expands paths, and has the configuration of \<open>m\<close>.
  There is room for the counters that a refresh creates, whatever Windows lists then.
\<close>

definition rawAllowedIn :: "'w platform \<Rightarrow> WinPerfCounters \<Rightarrow> bool" where
  "rawAllowedIn pf m \<longleftrightarrow> build pf = I386 \<longrightarrow> (\<forall>obj \<in> set (Object m). \<not> UseRawValues obj)"

definition itemsIn :: "(u16 list option \<Rightarrow> bool) \<Rightarrow> WinPerfCounters \<Rightarrow> pdhView \<Rightarrow> configItem list" where
  "itemsIn A m V = gained (expandable (\<lambda>path. A (utf16PtrFromString path)))
     (planOf (expanded (LocalizeWildcardsExpansion m) (listing (expansions V))) m)"

definition wildly ::
    "'w platform \<Rightarrow> ('w \<Rightarrow> pdhView) \<Rightarrow> (u16 list option \<Rightarrow> bool) \<Rightarrow> (u16 list option \<Rightarrow> bool) \<Rightarrow> (Time \<Rightarrow> bool) \<Rightarrow> nat \<Rightarrow> nat \<Rightarrow> nat
     \<Rightarrow> WinPerfCounters \<Rightarrow> 'w runtime \<Rightarrow> bool" where
  "wildly pf view A L T bound room cap m s \<longleftrightarrow> fairRange pf \<and> stamps pf T \<and> deliversValues pf view \<and> rawAllowedIn pf m
     \<and> room + (2 + 2 * bound) * length (configPlan m) \<le> cap
     \<and> complete (expandable (\<lambda>path. A (utf16PtrFromString path))) (configPlan m) \<and> Object m \<noteq> [] \<and> hasCollect m
     \<and> expanding pf view room cap (word_of_int (MaxBufferSize m)) (LocalizeWildcardsExpansion m) A L bound
         (expansions (view (world s))) 0 s
     \<and> Object (wpc s) = Object m \<and> computersOf (Sources (wpc s)) = computersOf (Sources m) \<and> hasCollect (wpc s)
     \<and> MaxBufferSize (wpc s) = MaxBufferSize m"

lemma computersOf_default: "computersOf (Sources (defaultSources m)) = computersOf (Sources m)"
  by (rule ext) (simp add: computersOf_def defaultSources_def)

lemma planOf_cong: "Object m = Object m' \<Longrightarrow> computersOf (Sources m) = computersOf (Sources m') \<Longrightarrow> planOf yields m = planOf yields m'"
  by (simp add: planOf_def)

lemma wildly_sampled:
  assumes at: "wildly pf view A L T bound room cap m s" and V: "sampledView Q (view (world s)) (view (world t))" and same: "sameQueries s t"
    and keys: "map fst (hostCounters (wpc t)) = map fst (hostCounters (wpc s))"
    and config: "(wpc t)\<lparr>hostCounters := [], lastRefreshed := 0\<rparr> = (wpc s)\<lparr>hostCounters := [], lastRefreshed := 0\<rparr>"
  shows "wildly pf view A L T bound room cap m t"
proof -
  have fields: "UseWildcardsExpansion (wpc t) = UseWildcardsExpansion (wpc s)" "MaxBufferSize (wpc t) = MaxBufferSize (wpc s)"
    "hasCollect (wpc t) = hasCollect (wpc s)" "Object (wpc t) = Object (wpc s)" "Sources (wpc t) = Sources (wpc s)"
    "LocalizeWildcardsExpansion (wpc t) = LocalizeWildcardsExpansion (wpc s)"
    using config by (cases "wpc s"; cases "wpc t"; simp)+
  have "linked view room cap 0 t"
    using linked_sampled [OF _ V same keys fields(2)] at by (simp add: wildly_def expanding_def)
  then show ?thesis using at fields by (simp add: wildly_def expanding_def)
qed

text \<open>A refresh creates the counters for what Windows lists.\<close>

lemma reparse_expanding:
  assumes at: "wildly pf view A L T bound room cap m s"
  shows "\<exists>t. seqP (cleanQueries pf) (parseConfig pf) s = Some (Ok (), t) \<and> wildly pf view A L T bound room cap m t
           \<and> configured (itemsIn A m (view (world s))) t \<and> emitted t = emitted s"
proof -
  let ?X = "expansions (view (world s))" and ?cost = "2 + 2 * bound" and ?B = "expandable (\<lambda>path. A (utf16PtrFromString path))"
  let ?ex = "expanding pf view room cap (word_of_int (MaxBufferSize m)) (LocalizeWildcardsExpansion m) A L bound ?X"
  have doc: "documented pf view cap A" and fair: "fairRange pf" and linked: "linked view room cap 0 s"
    using at by (simp_all add: wildly_def expanding_def)
  obtain c where c: "cleanQueries pf s = Some (Ok (), c)" "used (view (world c)) \<le> room"
    "wpc c = (wpc s)\<lparr>hostCounters := []\<rparr>" "emitted c = emitted s" "expansions (view (world c)) = ?X"
    using cleanQueries_linked [OF doc fair linked] by blast
  have none: "host key c = None" for key using c(3) by (simp add: host_def)
  have plan: "planOf yields (wpc c) = planOf yields m" for yields
    using at c(3) by (intro planOf_cong) (simp_all add: wildly_def)
  have "linked view room cap (?cost * length (configPlan m) + 0) c"
    using at c(2,3) none by (simp add: wildly_def linked_def heldBy_def outside_none)
  then have ex: "?ex (?cost * length (planOf (expanded (LocalizeWildcardsExpansion m) (listing ?X)) (wpc c)) + 0) c"
    using at c(3,5) unfolding plan length_planOf by (simp add: wildly_def expanding_def)
  have objects: "Object (wpc c) \<noteq> []" using at c(3) by (simp add: wildly_def)
  obtain r t where t: "parseConfig pf c = Some (r, t)" "?ex 0 t" "gains (itemsIn A m (view (world s))) (c\<lparr>wpc := defaultSources (wpc c)\<rparr>) t"
    "if finishes ?B (planOf (expanded (LocalizeWildcardsExpansion m) (listing ?X)) m) then r = Ok () else \<exists>e. r = Err e"
    using expanding.carried.parseConfig_planned [OF objects ex] unfolding plan itemsIn_def by blast
  then have ok: "r = Ok ()" using at by (simp add: finishes_planOf wildly_def)
  note same = gains_fields [OF t(3)]
  have "computersOf (Sources (wpc t)) = computersOf (Sources m)"
    using same(2) at c(3) computersOf_default [of "wpc c"] by (simp add: wildly_def)
  moreover have "expansions (view (world t)) = ?X" using t(2) by (simp add: expanding_def)
  ultimately have "wildly pf view A L T bound room cap m t"
    using t(2) same at c(3) by (simp add: wildly_def defaultSources_def)
  moreover have "configured (itemsIn A m (view (world s))) t"
    using t(3) none by (simp add: configured_def gains_def countersOf_def host_def defaultSources_def)
  ultimately show ?thesis using c(1,4) t(1,3) ok by (simp add: seqP_def bindP_def gains_def)
qed

text \<open>The counters that come out of a configuration without raw values have none.\<close>

lemma itemsIn_raw:
  assumes "rawAllowedIn pf m" and "configured (itemsIn A m V) s" and "host key s = Some h" and "metric \<in> set (host_counters h)"
  shows "useRawValue metric \<longrightarrow> build pf \<noteq> I386"
proof -
  have "withoutHandle metric \<in> set (countersOf s key)" using assms(3,4) by (simp add: countersOf_def)
  then obtain k where "(k, withoutHandle metric) \<in> set (itemsIn A m V)" using assms(2) by (auto simp: configured_def)
  then obtain strict path items where "(strict, path, items) \<in> set (planOf (expanded (LocalizeWildcardsExpansion m) (listing (expansions V))) m)"
    "(k, withoutHandle metric) \<in> set items"
    unfolding itemsIn_def gained_def by (fastforce dest: set_takeWhileD)
  then obtain obj where "obj \<in> set (Object m)" "useRawValue (withoutHandle metric) = UseRawValues obj"
    by (auto simp: planOf_def counterPlan_def expanded_def expansionOf_def expandedCounters_def expandedCounter_def newCounter_def
        Let_def split: result.splits if_splits)
  then show ?thesis using assms(1) by (auto simp: rawAllowedIn_def withoutHandle_def)
qed

interpretation wild: session pf view T "wildly pf view A L T bound room cap m" "itemsIn A m"
    "\<lambda>V metric. valueReadings metric (valueIn V metric)"
    for pf :: "'w platform" and view T A L bound room cap m
proof (unfold_locales, goal_cases)
  case (1 s)
  then show ?case unfolding wildly_def expanding_def by blast
next
  case (2 s)
  then show ?case by (simp add: wildly_def)
next
  case (3 s Q t)
  then show ?case by (rule wildly_sampled)
next
  case (4 s)
  then show ?case by (rule reparse_expanding)
next
  case (5 s V key h metric)
  then have linked: "linked view room cap 0 s" and on: "UseWildcardsExpansion (wpc s)" and quiet: "quiet pf view"
    using documented_quiet [of pf view cap A] by (simp_all add: wildly_def expanding_def)
  have lh: "linkedHost (view (world s)) (word_of_int (MaxBufferSize (wpc s))) h" using linked 5(4) by (auto simp: linked_def)
  have "useRawValue metric \<longrightarrow> build pf \<noteq> I386" using itemsIn_raw [OF _ 5(2,4,5), of pf] 5(1) by (simp add: wildly_def)
  then have "yieldsValue pf (\<lambda>w. view w = view (world s)) (host_query h) metric (available (valueIn (view (world s)) metric))"
    using 5 lh quiet by (intro value_delivered [where p = "utf16PtrFromString (counterPath metric)"])
      (auto simp: linkedHost_def sampledTimes_def wildly_def)
  then show ?case using on by (auto simp: contributes_def)
qed

section \<open>Properties\<close>

text \<open>What a call reports: the values of the last sample, of every host with counters.\<close>

definition reportsValues :: "('w \<Rightarrow> pdhView) \<Rightarrow> configItem list \<Rightarrow> 'w runtime \<Rightarrow> metric list \<Rightarrow> bool" where
  "reportsValues view items t new \<longleftrightarrow>
     hostReports (\<lambda>_ metric. valueReadings metric (valueIn (view (world t)) metric)) (remdups (map fst items)) t new"

lemma neverCalled_between:
  assumes "documented pf view cap A"
    and "expandsPaths pf view cap (word_of_int (MaxBufferSize (wpc s))) (LocalizeWildcardsExpansion (wpc s)) A L bound"
    and "fairRange pf" and "stamps pf T" and "deliversValues pf view" and "rawAllowedIn pf (wpc s)"
    and "neverCalled s" and "UseWildcardsExpansion (wpc s)"
    and "used (view (world s)) + (2 + 2 * bound) * length (configPlan (wpc s)) \<le> cap"
    and "complete (expandable (\<lambda>path. A (utf16PtrFromString path))) (configPlan (wpc s))"
  shows "wild.between view pf A L T bound (used (view (world s)))
           (used (view (world s)) + (2 + 2 * bound) * length (configPlan (wpc s))) (wpc s) s"
proof -
  have none: "host key s = None" for key using assms(7) by (simp add: neverCalled_def host_def)
  then have "heldBy UNIV s = {}" by (simp add: heldBy_def)
  then have "linked view (used (view (world s))) (used (view (world s)) + (2 + 2 * bound) * length (configPlan (wpc s))) 0 s"
    using none assms(7) by (simp add: linked_def neverCalled_def outside_none)
  moreover have "addsBy view (used (view (world s)) + (2 + 2 * bound) * length (configPlan (wpc s))) L (PdhAddCounterW pf)"
    using assms(2,9) addsBy_mono unfolding expandsPaths_def by blast
  ultimately show ?thesis
    using assms documented_mono [OF assms(1,9)]
    by (simp add: wild.between_def wildly_def expanding_def expandsPaths_def neverCalled_def)
qed


subsection \<open>The simulated Windows\<close>

lemma simPlatform_deliversValues: "deliversValues simPlatform simView"
proof -
  have held: "holdsValue AMD64 raw (simMemory 1) 4096 (0, if raw then 0 else 7)" for raw
    by (simp add: holdsValue_def valueLayout_def layout_simps simMemory_def bytesAt_def le64_def le32_def)
  have item: "valueItem V raw c = (0, if raw then 0 else 7)" if "V \<in> range simView" for V raw c
    using that by (auto simp: simView_def simValue_def)
  show ?thesis
    unfolding deliversValues_def simPlatform_call
    by (intro ballI allI impI conjI) (use held in \<open>auto simp: item validStatus_def split: if_splits\<close>)
qed

lemma simView_reports_value:
  fixes t :: "simState runtime"
  defines "c \<equiv> newCounter 0 (formatPath '''' ''O'' ''i'' ''c'') '''' ''O'' ''i'' ''c'' '''' False False"
  assumes "reportsValues simView [(''srv'', c)] t new" and "countersOf t ''srv'' = [c]"
  shows "\<exists>m. new = [m] \<and> map_of (metric_fields m) ''c'' = Some (FloatValue 7)"
proof -
  obtain h metric where h: "host ''srv'' t = Some h" "host_counters h = [metric]" "withoutHandle metric = c"
    using assms(3) by (auto simp: countersOf_def split: option.splits)
  have "allReadings (\<lambda>metric. valueReadings metric (valueIn (simView (world t)) metric)) (host_counters h)
      = [((\<lparr>group_name = ''win_perf_counters'', group_instance = ''i'', group_objectName = ''O''\<rparr>, ''c''), FloatValue 7)]"
    using h(3) unfolding h(2) c_def
    by (cases metric) (simp add: withoutHandle_def allReadings_def readingsOf_def valueReadings_def valueIn_def simView_def simValue_def
        validStatus_def newCounter_def Let_def sanitizedChars_Replace_def sanitizedPairs_def)
  from hostReports_one [OF assms(2) [unfolded reportsValues_def, simplified] h(1) this] show ?thesis .
qed


end
