(* ===== verification/Command.thy ===== *)
theory Command
  imports Session
begin

text \<open>
  The command (\<open>cmd/main.go\<close>): it decodes the embedded configuration, calls \<open>Init\<close> and then
  \<open>Gather\<close> at every tick, and ignores the errors of both. The TOML decoder is a parameter: it
  changes the collector or fails. The loop has no end, so it is modelled by the number of
  ticks it has seen. The callback prints a line for each group that is handed to it; the
  groups are recorded in the runtime, and \<open>fold collectFunc\<close> over them gives the lines.
\<close>

section \<open>Definitions\<close>

definition logger :: Logger where
  "logger = \<lparr>LoggerName = ''win_perf_counters'', Quiet = False\<rparr>"

text \<open>The format of the callback's line, with its Chinese words as UTF-8.\<close>

definition reportFormat :: string where
  "reportFormat =
     ''['' @ map char_of [0xE9, 0x87, 0x87, 0xE9, 0x9B, 0x86, 0xE6, 0x97, 0xB6, 0xE9, 0x97, 0xB4 :: nat] @ '']%v ''
     @ ''['' @ map char_of [0xE6, 0xB5, 0x8B, 0xE9, 0x87, 0x8F :: nat] @ '']%s ''
     @ ''['' @ map char_of [0xE6, 0xA0, 0x87, 0xE7, 0xAD, 0xBE :: nat] @ '']%v ''
     @ ''['' @ map char_of [0xE5, 0xAD, 0x97, 0xE6, 0xAE, 0xB5 :: nat] @ '']%v'' @ [CHR 0x0A]"

fun valueArg :: "go_value \<Rightarrow> fmt_arg" where
  "valueArg (IntValue v) = AInt (sint v)"
| "valueArg (FloatValue v) = AFloat v"

definition reportArgs :: "metric \<Rightarrow> fmt_arg list" where
  "reportArgs m = [AInt (metric_time m), AStr (metric_name m),
     AMap (map (\<lambda>(k, v). (k, AStr v)) (metric_tags m)), AMap (map (\<lambda>(k, v). (k, valueArg v)) (metric_fields m))]"

definition collectFunc :: "metric \<Rightarrow> log \<Rightarrow> log" where
  "collectFunc m = Logger_Infof logger reportFormat (reportArgs m)"

primrec tickLoop :: "'w platform \<Rightarrow> nat \<Rightarrow> ('w, unit) rprog" where
  "tickLoop pf 0 = retP ()"
| "tickLoop pf (Suc n) = seqP (attemptP (Gather pf)) (tickLoop pf n)"

definition main_program ::
    "'w platform \<Rightarrow> (WinPerfCounters \<Rightarrow> WinPerfCounters \<times> go_error option) \<Rightarrow> nat \<Rightarrow> ('w, unit) rprog" where
  "main_program pf decode n =
     seqP (setCfg (\<lambda>_. NewWinPerfCounters True)) (
     bindP (cfg decode) (\<lambda>(m, err).
     seqP (setCfg (\<lambda>_. m)) (
     case_option (seqP (attemptP Init) (tickLoop pf n)) (\<lambda>e. panicP (errorString e)) err)))"

section \<open>Lemmas\<close>

lemma Init_only_logs: "\<exists>x l. attemptP Init s = Some (Ok x, s\<lparr>loglines := loglines s @ l\<rparr>)"
proof -
  obtain r l where "Init s = Some (r, s\<lparr>loglines := loglines s @ l\<rparr>)" "r = Ok () \<or> (\<exists>e. r = Err e)"
    using Init_outcome [of s] by blast
  then show ?thesis by (elim disjE exE) (simp_all add: attemptP_def, blast+)
qed

lemma tickLoop_returns:
  assumes "boundedSizes pf" and "goodRuntime s"
  shows "\<exists>r t. tickLoop pf n s = Some (r, t) \<and> goodRuntime t \<and> (\<forall>e. r \<noteq> Err e)"
  using assms(2)
proof (induction n arbitrary: s)
  case (Suc n)
  obtain r t where g: "Gather pf s = Some (r, t)" "goodRuntime t"
    using Gather_good [OF assms(1)] Suc.prems unfolding keeps_def by blast
  then show ?case using Suc.IH [OF g(2)] by (cases r) (auto simp: prog_simps)
qed (simp add: retP_def)

lemma main_starts:
  assumes "decode (NewWinPerfCounters True) = (m, None)"
  shows "\<exists>l. \<forall>n. main_program pf decode n s = tickLoop pf n (s\<lparr>wpc := m, loglines := loglines s @ l\<rparr>)"
  using Init_only_logs [of "s\<lparr>wpc := m\<rparr>"] assms
  by (auto simp: main_program_def prog_simps setCfg_def cfg_def)

text \<open>The callback's line of a group, and the lines of many.\<close>

definition reportLine :: "metric \<Rightarrow> logged" where
  "reportLine m = Printf (''[INFO] [win_perf_counters] '' @ reportFormat) (reportArgs m)"

lemma collectFunc_lines: "fold collectFunc ms log = log @ map reportLine ms"
proof (induction ms arbitrary: log)
  case (Cons m ms)
  have "collectFunc m log = log @ [reportLine m]"
    using infof.emit_line [of logger "(reportFormat, reportArgs m)" log]
    by (simp add: collectFunc_def reportLine_def logger_def tagged_def)
  then show ?case using Cons.IH by simp
qed simp

text \<open>While no call fails, the loop makes the calls that \<open>gathers\<close> makes.\<close>

lemma tickLoop_gathers: "gathers pf n s = Some (replicate n (Ok ()), t) \<Longrightarrow> tickLoop pf n s = Some (Ok (), t)"
proof (induction n arbitrary: s)
  case (Suc n)
  then obtain u where "Gather pf s = Some (Ok (), u)" "gathers pf n u = Some (replicate n (Ok ()), t)"
    by (auto split: option.splits)
  then show ?case using Suc.IH [of u] by (simp add: prog_simps)
qed (simp add: retP_def)

lemma gathers_snoc:
  "gathers pf n s = Some (rs, t) \<Longrightarrow> Gather pf t = Some (r, u) \<Longrightarrow> gathers pf (Suc n) s = Some (rs @ [r], u)"
proof (induction n arbitrary: s rs)
  case (Suc n)
  then obtain r' v rs' where "Gather pf s = Some (r', v)" "gathers pf n v = Some (rs', t)" "rs = r' # rs'"
    by (auto split: option.splits)
  then show ?case using Suc.IH [of v rs'] Suc.prems(2) by simp
qed simp

section \<open>Properties\<close>

text \<open>
  The command keeps running: for a configuration that the decoder accepts, with a buffer
  limit below 2 GiB, and while Windows hands back sizes below 2 GiB, any number of ticks is
  reached unless a call panics; no error of \<open>Gather\<close> ends the loop, and the collector stays
  well formed.
\<close>

theorem main_keeps_running:
  assumes "boundedSizes pf" and "decode (NewWinPerfCounters True) = (m, None)"
    and "hostCounters m = []" and "0 \<le> MaxBufferSize m" and "MaxBufferSize m < 2 ^ 31"
  shows "\<exists>r t. main_program pf decode n s = Some (r, t) \<and> goodRuntime t \<and> (\<forall>e. r \<noteq> Err e)"
proof -
  obtain l where "main_program pf decode n s = tickLoop pf n (s\<lparr>wpc := m, loglines := loglines s @ l\<rparr>)"
    using main_starts [where decode = decode, OF assms(2)] by blast
  moreover have "goodRuntime (s\<lparr>wpc := m, loglines := loglines s @ l\<rparr>)"
    using assms(3-5) by (simp add: goodRuntime_def wfHosts_def)
  ultimately show ?thesis using tickLoop_returns [OF assms(1)] by simp
qed

theorem main_keeps_running_witness:
  "\<exists>r t. main_program (samplePlatform AMD64 [] 16 0) (\<lambda>m. (m\<lparr>MaxBufferSize := 4096\<rparr>, None)) 3
       \<lparr>wpc = NewWinPerfCounters True, world = (), loglines = [], emitted = []\<rparr> = Some (r, t)
     \<and> goodRuntime t \<and> (\<forall>e. r \<noteq> Err e)"
  by (rule main_keeps_running [where m = "(NewWinPerfCounters True)\<lparr>MaxBufferSize := 4096\<rparr>"])
     (simp_all add: boundedSizes_def samplePlatform_def NewWinPerfCounters_def)

text \<open>
  The command ignores the verdict of \<open>Init\<close>: whatever the decoded configuration, also one that
  \<open>Init\<close> rejects, the loop starts on it, and all that \<open>Init\<close> leaves behind is lines in the log.
\<close>

theorem main_ignores_Init:
  assumes "decode (NewWinPerfCounters True) = (m, None)"
  shows "\<exists>l. main_program pf decode n s = tickLoop pf n (s\<lparr>wpc := m, loglines := loglines s @ l\<rparr>)"
  using main_starts [where decode = decode, OF assms] by blast

theorem main_ignores_Init_witness:
  "\<not> acceptable ((NewWinPerfCounters True)\<lparr>MaxBufferSize := 0\<rparr>)
   \<and> (\<exists>l. main_program (samplePlatform AMD64 [] 16 0) (\<lambda>m. (m\<lparr>MaxBufferSize := 0\<rparr>, None)) 3 strandedSample
        = tickLoop (samplePlatform AMD64 [] 16 0) 3
            (strandedSample\<lparr>wpc := (NewWinPerfCounters True)\<lparr>MaxBufferSize := 0\<rparr>, loglines := loglines strandedSample @ l\<rparr>))"
  using main_ignores_Init [of "\<lambda>m. (m\<lparr>MaxBufferSize := 0\<rparr>, None)" "(NewWinPerfCounters True)\<lparr>MaxBufferSize := 0\<rparr>"
      "samplePlatform AMD64 [] 16 0" 3 strandedSample]
  by (simp add: acceptable_def)



end
