(* ===== verification/Loading.thy ===== *)
theory Loading
  imports Logger
begin

text \<open>
  What happens when the package is loaded: the \<open>init\<close> functions of \<open>pdh.go\<close> and
  \<open>kernel32.go\<close> look up the procedures of the DLLs; and the stub that replaces the collector
  on other systems (\<open>win_perf_counters_notwindows.go\<close>). The loader of Windows is a parameter:
  a DLL, if it is found, maps the names of procedures to those it exports.
\<close>

section \<open>Procedures\<close>

type_synonym 'p dll = "string \<Rightarrow> 'p option"
type_synonym 'p loader = "string \<Rightarrow> 'p dll option"

text \<open>
  \<open>syscall.MustLoadDLL\<close> and \<open>MustFindProc\<close> panic with the error that their counterparts
  return; the system's reason at the end of its text is left out.
\<close>

definition MustLoadDLL :: "'p loader \<Rightarrow> string \<Rightarrow> 'p dll result" where
  "MustLoadDLL load name =
     (case load name of None \<Rightarrow> Panic (''Failed to load '' @ name) | Some d \<Rightarrow> Ok d)"

definition MustFindProc :: "'p dll \<Rightarrow> string \<Rightarrow> 'p result" where
  "MustFindProc d name =
     (case d name of None \<Rightarrow> Panic (''Failed to find '' @ name @ '' procedure'') | Some p \<Rightarrow> Ok p)"

text \<open>The package's variables; a pointer that is nil is \<open>None\<close>.\<close>

record 'p pdhProcs =
  pdhAddCounterWProc :: "'p option"
  pdhAddEnglishCounterWProc :: "'p option"
  pdhCloseQueryProc :: "'p option"
  pdhCollectQueryDataProc :: "'p option"
  pdhCollectQueryDataWithTimeProc :: "'p option"
  pdhGetFormattedCounterValueProc :: "'p option"
  pdhGetFormattedCounterArrayWProc :: "'p option"
  pdhOpenQueryProc :: "'p option"
  pdhExpandWildCardPathWProc :: "'p option"
  pdhGetCounterInfoWProc :: "'p option"
  pdhGetRawCounterValueProc :: "'p option"
  pdhGetRawCounterArrayWProc :: "'p option"
  pdhValidatePathWProc :: "'p option"

definition init_pdh :: "'p loader \<Rightarrow> 'p pdhProcs result" where
  "init_pdh load =
     bindR (MustLoadDLL load ''pdh.dll'') (\<lambda>lib.
     bindR (MustFindProc lib ''PdhAddCounterW'') (\<lambda>addCounter.
     let addEnglish = lib ''PdhAddEnglishCounterW'' in
     bindR (MustFindProc lib ''PdhCloseQuery'') (\<lambda>closeQuery.
     bindR (MustFindProc lib ''PdhCollectQueryData'') (\<lambda>collect.
     let collectWithTime = lib ''PdhCollectQueryDataWithTime'' in
     bindR (MustFindProc lib ''PdhGetFormattedCounterValue'') (\<lambda>formattedValue.
     bindR (MustFindProc lib ''PdhGetFormattedCounterArrayW'') (\<lambda>formattedArray.
     bindR (MustFindProc lib ''PdhOpenQuery'') (\<lambda>openQuery.
     bindR (MustFindProc lib ''PdhExpandWildCardPathW'') (\<lambda>expandPath.
     bindR (MustFindProc lib ''PdhGetCounterInfoW'') (\<lambda>counterInfo.
     bindR (MustFindProc lib ''PdhGetRawCounterValue'') (\<lambda>rawValue.
     bindR (MustFindProc lib ''PdhGetRawCounterArrayW'') (\<lambda>rawArray.
     bindR (MustFindProc lib ''PdhValidatePathW'') (\<lambda>validate.
     Ok \<lparr>pdhAddCounterWProc = Some addCounter, pdhAddEnglishCounterWProc = addEnglish,
        pdhCloseQueryProc = Some closeQuery, pdhCollectQueryDataProc = Some collect,
        pdhCollectQueryDataWithTimeProc = collectWithTime,
        pdhGetFormattedCounterValueProc = Some formattedValue,
        pdhGetFormattedCounterArrayWProc = Some formattedArray, pdhOpenQueryProc = Some openQuery,
        pdhExpandWildCardPathWProc = Some expandPath, pdhGetCounterInfoWProc = Some counterInfo,
        pdhGetRawCounterValueProc = Some rawValue, pdhGetRawCounterArrayWProc = Some rawArray,
        pdhValidatePathWProc = Some validate\<rparr>))))))))))))"

definition init_kernel32 :: "'p loader \<Rightarrow> 'p result" where
  "init_kernel32 load =
     bindR (MustLoadDLL load ''Kernel32.dll'') (\<lambda>lib. MustFindProc lib ''LocalFileTimeToFileTime'')"

section \<open>The stub\<close>

record StubWinPerfCounters =
  stub_Log :: Logger

definition stub_SampleConfig :: "string \<Rightarrow> StubWinPerfCounters \<Rightarrow> string" where
  "stub_SampleConfig sampleConfig w = sampleConfig"

definition stub_Init :: "StubWinPerfCounters \<Rightarrow> log \<Rightarrow> unit result \<times> log" where
  "stub_Init w l = (Ok (), Logger_Warn (stub_Log w) [AStr ''Current platform is not supported''] l)"

section \<open>Properties\<close>

text \<open>The procedures without which the package does not load.\<close>

definition requiredProcs :: "string list" where
  "requiredProcs = [''PdhAddCounterW'', ''PdhCloseQuery'', ''PdhCollectQueryData'',
     ''PdhGetFormattedCounterValue'', ''PdhGetFormattedCounterArrayW'', ''PdhOpenQuery'',
     ''PdhExpandWildCardPathW'', ''PdhGetCounterInfoW'', ''PdhGetRawCounterValue'',
     ''PdhGetRawCounterArrayW'', ''PdhValidatePathW'']"

lemma bindR_MustFindProc:
  "bindR (MustFindProc d name) f =
     (case d name of None \<Rightarrow> Panic (''Failed to find '' @ name @ '' procedure'') | Some p \<Rightarrow> f p)"
  by (simp add: MustFindProc_def split: option.split)

text \<open>
  Loading succeeds exactly when \<open>pdh.dll\<close> is there and exports all required procedures, and
  panics otherwise; after it the pointers of all procedures are set, except that those to
  \<open>PdhAddEnglishCounterW\<close> and \<open>PdhCollectQueryDataWithTime\<close> are nil on a system that does not
  have them.
\<close>

theorem init_pdh_exact:
  "(case load ''pdh.dll'' of
      None \<Rightarrow> \<exists>msg. init_pdh load = Panic msg
    | Some lib \<Rightarrow>
        if \<forall>name \<in> set requiredProcs. lib name \<noteq> None
        then \<exists>procs. init_pdh load = Ok procs
           \<and> [pdhAddCounterWProc procs, pdhCloseQueryProc procs, pdhCollectQueryDataProc procs,
              pdhGetFormattedCounterValueProc procs, pdhGetFormattedCounterArrayWProc procs,
              pdhOpenQueryProc procs, pdhExpandWildCardPathWProc procs, pdhGetCounterInfoWProc procs,
              pdhGetRawCounterValueProc procs, pdhGetRawCounterArrayWProc procs, pdhValidatePathWProc procs]
             = map lib requiredProcs
           \<and> pdhAddEnglishCounterWProc procs = lib ''PdhAddEnglishCounterW''
           \<and> pdhCollectQueryDataWithTimeProc procs = lib ''PdhCollectQueryDataWithTime''
        else \<exists>msg. init_pdh load = Panic msg)"
proof (cases "load ''pdh.dll''")
  case None
  then show ?thesis by (simp add: init_pdh_def MustLoadDLL_def)
next
  case (Some lib)
  then show ?thesis
    by (auto simp: init_pdh_def MustLoadDLL_def Let_def bindR_MustFindProc requiredProcs_def split: option.split)
qed

theorem init_pdh_exact_witness:
  "\<exists>procs. init_pdh (\<lambda>d. if d = ''pdh.dll''
        then Some (\<lambda>p. if p = ''PdhAddEnglishCounterW'' then None else Some p) else None) = Ok procs
     \<and> pdhAddEnglishCounterWProc procs = None \<and> pdhOpenQueryProc procs = Some ''PdhOpenQuery''"
proof -
  let ?lib = "\<lambda>p. if p = ''PdhAddEnglishCounterW'' then None else Some p"
  have "\<forall>name \<in> set requiredProcs. ?lib name \<noteq> None" by (simp add: requiredProcs_def)
  then show ?thesis
    using init_pdh_exact [of "\<lambda>d. if d = ''pdh.dll'' then Some ?lib else None"]
    by (auto simp: requiredProcs_def)
qed

end
