(* ===== verification/Spec2Isabelle.thy ===== *)
theory Spec2Isabelle
  imports Handles Wildcards Command Loading
begin

text \<open>
  Verification development of the Go package \<open>win_perf_counters\<close>, a collector of Windows
  performance counters on top of the Performance Data Helper (PDH) library.

  \<^bold>\<open>The program.\<close> A user configures objects, counters, instances and computers
  (\<open>WinPerfCounters\<close>), checks the configuration with \<open>Init\<close> and calls \<open>Gather\<close> at every tick.
  \<open>Gather\<close> creates the counters when a refresh is due (\<open>cleanQueries\<close>, \<open>parseConfig\<close>,
  \<open>addItem\<close>), samples the query of every host, and starts one goroutine per host, which reads
  the values, groups them into fields and hands each group to a callback
  (\<open>gatherComputerCounters\<close>). A host's query (\<open>performanceQueryImpl\<close>) calls the PDH functions
  through the wrappers of \<open>pdh.go\<close>, grows buffers until Windows accepts them and decodes the
  structures and wide strings that Windows leaves in memory.

  \<^bold>\<open>Machine and effects.\<close> Windows, the clock, the allocator and the order in which Go walks a
  map are fields of the record \<open>platform\<close>, functions over an arbitrary state \<open>'w\<close> of the
  machine, from which the bytes of memory can be read. A method is a program
  \<open>'s \<Rightarrow> ('a result \<times> 's) option\<close>: it ends with a value, an error or a panic and keeps the
  state changes made before, and \<open>None\<close> is a run that never ends. No fuel is used; that a
  method returns is always proved. Machine integers are words, so that doubling a buffer
  length and converting a file time wrap around as in Go.

  \<^bold>\<open>Theories.\<close>
  \<^item> \<open>Prelude\<close>: programs and their rules, errors and \<open>errors.As\<close>, slices, strings, memory, Go
    maps as association lists.
  \<^item> \<open>CounterPath\<close> (\<open>utils.go\<close>: \<open>formatPath\<close>, \<open>extractCounterInfoFromCounterPath\<close>): parsing
    undoes printing; the parser never slices out of bounds.
  \<^item> \<open>Sanitize\<close> (\<open>sanitizedChars\<close>), \<open>Metric\<close> (\<open>newCounter\<close>, \<open>shouldIncludeMetric\<close>,
    \<open>addCounterMeasurement\<close>): names of fields, and groups of fields as maps of maps (locales
    \<open>go_map\<close> and \<open>nested_map\<close>).
  \<^item> \<open>Wide\<close> (\<open>performance_query.go\<close>: \<open>utf16PtrToString\<close>, \<open>utf16ToStringArray\<close>): UTF-16 in
    memory, with the parts of Go's \<open>utf16\<close> and \<open>utf8\<close> packages they use.
  \<^item> \<open>PdhCodes\<close> (codes and names of \<open>pdh.go\<close>; \<open>checkError\<close>, \<open>isKnownCounterDataError\<close> of
    \<open>utils.go\<close>) and \<open>Layout\<close> (\<open>pdh_386.go\<close>, \<open>pdh_amd64.go\<close>, \<open>pdh_arm64.go\<close>): the declared
    structures under Go's layout rules, against the documented C layout.
  \<^item> \<open>Pdh\<close>: every wrapper of \<open>pdh.go\<close>, and the conversion of file times. \<open>Loading\<close>: the \<open>init\<close>
    functions of \<open>pdh.go\<close> and \<open>kernel32.go\<close>, and the stub for other systems.
    \<open>SamplePlatform\<close>: a concrete machine for the witnesses.
  \<^item> \<open>Query\<close>: all methods of \<open>performance_query.go\<close>. \<open>QueryBuffers\<close>: the buffer loop
    returns, fits or meets its limit; the six methods built on it are interpretations of the
    locale \<open>buffered_read\<close>; what is decoded; where lengths wrap around. \<open>QueryLifecycle\<close>: the
    query refines an open/closed machine (locale \<open>query_handle\<close>); single values.
  \<^item> \<open>Logger\<close> (\<open>log.go\<close>), with the contract \<open>log_method\<close> of its methods.
  \<^item> \<open>WinPerf\<close> and \<open>Gathering\<close>: the definitions for \<open>win_perf_counters.go\<close>, set-up and
    collecting. \<open>Config\<close> and \<open>Collector\<close>: the locales \<open>setup_invariant\<close> and
    \<open>collector_invariant\<close> carry a property of the single steps to every method, and
    instantiated with the collector's well-formedness they show that \<open>Gather\<close> returns and keeps
    it; \<open>Init\<close>, errors of the set-up, hosts whose query could not be opened, lost errors.
    \<open>Parsing\<close>: \<open>parseConfig\<close> refines a specification that lists the counters from the
    configuration, whichever of them Windows refuses; it is proved once for any yield of a
    configured counter (locale \<open>plan_setup\<close>, on top of \<open>host_setup\<close>) and specialised to one
    counter each (\<open>config_setup\<close>). \<open>Report\<close>: what \<open>gatherComputerCounters\<close> hands
    over, against an account that does not mention the code's maps. \<open>Goroutines\<close>: the
    goroutines as small-step machines under any schedule. \<open>Cycle\<close>: whole calls of \<open>Gather\<close>.
  \<^item> \<open>Documented\<close>: Windows as documented, as a view of the machine's state (open queries, the
    counters of the handles, samples taken, data of the last sample, what paths expand to) and
    how each call changes it; the collector's handles stay linked to it. \<open>Simulated\<close>: a machine
    that is such a Windows, for the witnesses. \<open>Expansion\<close>: \<open>parseConfig\<close> with wildcards, where
    a configured counter yields what Windows lists for it (locale \<open>expansion_setup\<close>, which
    extends \<open>host_setup\<close> and gives \<open>plan_setup\<close>).
  \<^item> \<open>Session\<close>: any number of calls of \<open>Gather\<close> on such a machine, with the goroutines of each
    call in any order, to the data that each of them reports. It is proved once in the locale
    \<open>session\<close>, whose laws are how counters are created anew and read; the locale is interpreted
    for arrays of values without wildcard expansion, here, and for single values with it, in
    \<open>Wildcards\<close>. Also: calls on a machine that refuses a counter. \<open>Handles\<close>: no query is lost,
    whatever fails (a second instance of \<open>collector_invariant\<close>). \<open>Command\<close>:
    \<open>cmd/main.go\<close>.

  \<^bold>\<open>Hypotheses.\<close> What is assumed of Windows and of Go's runtime is named where it is used:
  \<open>boundedSizes\<close> (sizes handed back are below 2 GiB; without it the buffer loop can run for
  ever, which is proved as well), \<open>sizedCall\<close> (a call asks for more room until it has enough
  and then leaves documented data), \<open>cooperative\<close> and \<open>selective\<close> (queries are opened, and all
  or the given counters are accepted), \<open>fairRange\<close> (walking a map visits each key once),
  \<open>undisturbed\<close>, \<open>contributes\<close>, \<open>samplable\<close> and \<open>readable\<close> (between two samples the
  values of a sample can be read again and again). For whole sessions: \<open>documented\<close> (while
  fewer than a given number of handles are in use, queries and the accepted counters get a
  handle that is not in use; open queries can be sampled and closed; other calls leave the
  view alone), \<open>delivers\<close> (data of a counter whose query has been sampled twice can be read
  with a buffer within the limit), \<open>deliversValues\<close> (the same for a single value, or there is no
  data for one of the known reasons), \<open>expandsPaths\<close> (an accepted path is expanded to at most a
  given number of well-formed paths, which may differ from sample to sample, and these are
  accepted), \<open>stamps\<close> (what holds of the clock's times) and \<open>tracks\<close> (which queries are open
  changes only by opening and closing). Each property with a
  hypothesis is instantiated on a concrete machine.

  \<^bold>\<open>Concurrency.\<close> In the sequential model of \<open>Gather\<close> the goroutines of the hosts run one after
  another. In \<open>Goroutines\<close> a step is one call of a query method, of the callback or of the
  logger, \<open>schedule\<close> lets any goroutine make the next step, and \<open>gatherRun\<close> is a whole call with
  its goroutines in any order. Every schedule ends and reports the same as the sequential
  order, which is one of them. Interleaving within one query method is not modelled: the
  methods of different hosts share no memory of the program.

  \<^bold>\<open>Not modelled.\<close> The PDH and kernel functions, the TOML decoder and the standard logger's
  output are parameters or lists of their arguments. Formatted texts are kept as format and
  operands. The interface types \<open>PerformanceQuery\<close> and \<open>performanceQueryCreator\<close> have one
  implementation each, which is modelled directly.
\<close>

end
